theory Spec2Isabelle
  imports Complex_Main "HOL-Library.Word"
begin

section \<open>Collections manifest: name validation\<close>

text \<open>
  \<^verbatim>\<open>Manifest::validName\<close> (collections/manifest.cc) uses \<^verbatim>\<open>std::isdigit\<close> and
  \<^verbatim>\<open>std::isalpha\<close> of the C library on each byte of the name. In the "C" locale, which
  the engine runs in, these are the ASCII ranges below.
\<close>

definition isdigit :: "char \<Rightarrow> bool" where
  "isdigit c = (48 \<le> (of_char c :: nat) \<and> (of_char c :: nat) \<le> 57)"

definition isalpha :: "char \<Rightarrow> bool" where
  "isalpha c = ((65 \<le> (of_char c :: nat) \<and> (of_char c :: nat) \<le> 90) \<or>
                (97 \<le> (of_char c :: nat) \<and> (of_char c :: nat) \<le> 122))"

text \<open>The body of the \<^verbatim>\<open>for (const auto& c : name)\<close> loop of \<^verbatim>\<open>validName\<close>: the first
  character outside the permitted classes returns false; reaching the end returns true.\<close>

fun validName_chars :: "string \<Rightarrow> bool" where
  "validName_chars [] = True"
| "validName_chars (c # cs) =
     (if \<not> (isdigit c \<or> isalpha c \<or> c = CHR ''_'' \<or> c = CHR ''-'' \<or>
              c = CHR ''%'' \<or> c = CHR ''$'')
      then False
      else validName_chars cs)"

text \<open>\<^verbatim>\<open>Manifest::validName\<close>. The constant \<^verbatim>\<open>MaxCollectionNameSize\<close> is declared in
  collections_types.h, which is not part of the sources at hand; it is a parameter.
  \<^verbatim>\<open>name[0]\<close> is read only when the name is not empty (short-circuit \<^verbatim>\<open>||\<close>).\<close>

definition validName :: "nat \<Rightarrow> string \<Rightarrow> bool" where
  "validName MaxCollectionNameSize name =
     (if name = [] \<or> length name > MaxCollectionNameSize \<or> hd name = CHR ''$''
      then False
      else validName_chars name)"

text \<open>The character class \<^verbatim>\<open>[A-Za-z0-9_\-%$]\<close> of the specification, written out.\<close>

definition name_alphabet :: "char set" where
  "name_alphabet =
     set ''ABCDEFGHIJKLMNOPQRSTUVWXYZ'' \<union> set ''abcdefghijklmnopqrstuvwxyz'' \<union>
     set ''0123456789'' \<union> {CHR ''_'', CHR ''-'', CHR ''%'', CHR ''$''}"


section \<open>JSON documents\<close>

text \<open>
  The value types of the JSON library the engine uses (\<^verbatim>\<open>nlohmann::json::value_t\<close>). An
  object is kept as the list of its members in iteration order; the library iterates an
  object in the order of its keys.
\<close>

datatype json =
    Json_null
  | Json_boolean bool
  | Json_number_integer int
  | Json_number_unsigned nat
  | Json_number_float real
  | Json_string string
  | Json_array "json list"
  | Json_object "(string \<times> json) list"

definition is_null :: "json \<Rightarrow> bool" where
  "is_null j = (case j of Json_null \<Rightarrow> True | _ \<Rightarrow> False)"

section \<open>Replication topology validation\<close>

text \<open>
  \<^verbatim>\<open>VBucket::validateReplicationTopology\<close> (vbucket.cc) returns an error message, empty
  when the topology is accepted. The messages are kept as the constructors below (each
  carries the chain and node index the message names); \<open>None\<close> is the empty message.
\<close>

datatype topology_error =
    Topology_not_array
  | Topology_bad_chain_count
  | Chain_not_array nat
  | Chain_bad_node_count nat
  | Active_node_null nat nat
  | Node_not_string nat nat
  | Meta_not_object
  | Meta_unsupported_key string

text \<open>The inner loop \<^verbatim>\<open>for (const auto& node : nodes.items())\<close>; \<open>i\<close> is \<^verbatim>\<open>node.key()\<close>, the
  index of the node in its chain.\<close>

fun validate_nodes :: "nat \<Rightarrow> nat \<Rightarrow> json list \<Rightarrow> topology_error option" where
  "validate_nodes chainId i [] = None"
| "validate_nodes chainId i (node # nodes) =
     (case node of
        Json_string s \<Rightarrow> validate_nodes chainId (Suc i) nodes
      | Json_null \<Rightarrow>
          (if i = 0 then Some (Active_node_null chainId i)
           else validate_nodes chainId (Suc i) nodes)
      | _ \<Rightarrow> Some (Node_not_string chainId i))"

text \<open>The outer loop \<^verbatim>\<open>for (const auto& chain : topology.items())\<close>.\<close>

fun validate_chains :: "nat \<Rightarrow> json list \<Rightarrow> topology_error option" where
  "validate_chains chainId [] = None"
| "validate_chains chainId (chain # rest) =
     (case chain of
        Json_array nodes \<Rightarrow>
          (if length nodes < 1 \<or> length nodes > 4 then Some (Chain_bad_node_count chainId)
           else (case validate_nodes chainId 0 nodes of
                   Some e \<Rightarrow> Some e
                 | None \<Rightarrow> validate_chains (Suc chainId) rest))
      | _ \<Rightarrow> Some (Chain_not_array chainId))"

definition validateReplicationTopology :: "json \<Rightarrow> topology_error option" where
  "validateReplicationTopology topology =
     (case topology of
        Json_array elems \<Rightarrow>
          (if length elems < 1 \<or> length elems > 2 then Some Topology_bad_chain_count
           else validate_chains 0 elems)
      | _ \<Rightarrow> Some Topology_not_array)"

text \<open>\<^verbatim>\<open>VBucket::validateSetStateMeta\<close>: the loop returns at the first member of the object,
  so only the first key is looked at.\<close>

definition validateSetStateMeta :: "json \<Rightarrow> topology_error option" where
  "validateSetStateMeta meta =
     (case meta of
        Json_object members \<Rightarrow>
          (case members of
             [] \<Rightarrow> None
           | (k, v) # _ \<Rightarrow>
               (if k = ''topology'' then validateReplicationTopology v
                else Some (Meta_unsupported_key k)))
      | _ \<Rightarrow> Some Meta_not_object)"

section \<open>The vBucket: data model\<close>

datatype vbucket_state_t =
  vbucket_state_active | vbucket_state_replica | vbucket_state_pending | vbucket_state_dead

datatype EvictionPolicy = Eviction_Value | Eviction_Full

datatype ENGINE_ERROR_CODE =
    ENGINE_SUCCESS | ENGINE_KEY_ENOENT | ENGINE_KEY_EEXISTS | ENGINE_ENOMEM
  | ENGINE_NOT_STORED | ENGINE_EINVAL | ENGINE_EWOULDBLOCK | ENGINE_LOCKED
  | ENGINE_LOCKED_TMPFAIL | ENGINE_PREDICATE_FAILED | ENGINE_SYNC_WRITE_IN_PROGRESS
  | ENGINE_SYNC_WRITE_AMBIGUOUS | ENGINE_DURABILITY_IMPOSSIBLE

datatype MutationStatus =
    NotFound | InvalidCas | WasClean | WasDirty | IsLocked | NoMem | NeedBgFetch
  | IsPendingSyncWrite

datatype AddStatus =
  Add_Success | Add_NoMem | Add_Exists | Add_UnDel | Add_AddTmpAndBgFetch | Add_BgFetch

datatype TempAddStatus = TempAdd_NoMem | TempAdd_BgFetch

datatype DeletionStatus = Deletion_Success | Deletion_IsPendingSyncWrite

datatype StoreIfStatus = StoreIf_Continue | StoreIf_Fail | StoreIf_GetItemInfo

datatype GenerateBySeqno = GenerateBySeqno_No | GenerateBySeqno_Yes
datatype GenerateCas = GenerateCas_No | GenerateCas_Yes
datatype GenerateRevSeqno = GenerateRevSeqno_No | GenerateRevSeqno_Yes
datatype TrackCasDrift = TrackCasDrift_No | TrackCasDrift_Yes
datatype UseActiveVBMemThreshold = UseActiveVBMemThreshold_No | UseActiveVBMemThreshold_Yes

text \<open>What the C++ raises: \<^verbatim>\<open>std::invalid_argument\<close>, \<^verbatim>\<open>std::logic_error\<close>, a failed
  \<^verbatim>\<open>Expects\<close> contract, a JSON \<^verbatim>\<open>out_of_range\<close> from \<^verbatim>\<open>at\<close>, \<^verbatim>\<open>std::bad_cast\<close>, and
  the dereference of an empty optional or a null pointer.\<close>

datatype exn =
  Invalid_argument | Logic_error | Expects_failed | Json_out_of_range | Bad_cast
  | Undefined_behaviour

subsection \<open>Durability requirements\<close>

text \<open>Modelled from the spec: the durability requirements \<open>(level, timeout)\<close> of a prepare
  (\<^verbatim>\<open>cb::durability::Requirements\<close> is declared outside the sources at hand). A timeout is
  the bucket default, a number of milliseconds, or \<^verbatim>\<open>Timeout::Infinity\<close>. Requirements are
  valid when a level is set.\<close>

datatype Level = Level_None | Majority | MajorityAndPersistOnMaster | PersistToMajority

datatype Timeout = Timeout_BucketDefault | Timeout_Millis nat | Timeout_Infinity

record Requirements =
  req_level :: Level
  req_timeout :: Timeout

definition req_isValid :: "Requirements \<Rightarrow> bool" where
  "req_isValid r = (req_level r \<noteq> Level_None)"

record DurabilityItemCtx =
  dur_requirements :: Requirements
  dur_cookie :: "nat option"

subsection \<open>Stored values and items\<close>

datatype CommittedState = CommittedViaMutation | CommittedViaPrepare | Pending

datatype TempKind = Temp_None | Temp_Init | Temp_NonExistent | Temp_Deleted

datatype queue_op =
  Queue_mutation | Queue_pending_sync_write | Queue_commit_sync_write | Queue_abort_sync_write

text \<open>Modelled from the spec: the StoredValue, the in-memory record for a key (class
  \<^verbatim>\<open>StoredValue\<close> is declared outside the sources at hand), with the attributes the spec
  lists: key, optional value bytes, datatype flag (xattr), flags, expiry time, CAS, bySeqno,
  revSeqno, committed-state marker, NRU counter, lock-until time, residency flag,
  temp-marker kind and deletion flag, and the dirty flag the queueing code reads.\<close>

record StoredValue =
  sv_key :: string
  sv_value :: "string option"
  sv_xattr :: bool
  sv_flags :: "32 word"
  sv_exptime :: nat
  sv_cas :: "64 word"
  sv_bySeqno :: int
  sv_revSeqno :: "64 word"
  sv_committed :: CommittedState
  sv_nru :: nat
  sv_lock_expiry :: nat
  sv_resident :: bool
  sv_temp :: TempKind
  sv_deleted :: bool
  sv_dirty :: bool

text \<open>Modelled from the spec: the Item, the serializable form of a StoredValue used for
  queueing (class \<^verbatim>\<open>Item\<close> is declared outside the sources at hand).\<close>

record Item =
  it_key :: string
  it_value :: "string option"
  it_xattr :: bool
  it_flags :: "32 word"
  it_exptime :: nat
  it_cas :: "64 word"
  it_bySeqno :: int
  it_revSeqno :: "64 word"
  it_deleted :: bool
  it_op :: queue_op
  it_durability :: Requirements
  it_prepareSeqno :: int

text \<open>Modelled from the spec: the accessors of StoredValue and Item the vBucket calls. A
  value is locked while its lock-until time is set and not yet passed; \<open>unlock\<close> clears the
  lock-until time; a value is expired when its expiry time is set and has passed.\<close>

definition sv_isTempInitialItem :: "StoredValue \<Rightarrow> bool" where
  "sv_isTempInitialItem v = (sv_temp v = Temp_Init)"

definition sv_isTempNonExistentItem :: "StoredValue \<Rightarrow> bool" where
  "sv_isTempNonExistentItem v = (sv_temp v = Temp_NonExistent)"

definition sv_isTempDeletedItem :: "StoredValue \<Rightarrow> bool" where
  "sv_isTempDeletedItem v = (sv_temp v = Temp_Deleted)"

definition sv_isTempItem :: "StoredValue \<Rightarrow> bool" where
  "sv_isTempItem v =
     (sv_isTempNonExistentItem v \<or> sv_isTempDeletedItem v \<or> sv_isTempInitialItem v)"

definition sv_isPending :: "StoredValue \<Rightarrow> bool" where
  "sv_isPending v = (sv_committed v = Pending)"

definition sv_isLocked :: "StoredValue \<Rightarrow> nat \<Rightarrow> bool" where
  "sv_isLocked v curtime = (sv_lock_expiry v \<noteq> 0 \<and> curtime \<le> sv_lock_expiry v)"

definition sv_unlock :: "StoredValue \<Rightarrow> StoredValue" where
  "sv_unlock v = v\<lparr>sv_lock_expiry := 0\<rparr>"

definition sv_isExpired :: "StoredValue \<Rightarrow> nat \<Rightarrow> bool" where
  "sv_isExpired v asOf = (sv_exptime v \<noteq> 0 \<and> sv_exptime v < asOf)"

definition it_isPending :: "Item \<Rightarrow> bool" where
  "it_isPending itm = (it_op itm = Queue_pending_sync_write)"

definition it_isAbort :: "Item \<Rightarrow> bool" where
  "it_isAbort itm = (it_op itm = Queue_abort_sync_write)"

text \<open>\<^verbatim>\<open>StoredValue::state_temp_init\<close>, the bySeqno that marks an item as a temp-initial
  marker (its declaration is outside the sources at hand).\<close>

definition state_temp_init :: int where
  "state_temp_init = - 5"

definition MAX_NRU_VALUE :: nat where
  "MAX_NRU_VALUE = 3"

subsection \<open>Queueing contexts\<close>

record VBQueueItemCtx =
  ctx_genBySeqno :: GenerateBySeqno
  ctx_genCas :: GenerateCas
  ctx_trackCasDrift :: TrackCasDrift
  ctx_isBackfillItem :: bool
  ctx_durability :: "DurabilityItemCtx option"

text \<open>The default-constructed \<^verbatim>\<open>VBQueueItemCtx\<close>.\<close>

definition default_VBQueueItemCtx :: VBQueueItemCtx where
  "default_VBQueueItemCtx =
     \<lparr>ctx_genBySeqno = GenerateBySeqno_Yes, ctx_genCas = GenerateCas_Yes,
      ctx_trackCasDrift = TrackCasDrift_No, ctx_isBackfillItem = False,
      ctx_durability = None\<rparr>"

record VBNotifyCtx =
  ntf_bySeqno :: int
  ntf_notifyReplication :: bool
  ntf_notifyFlusher :: bool
  ntf_itemCountDifference :: int

definition default_VBNotifyCtx :: VBNotifyCtx where
  "default_VBNotifyCtx =
     \<lparr>ntf_bySeqno = 0, ntf_notifyReplication = False, ntf_notifyFlusher = False,
      ntf_itemCountDifference = 0\<rparr>"

subsection \<open>Durability monitor state\<close>

text \<open>Modelled from the spec: a tracked prepare carries its key, seqno, durability
  requirements, optional client cookie and enqueue time (the durability monitors are
  declared and implemented outside the sources at hand).\<close>

record SyncWrite =
  sw_key :: string
  sw_seqno :: int
  sw_cookie :: "nat option"
  sw_reqs :: Requirements
  sw_start :: nat

text \<open>Modelled from the spec: the Active monitor holds the chains of the topology, each a list
  of node names with \<open>None\<close> for an undefined (unfilled) slot, and the ordered list of
  tracked prepares; the Passive monitor holds tracked prepares only.\<close>

datatype DurabilityMonitor =
    ActiveDM "string option list list" "SyncWrite list"
  | PassiveDM "SyncWrite list"

definition dm_tracked :: "DurabilityMonitor \<Rightarrow> SyncWrite list" where
  "dm_tracked dm = (case dm of ActiveDM chs tracked \<Rightarrow> tracked | PassiveDM tracked \<Rightarrow> tracked)"

subsection \<open>The vBucket and its environment\<close>

text \<open>The state a \<^verbatim>\<open>VBucket\<close> owns, as far as the operations below read or write it. The hash
  table is the mapping from key to StoredValue of the spec; the checkpoint manager is the
  ordered list of queued items with the last assigned seqno; the callbacks the vBucket
  invokes (\<^verbatim>\<open>syncWriteCompleteCb\<close>, \<^verbatim>\<open>newSeqnoCb\<close>, background fetches) are recorded as lists
  of the calls made.\<close>

record VBucket =
  vb_state :: vbucket_state_t
  vb_eviction :: EvictionPolicy
  vb_ht :: "string \<rightharpoonup> StoredValue"
  vb_maxDeletedRevSeqno :: "64 word"
  vb_checkpoint :: "Item list"
  vb_backfill :: "Item list"
  vb_lastBySeqno :: int
  vb_openCheckpointId :: nat
  vb_maxCas :: "64 word"
  vb_mightContainXattrs :: bool
  vb_replicationTopology :: json
  vb_durabilityMonitor :: DurabilityMonitor
  vb_syncWriteComplete :: "(nat \<times> ENGINE_ERROR_CODE) list"
  vb_newSeqno :: "VBNotifyCtx list"
  vb_bgFetch :: "(string \<times> nat option) list"
  vb_collectionHighSeqno :: int
  vb_collectionDiskCount :: int

text \<open>What an operation reads from outside the vBucket: the clocks, the HLC, the memory
  statistics and thresholds, the Bloom filter (absent when \<open>None\<close>), the collection handle's
  logical-deletion test, and the virtual \<^verbatim>\<open>estimateNewMemoryUsage\<close> and
  \<^verbatim>\<open>areDeletedItemsAlwaysResident\<close> of the bucket type.\<close>

record Env =
  env_current_time :: nat
  env_real_time :: nat
  env_steady_now :: nat
  env_hlc_next :: "64 word \<Rightarrow> 64 word"
  env_estimateNewMemoryUsage :: "Item \<Rightarrow> nat"
  env_maxDataSize :: nat
  env_mutationMemThreshold :: real
  env_replicationThrottleThreshold :: real
  env_areDeletedItemsAlwaysResident :: bool
  env_isLogicallyDeleted :: "int \<Rightarrow> bool"
  env_bFilter :: "(string \<Rightarrow> bool) option"
  env_bucketDefaultTimeout :: nat

section \<open>Durability monitor operations\<close>

text \<open>Modelled from the spec: the durability-possible predicate of the Active monitor
  (\<^verbatim>\<open>ActiveDurabilityMonitor::isDurabilityPossible\<close> is outside the sources at hand): for each
  chain, the number of defined nodes must be at least \<open>majority = floor(chainSize/2)+1\<close>.\<close>

definition chain_majority :: "string option list \<Rightarrow> nat" where
  "chain_majority chain = length chain div 2 + 1"

definition chain_defined :: "string option list \<Rightarrow> nat" where
  "chain_defined chain = length (filter (\<lambda>n. n \<noteq> None) chain)"

definition chain_isDurabilityPossible :: "string option list \<Rightarrow> bool" where
  "chain_isDurabilityPossible chain = (chain_majority chain \<le> chain_defined chain)"

definition isDurabilityPossible :: "string option list list \<Rightarrow> bool" where
  "isDurabilityPossible chs = list_all chain_isDurabilityPossible chs"

text \<open>Modelled from the spec: \<^verbatim>\<open>ActiveDurabilityMonitor::setReplicationTopology\<close> (outside the
  sources at hand; its tests are in durability_monitor_test.cc). The topology is an ordered
  list of 1 or 2 chains, each of 1..4 node names, the first defined and the others possibly
  undefined; duplicates within a chain are forbidden. Anything else is refused with
  \<^verbatim>\<open>std::invalid_argument\<close>; an accepted topology replaces the chain definitions and keeps
  the tracked prepares.\<close>

definition json_to_node :: "json \<Rightarrow> string option option" where
  "json_to_node j =
     (case j of Json_string s \<Rightarrow> Some (Some s) | Json_null \<Rightarrow> Some None | _ \<Rightarrow> None)"

fun json_to_nodes :: "json list \<Rightarrow> string option list option" where
  "json_to_nodes [] = Some []"
| "json_to_nodes (j # js) =
     (case json_to_node j of
        None \<Rightarrow> None
      | Some n \<Rightarrow> (case json_to_nodes js of None \<Rightarrow> None | Some ns \<Rightarrow> Some (n # ns)))"

fun json_to_chains :: "json list \<Rightarrow> string option list list option" where
  "json_to_chains [] = Some []"
| "json_to_chains (j # js) =
     (case j of
        Json_array nodes \<Rightarrow>
          (case json_to_nodes nodes of
             None \<Rightarrow> None
           | Some c \<Rightarrow> (case json_to_chains js of None \<Rightarrow> None | Some cs \<Rightarrow> Some (c # cs)))
      | _ \<Rightarrow> None)"

definition chain_valid :: "string option list \<Rightarrow> bool" where
  "chain_valid chain =
     (chain \<noteq> [] \<and> length chain \<le> 4 \<and> hd chain \<noteq> None \<and>
      distinct (filter (\<lambda>n. n \<noteq> None) chain))"

definition adm_setReplicationTopology ::
  "json \<Rightarrow> DurabilityMonitor \<Rightarrow> exn + DurabilityMonitor" where
  "adm_setReplicationTopology topology dm =
     (case dm of
        PassiveDM tracked \<Rightarrow> Inl Bad_cast
      | ActiveDM old tracked \<Rightarrow>
          (case topology of
             Json_array elems \<Rightarrow>
               (case json_to_chains elems of
                  None \<Rightarrow> Inl Invalid_argument
                | Some chs \<Rightarrow>
                    (if chs = [] \<or> length chs > 2 \<or> \<not> list_all chain_valid chs
                     then Inl Invalid_argument
                     else Inr (ActiveDM chs tracked)))
           | _ \<Rightarrow> Inl Invalid_argument))"

text \<open>\<^verbatim>\<open>VBucket::getActiveDM\<close> and \<^verbatim>\<open>VBucket::getPassiveDM\<close>: the contract on the state, then
  the \<^verbatim>\<open>dynamic_cast\<close> of the monitor.\<close>

definition getActiveDM :: "VBucket \<Rightarrow> exn + (string option list list \<times> SyncWrite list)" where
  "getActiveDM vb =
     (if vb_state vb \<noteq> vbucket_state_active then Inl Expects_failed
      else (case vb_durabilityMonitor vb of
              ActiveDM chs tracked \<Rightarrow> Inr (chs, tracked)
            | PassiveDM tracked \<Rightarrow> Inl Bad_cast))"

definition getPassiveDM :: "VBucket \<Rightarrow> exn + SyncWrite list" where
  "getPassiveDM vb =
     (if \<not> (vb_state vb = vbucket_state_replica \<or> vb_state vb = vbucket_state_pending)
      then Inl Expects_failed
      else (case vb_durabilityMonitor vb of
              PassiveDM tracked \<Rightarrow> Inr tracked
            | ActiveDM chs tracked \<Rightarrow> Inl Bad_cast))"

section \<open>State transitions\<close>

text \<open>\<^verbatim>\<open>nlohmann::json::at\<close> on an object; it raises \<^verbatim>\<open>out_of_range\<close> when the key is missing.\<close>

definition json_at :: "json \<Rightarrow> string \<Rightarrow> json option" where
  "json_at j k = (case j of Json_object members \<Rightarrow> map_of members k | _ \<Rightarrow> None)"

text \<open>\<^verbatim>\<open>VBucket::setupSyncReplication\<close>. An exception leaves the assignments made before it
  in place, so the result is the exception raised, if any, together with the vBucket as
  it is at that point.\<close>

definition setupSyncReplication ::
  "json \<Rightarrow> vbucket_state_t option \<Rightarrow> VBucket \<Rightarrow> exn option \<times> VBucket" where
  "setupSyncReplication topology prevVBState vb =
     (if \<not> is_null topology \<and> vb_state vb \<noteq> vbucket_state_active
      then (Some Invalid_argument, vb)
      else if \<not> is_null topology \<and> validateReplicationTopology topology \<noteq> None
      then (Some Invalid_argument, vb)
      else
        let vb1 = vb\<lparr>vb_replicationTopology :=
                        (if \<not> is_null topology then topology else Json_null)\<rparr>
        in if vb_state vb1 = vbucket_state_active then
             (case (if prevVBState = Some vbucket_state_replica \<or>
                       prevVBState = Some vbucket_state_pending
                    then (case vb_durabilityMonitor vb1 of
                            PassiveDM tracked \<Rightarrow> Inr (ActiveDM [] tracked)
                          | ActiveDM chs tracked \<Rightarrow> Inl Bad_cast)
                    else Inr (ActiveDM [] [])) of
                Inl e \<Rightarrow> (Some e, vb1)
              | Inr dm \<Rightarrow>
                  let vb2 = vb1\<lparr>vb_durabilityMonitor := dm\<rparr>
                  in if \<not> is_null topology then
                       (case adm_setReplicationTopology (vb_replicationTopology vb2) dm of
                          Inl e \<Rightarrow> (Some e, vb2)
                        | Inr dm' \<Rightarrow> (None, vb2\<lparr>vb_durabilityMonitor := dm'\<rparr>))
                     else (None, vb2))
           else if vb_state vb1 = vbucket_state_replica \<or>
                   vb_state vb1 = vbucket_state_pending
           then (None, vb1\<lparr>vb_durabilityMonitor := PassiveDM []\<rparr>)
           else (None, vb1))"

text \<open>\<^verbatim>\<open>VBucket::setState_UNLOCKED\<close>.\<close>

definition setState_UNLOCKED ::
  "vbucket_state_t \<Rightarrow> json \<Rightarrow> VBucket \<Rightarrow> exn option \<times> VBucket" where
  "setState_UNLOCKED to meta vb =
     (let oldstate = vb_state vb
      in if \<not> is_null meta \<and> to \<noteq> vbucket_state_active then (Some Invalid_argument, vb)
         else if \<not> is_null meta \<and> validateSetStateMeta meta \<noteq> None
         then (Some Invalid_argument, vb)
         else
           let vb1 = (if to = vbucket_state_active \<and> vb_openCheckpointId vb < 2
                      then vb\<lparr>vb_openCheckpointId := 2\<rparr> else vb);
               vb2 = vb1\<lparr>vb_state := to\<rparr>
           in if is_null meta then setupSyncReplication Json_null (Some oldstate) vb2
              else (case json_at meta ''topology'' of
                      None \<Rightarrow> (Some Json_out_of_range, vb2)
                    | Some topology \<Rightarrow> setupSyncReplication topology (Some oldstate) vb2))"

text \<open>The shape of a replication topology in the words of the specification: an array of
  1..2 chains, each an array of 1..4 entries, the first entry a string, every other entry
  null or a string; and, separately, no node name duplicated within a chain.\<close>

definition is_string :: "json \<Rightarrow> bool" where
  "is_string j = (case j of Json_string s \<Rightarrow> True | _ \<Rightarrow> False)"

definition topology_chain_shape :: "json \<Rightarrow> bool" where
  "topology_chain_shape c =
     (case c of
        Json_array nodes \<Rightarrow>
          1 \<le> length nodes \<and> length nodes \<le> 4 \<and> is_string (hd nodes) \<and>
          list_all (\<lambda>n. is_null n \<or> is_string n) (tl nodes)
      | _ \<Rightarrow> False)"

definition topology_shape :: "json \<Rightarrow> bool" where
  "topology_shape t =
     (case t of
        Json_array elems \<Rightarrow>
          1 \<le> length elems \<and> length elems \<le> 2 \<and> list_all topology_chain_shape elems
      | _ \<Rightarrow> False)"

definition topology_no_duplicates :: "json \<Rightarrow> bool" where
  "topology_no_duplicates t =
     (case t of
        Json_array elems \<Rightarrow>
          list_all (\<lambda>c. case c of Json_array nodes \<Rightarrow> distinct (filter is_string nodes)
                               | _ \<Rightarrow> True) elems
      | _ \<Rightarrow> True)"

text \<open>A vBucket whose monitor fits its state: Passive on a replica or pending vBucket.\<close>

definition dm_fits_state :: "VBucket \<Rightarrow> bool" where
  "dm_fits_state vb =
     (if vb_state vb = vbucket_state_replica \<or> vb_state vb = vbucket_state_pending
      then (case vb_durabilityMonitor vb of PassiveDM tracked \<Rightarrow> True | _ \<Rightarrow> False)
      else True)"

section \<open>Double-precision arithmetic\<close>

text \<open>The memory thresholds and the sizes compared with them are C++ \<^verbatim>\<open>double\<close>s. A finite
  double is kept as the real number it denotes, and every operation on doubles is the
  exact operation followed by \<open>to_double\<close>, the rounding to the nearest double with ties to
  the even significand (the default rounding mode). A double has a significand of 53 bits:
  for \<open>2^e \<le> |x| < 2^(e+1)\<close> the doubles around \<open>x\<close> are the multiples of \<open>2^(e-52)\<close>. The
  range of the exponent is not modelled (no overflow to infinity, no subnormal numbers, no
  NaN): the quantities compared are byte counts below \<open>2^64\<close> and their products with a
  threshold.\<close>

definition double_exponent :: "real \<Rightarrow> int" where
  "double_exponent x = \<lfloor>log 2 \<bar>x\<bar>\<rfloor>"

definition double_ulp :: "real \<Rightarrow> real" where
  "double_ulp x = 2 powr (of_int (double_exponent x - 52))"

definition round_ties_even :: "real \<Rightarrow> int" where
  "round_ties_even q =
     (let f = \<lfloor>q\<rfloor>
      in if q - of_int f < 1 / 2 then f
         else if q - of_int f > 1 / 2 then f + 1
         else if even f then f else f + 1)"

definition to_double :: "real \<Rightarrow> real" where
  "to_double x =
     (if x = 0 then 0 else of_int (round_ties_even (x / double_ulp x)) * double_ulp x)"

section \<open>Queueing\<close>

text \<open>\<^verbatim>\<open>VBucket::hasMemoryForStoredValue\<close>. The two sizes are converted to \<^verbatim>\<open>double\<close>, the
  product with the threshold is a product of doubles, and the comparison is between
  doubles. The thresholds of the environment are doubles.\<close>

definition hasMemoryForStoredValue ::
  "Env \<Rightarrow> VBucket \<Rightarrow> Item \<Rightarrow> UseActiveVBMemThreshold \<Rightarrow> bool" where
  "hasMemoryForStoredValue env vb item useActiveVBMemThreshold =
     (let newSize = to_double (real (env_estimateNewMemoryUsage env item));
          maxSize = to_double (real (env_maxDataSize env))
      in if useActiveVBMemThreshold = UseActiveVBMemThreshold_Yes \<or>
            vb_state vb = vbucket_state_active
         then newSize \<le> to_double (maxSize * env_mutationMemThreshold env)
         else newSize \<le> to_double (maxSize * env_replicationThrottleThreshold env))"

text \<open>\<^verbatim>\<open>VBucket::setMutationMemoryThreshold\<close>: the value the static \<^verbatim>\<open>mutationMemThreshold\<close> gets,
  \<^verbatim>\<open>static_cast<double>(memThreshold) / 100.0\<close>.\<close>

definition setMutationMemoryThreshold :: "nat \<Rightarrow> exn + real" where
  "setMutationMemoryThreshold memThreshold =
     (if memThreshold > 0 \<and> memThreshold \<le> 100
      then Inr (to_double (to_double (real memThreshold) / to_double 100))
      else Inl Invalid_argument)"

text \<open>\<^verbatim>\<open>VBucket::maybeKeyExistsInFilter\<close>.\<close>

definition maybeKeyExistsInFilter :: "Env \<Rightarrow> string \<Rightarrow> bool" where
  "maybeKeyExistsInFilter env k =
     (case env_bFilter env of Some f \<Rightarrow> f k | None \<Rightarrow> True)"

text \<open>A stored value reached through a pointer lives in the hash table: a write through
  the pointer is a write to the table's entry for its key.\<close>

definition ht_put :: "StoredValue \<Rightarrow> VBucket \<Rightarrow> VBucket" where
  "ht_put v vb = vb\<lparr>vb_ht := (vb_ht vb)(sv_key v \<mapsto> v)\<rparr>"

definition ht_del :: "string \<Rightarrow> VBucket \<Rightarrow> VBucket" where
  "ht_del k vb = vb\<lparr>vb_ht := (vb_ht vb)(k := None)\<rparr>"

text \<open>Modelled from the spec: \<^verbatim>\<open>HashTable::updateMaxDeletedRevSeqno\<close> tracks the maximum
  revSeqno ever seen (the hash table is outside the sources at hand).\<close>

definition updateMaxDeletedRevSeqno :: "64 word \<Rightarrow> VBucket \<Rightarrow> VBucket" where
  "updateMaxDeletedRevSeqno r vb =
     (if vb_maxDeletedRevSeqno vb < r then vb\<lparr>vb_maxDeletedRevSeqno := r\<rparr> else vb)"

text \<open>Modelled from the spec: the conversions between Item and StoredValue
  (\<^verbatim>\<open>StoredValue::toItem\<close>, \<^verbatim>\<open>toItemAbort\<close>, and the construction and in-place replacement
  of a stored value from an item, all outside the sources at hand). An item made from a
  Pending value is a pending sync write carrying the durability requirements it is given;
  one made from a value committed via prepare is a commit; the abort item of a value is
  a deleted item of kind abort. A stored value made from a durable prepare is Pending, any
  other is committed via mutation; it is resident and dirty.\<close>

definition no_requirements :: Requirements where
  "no_requirements = \<lparr>req_level = Level_None, req_timeout = Timeout_BucketDefault\<rparr>"

definition sv_toItemBase :: "StoredValue \<Rightarrow> Item" where
  "sv_toItemBase v =
     \<lparr>it_key = sv_key v, it_value = sv_value v, it_xattr = sv_xattr v, it_flags = sv_flags v,
      it_exptime = sv_exptime v, it_cas = sv_cas v, it_bySeqno = sv_bySeqno v,
      it_revSeqno = sv_revSeqno v, it_deleted = sv_deleted v, it_op = Queue_mutation,
      it_durability = no_requirements, it_prepareSeqno = 0\<rparr>"

definition sv_toItem :: "StoredValue \<Rightarrow> Requirements option \<Rightarrow> exn + Item" where
  "sv_toItem v durabilityReqs =
     (case sv_committed v of
        Pending \<Rightarrow>
          (case durabilityReqs of
             None \<Rightarrow> Inl Logic_error
           | Some r \<Rightarrow>
               Inr ((sv_toItemBase v)\<lparr>it_op := Queue_pending_sync_write, it_durability := r\<rparr>))
      | CommittedViaPrepare \<Rightarrow> Inr ((sv_toItemBase v)\<lparr>it_op := Queue_commit_sync_write\<rparr>)
      | CommittedViaMutation \<Rightarrow> Inr (sv_toItemBase v))"

definition sv_toItemAbort :: "StoredValue \<Rightarrow> Item" where
  "sv_toItemAbort v =
     (sv_toItemBase v)\<lparr>it_value := None, it_deleted := True, it_op := Queue_abort_sync_write\<rparr>"

definition temp_of_bySeqno :: "int \<Rightarrow> TempKind" where
  "temp_of_bySeqno s = (if s = state_temp_init then Temp_Init else Temp_None)"

definition sv_of_item :: "Item \<Rightarrow> StoredValue" where
  "sv_of_item itm =
     \<lparr>sv_key = it_key itm, sv_value = it_value itm, sv_xattr = it_xattr itm,
      sv_flags = it_flags itm, sv_exptime = it_exptime itm, sv_cas = it_cas itm,
      sv_bySeqno = it_bySeqno itm, sv_revSeqno = it_revSeqno itm,
      sv_committed = (if it_isPending itm then Pending else CommittedViaMutation),
      sv_nru = 2, sv_lock_expiry = 0, sv_resident = True,
      sv_temp = temp_of_bySeqno (it_bySeqno itm), sv_deleted = it_deleted itm,
      sv_dirty = True\<rparr>"

definition sv_setValue :: "StoredValue \<Rightarrow> Item \<Rightarrow> StoredValue" where
  "sv_setValue v itm =
     v\<lparr>sv_value := it_value itm, sv_xattr := it_xattr itm, sv_flags := it_flags itm,
       sv_exptime := it_exptime itm, sv_cas := it_cas itm, sv_bySeqno := it_bySeqno itm,
       sv_revSeqno := it_revSeqno itm,
       sv_committed := (if it_isPending itm then Pending else CommittedViaMutation),
       sv_resident := True, sv_temp := temp_of_bySeqno (it_bySeqno itm),
       sv_deleted := it_deleted itm, sv_dirty := True\<rparr>"

text \<open>Modelled from the spec: \<^verbatim>\<open>CheckpointManager::queueDirty\<close> (outside the sources at hand).
  With \<^verbatim>\<open>genSeqno = Yes\<close> it assigns the next seqno and writes it into the item; it
  enforces strict monotonicity of the seqnos it takes, a violation being a logic error;
  with \<^verbatim>\<open>genCas = Yes\<close> the item gets a fresh CAS from the HLC. The item is appended to the
  open checkpoint. The result asks for the flusher to be notified.\<close>

definition cm_queueDirty ::
  "Env \<Rightarrow> VBucket \<Rightarrow> Item \<Rightarrow> GenerateBySeqno \<Rightarrow> GenerateCas \<Rightarrow> exn + (bool \<times> Item \<times> VBucket)"
  where
  "cm_queueDirty env vb item genBySeqno genCas =
     (let item1 = (if genBySeqno = GenerateBySeqno_Yes
                   then item\<lparr>it_bySeqno := vb_lastBySeqno vb + 1\<rparr> else item)
      in if it_bySeqno item1 \<le> vb_lastBySeqno vb then Inl Logic_error
         else
           let item2 = (if genCas = GenerateCas_Yes
                        then item1\<lparr>it_cas := env_hlc_next env (vb_maxCas vb)\<rparr> else item1);
               vb1 = vb\<lparr>vb_checkpoint := vb_checkpoint vb @ [item2],
                        vb_lastBySeqno := it_bySeqno item2,
                        vb_maxCas := (if genCas = GenerateCas_Yes then it_cas item2
                                      else vb_maxCas vb)\<rparr>
           in Inr (True, item2, vb1))"

text \<open>Modelled from the spec: \<^verbatim>\<open>VBucket::queueBackfillItem\<close> (declared in the header, outside
  the sources at hand): the replica-side direct path, which takes the item's seqno unless
  asked to generate one, and appends the item to the backfill queue.\<close>

definition queueBackfillItem :: "VBucket \<Rightarrow> Item \<Rightarrow> GenerateBySeqno \<Rightarrow> Item \<times> VBucket" where
  "queueBackfillItem vb item genBySeqno =
     (let item1 = (if genBySeqno = GenerateBySeqno_Yes
                   then item\<lparr>it_bySeqno := vb_lastBySeqno vb + 1\<rparr> else item)
      in (item1, vb\<lparr>vb_backfill := vb_backfill vb @ [item1],
                     vb_lastBySeqno := it_bySeqno item1\<rparr>))"

text \<open>Modelled from the spec: \<^verbatim>\<open>addSyncWrite\<close> of the two monitors (outside the sources at
  hand). The Active monitor fails when durability is impossible for the topology, and
  otherwise appends the prepare to the tracked writes with its cookie and enqueue time, a
  default timeout being resolved to the bucket's. The Passive monitor takes prepares with
  explicit timeouts only.\<close>

definition resolve_timeout :: "Env \<Rightarrow> Requirements \<Rightarrow> Requirements" where
  "resolve_timeout env r =
     (case req_timeout r of
        Timeout_BucketDefault \<Rightarrow> r\<lparr>req_timeout := Timeout_Millis (env_bucketDefaultTimeout env)\<rparr>
      | _ \<Rightarrow> r)"

definition adm_addSyncWrite :: "Env \<Rightarrow> nat option \<Rightarrow> Item \<Rightarrow> VBucket \<Rightarrow> exn + VBucket" where
  "adm_addSyncWrite env cookie item vb =
     (case getActiveDM vb of
        Inl e \<Rightarrow> Inl e
      | Inr (chs, tracked) \<Rightarrow>
          (if \<not> isDurabilityPossible chs then Inl Logic_error
           else Inr (vb\<lparr>vb_durabilityMonitor :=
                          ActiveDM chs (tracked @
                            [\<lparr>sw_key = it_key item, sw_seqno = it_bySeqno item,
                              sw_cookie = cookie,
                              sw_reqs = resolve_timeout env (it_durability item),
                              sw_start = env_steady_now env\<rparr>])\<rparr>)))"

definition pdm_addSyncWrite :: "Env \<Rightarrow> Item \<Rightarrow> VBucket \<Rightarrow> exn + VBucket" where
  "pdm_addSyncWrite env item vb =
     (case getPassiveDM vb of
        Inl e \<Rightarrow> Inl e
      | Inr tracked \<Rightarrow>
          (if req_timeout (it_durability item) = Timeout_BucketDefault then Inl Invalid_argument
           else Inr (vb\<lparr>vb_durabilityMonitor :=
                          PassiveDM (tracked @
                            [\<lparr>sw_key = it_key item, sw_seqno = it_bySeqno item,
                              sw_cookie = None, sw_reqs = it_durability item,
                              sw_start = env_steady_now env\<rparr>])\<rparr>)))"

text \<open>\<^verbatim>\<open>VBucket::queueItem\<close>. The mutex taken for durable writes has no counterpart here;
  \<^verbatim>\<open>resetSnapshotRange\<close> touches checkpoint bookkeeping that is not part of this state.\<close>

definition queueItem ::
  "Env \<Rightarrow> VBucket \<Rightarrow> Item \<Rightarrow> VBQueueItemCtx \<Rightarrow> exn + (VBNotifyCtx \<times> Item \<times> VBucket)" where
  "queueItem env vb item ctx =
     (case (if ctx_isBackfillItem ctx
            then (case queueBackfillItem vb item (ctx_genBySeqno ctx) of
                    (item1, vb1) \<Rightarrow>
                      Inr (default_VBNotifyCtx\<lparr>ntf_notifyFlusher := True\<rparr>, item1, vb1))
            else (case cm_queueDirty env vb item (ctx_genBySeqno ctx) (ctx_genCas ctx) of
                    Inl e \<Rightarrow> Inl e
                  | Inr (nf, item1, vb1) \<Rightarrow>
                      Inr (default_VBNotifyCtx\<lparr>ntf_notifyFlusher := nf,
                                               ntf_notifyReplication := True\<rparr>, item1, vb1))) of
        Inl e \<Rightarrow> Inl e
      | Inr (notifyCtx0, item1, vb1) \<Rightarrow>
          (let notifyCtx = notifyCtx0\<lparr>ntf_bySeqno := it_bySeqno item1\<rparr>
           in if it_isPending item1 then
                (case ctx_durability ctx of
                   None \<Rightarrow> Inl Expects_failed
                 | Some d \<Rightarrow>
                     (if vb_state vb1 = vbucket_state_active then
                        (case adm_addSyncWrite env (dur_cookie d) item1 vb1 of
                           Inl e \<Rightarrow> Inl e
                         | Inr vb2 \<Rightarrow> Inr (notifyCtx, item1, vb2))
                      else if vb_state vb1 = vbucket_state_replica \<or>
                              vb_state vb1 = vbucket_state_pending then
                        (case pdm_addSyncWrite env item1 vb1 of
                           Inl e \<Rightarrow> Inl e
                         | Inr vb2 \<Rightarrow> Inr (notifyCtx, item1, vb2))
                      else Inr (notifyCtx, item1, vb1)))
              else Inr (notifyCtx, item1, vb1)))"

text \<open>Modelled from the spec: \<^verbatim>\<open>setMaxCasAndTrackDrift\<close> raises the HLC's maximum CAS to the
  given one (the HLC is outside the sources at hand).\<close>

definition setMaxCasAndTrackDrift :: "64 word \<Rightarrow> VBucket \<Rightarrow> VBucket" where
  "setMaxCasAndTrackDrift c vb = (if vb_maxCas vb < c then vb\<lparr>vb_maxCas := c\<rparr> else vb)"

text \<open>\<^verbatim>\<open>VBucket::queueDirty\<close>. For a deleted item the delete time is its expiry field. The
  stored value is passed by reference: the adjusted value is written to the hash table
  and returned.\<close>

definition queueDirty ::
  "Env \<Rightarrow> VBucket \<Rightarrow> StoredValue \<Rightarrow> VBQueueItemCtx \<Rightarrow>
     exn + (VBNotifyCtx \<times> StoredValue \<times> VBucket)" where
  "queueDirty env vb v ctx =
     (let vb0 = (if ctx_trackCasDrift ctx = TrackCasDrift_Yes
                 then setMaxCasAndTrackDrift (sv_cas v) vb else vb);
          durabilityReqs = (case ctx_durability ctx of
                              Some d \<Rightarrow> Some (dur_requirements d) | None \<Rightarrow> None)
      in case sv_toItem v durabilityReqs of
           Inl e \<Rightarrow> Inl e
         | Inr qi0 \<Rightarrow>
             (let qi = (if it_deleted qi0 \<and> it_exptime qi0 = 0
                        then qi0\<lparr>it_exptime := env_real_time env\<rparr> else qi0);
                  vb1 = (if \<not> vb_mightContainXattrs vb0 \<and> sv_xattr v
                         then vb0\<lparr>vb_mightContainXattrs := True\<rparr> else vb0)
              in case queueItem env vb1 qi ctx of
                   Inl e \<Rightarrow> Inl e
                 | Inr (notifyCtx, qi1, vb2) \<Rightarrow>
                     (let v1 = (if \<not> ctx_isBackfillItem ctx \<and> ctx_genCas ctx = GenerateCas_Yes
                                then v\<lparr>sv_cas := it_cas qi1\<rparr> else v);
                          v2 = (if ctx_genBySeqno ctx = GenerateBySeqno_Yes
                                then v1\<lparr>sv_bySeqno := it_bySeqno qi1\<rparr> else v1)
                      in Inr (notifyCtx, v2, ht_put v2 vb2))))"

text \<open>\<^verbatim>\<open>VBucket::queueAbort\<close>. The two \<^verbatim>\<open>Expects\<close> on the abort item hold by the
  construction of the item.\<close>

definition queueAbort ::
  "Env \<Rightarrow> VBucket \<Rightarrow> StoredValue \<Rightarrow> int \<Rightarrow> VBQueueItemCtx \<Rightarrow>
     exn + (VBNotifyCtx \<times> Item \<times> VBucket)" where
  "queueAbort env vb v prepareSeqno ctx =
     (let vb0 = (if ctx_trackCasDrift ctx = TrackCasDrift_Yes
                 then setMaxCasAndTrackDrift (sv_cas v) vb else vb);
          item = (sv_toItemAbort v)\<lparr>it_prepareSeqno := prepareSeqno\<rparr>
      in if \<not> it_isAbort item \<or> \<not> it_deleted item then Inl Expects_failed
         else queueItem env vb0 item ctx)"

section \<open>Stored-value operations of the bucket type\<close>

text \<open>\<^verbatim>\<open>VBucket::updateRevSeqNoOfNewStoredValue\<close>.\<close>

definition updateRevSeqNoOfNewStoredValue :: "VBucket \<Rightarrow> StoredValue \<Rightarrow> StoredValue" where
  "updateRevSeqNoOfNewStoredValue vb v =
     (let seqno = vb_maxDeletedRevSeqno vb;
          seqno' = (if \<not> sv_isTempItem v then seqno + 1 else seqno)
      in v\<lparr>sv_revSeqno := seqno'\<rparr>)"

text \<open>Modelled from the spec: the virtual \<^verbatim>\<open>updateStoredValue\<close>, \<^verbatim>\<open>addNewStoredValue\<close> and
  \<^verbatim>\<open>softDeleteStoredValue\<close> (implemented by the bucket types, outside the sources at hand).
  An update or a soft delete of a value that is a Pending prepare fails with a sync write
  in progress and changes nothing. Otherwise an update replaces the stored value in place
  with the item and queues it; an add inserts a new stored value, gives it a revSeqno
  above every deleted one when asked to, and queues it; a soft delete marks the value
  deleted (dropping the body unless only the mark is wanted, and becoming a Pending
  prepare when durability is requested) and queues the tombstone. The status of an update
  tells whether the replaced value was dirty.\<close>

definition updateStoredValue ::
  "Env \<Rightarrow> VBucket \<Rightarrow> StoredValue \<Rightarrow> Item \<Rightarrow> VBQueueItemCtx \<Rightarrow>
     exn + (StoredValue \<times> MutationStatus \<times> VBNotifyCtx \<times> VBucket)" where
  "updateStoredValue env vb v itm ctx =
     (if sv_isPending v then Inr (v, IsPendingSyncWrite, default_VBNotifyCtx, vb)
      else
        let status = (if sv_dirty v then WasDirty else WasClean);
            v1 = sv_setValue v itm
        in case queueDirty env (ht_put v1 vb) v1 ctx of
             Inl e \<Rightarrow> Inl e
           | Inr (notifyCtx, v2, vb2) \<Rightarrow> Inr (v2, status, notifyCtx, vb2))"

definition addNewStoredValue ::
  "Env \<Rightarrow> VBucket \<Rightarrow> Item \<Rightarrow> VBQueueItemCtx \<Rightarrow> GenerateRevSeqno \<Rightarrow>
     exn + (StoredValue \<times> VBNotifyCtx \<times> VBucket)" where
  "addNewStoredValue env vb itm ctx genRevSeqno =
     (let v0 = sv_of_item itm;
          v1 = (if genRevSeqno = GenerateRevSeqno_Yes
                then updateRevSeqNoOfNewStoredValue vb v0 else v0)
      in case queueDirty env (ht_put v1 vb) v1 ctx of
           Inl e \<Rightarrow> Inl e
         | Inr (notifyCtx, v2, vb2) \<Rightarrow> Inr (v2, notifyCtx, vb2))"

definition softDeleteStoredValue ::
  "Env \<Rightarrow> VBucket \<Rightarrow> StoredValue \<Rightarrow> bool \<Rightarrow> VBQueueItemCtx \<Rightarrow> int \<Rightarrow>
     exn + (StoredValue \<times> DeletionStatus \<times> VBNotifyCtx \<times> VBucket)" where
  "softDeleteStoredValue env vb v onlyMarkDeleted ctx bySeqno =
     (if sv_isPending v then Inr (v, Deletion_IsPendingSyncWrite, default_VBNotifyCtx, vb)
      else
        let v1 = v\<lparr>sv_deleted := True,
                   sv_value := (if onlyMarkDeleted then sv_value v else None),
                   sv_dirty := True,
                   sv_committed := (if ctx_durability ctx \<noteq> None then Pending
                                    else sv_committed v)\<rparr>;
            v2 = (if ctx_genBySeqno ctx = GenerateBySeqno_No
                  then v1\<lparr>sv_bySeqno := bySeqno\<rparr> else v1)
        in case queueDirty env (ht_put v2 vb) v2 ctx of
             Inl e \<Rightarrow> Inl e
           | Inr (notifyCtx, v3, vb3) \<Rightarrow> Inr (v3, Deletion_Success, notifyCtx, vb3))"

text \<open>Modelled from the spec: the virtual \<^verbatim>\<open>commitStoredValue\<close> and \<^verbatim>\<open>abortStoredValue\<close>
  (outside the sources at hand). A commit replaces the Pending value with its committed
  form, taking the given commit seqno if there is one, and queues the commit item. An
  abort queues an abort item carrying the prepare's seqno (through \<^verbatim>\<open>queueAbort\<close>) and
  removes the pending value from the hash table.\<close>

definition commitStoredValue ::
  "Env \<Rightarrow> VBucket \<Rightarrow> StoredValue \<Rightarrow> VBQueueItemCtx \<Rightarrow> int option \<Rightarrow>
     exn + (VBNotifyCtx \<times> VBucket)" where
  "commitStoredValue env vb v ctx commitSeqno =
     (let v1 = v\<lparr>sv_committed := CommittedViaPrepare\<rparr>;
          v2 = (case commitSeqno of Some s \<Rightarrow> v1\<lparr>sv_bySeqno := s\<rparr> | None \<Rightarrow> v1)
      in case queueDirty env (ht_put v2 vb) v2 ctx of
           Inl e \<Rightarrow> Inl e
         | Inr (notifyCtx, v3, vb3) \<Rightarrow> Inr (notifyCtx, vb3))"

definition abortStoredValue ::
  "Env \<Rightarrow> VBucket \<Rightarrow> StoredValue \<Rightarrow> int \<Rightarrow> int option \<Rightarrow> exn + (VBNotifyCtx \<times> VBucket)"
  where
  "abortStoredValue env vb v prepareSeqno abortSeqno =
     (let ctx = (case abortSeqno of
                   Some s \<Rightarrow> default_VBQueueItemCtx\<lparr>ctx_genBySeqno := GenerateBySeqno_No\<rparr>
                 | None \<Rightarrow> default_VBQueueItemCtx);
          v1 = (case abortSeqno of Some s \<Rightarrow> v\<lparr>sv_bySeqno := s\<rparr> | None \<Rightarrow> v)
      in case queueAbort env vb v1 prepareSeqno ctx of
           Inl e \<Rightarrow> Inl e
         | Inr (notifyCtx, item, vb1) \<Rightarrow> Inr (notifyCtx, ht_del (sv_key v) vb1))"

section \<open>Notifications\<close>

text \<open>\<^verbatim>\<open>VBucket::notifyNewSeqno\<close>, \<^verbatim>\<open>VBucket::doCollectionsStats\<close> (for a caching read
  handle) and \<^verbatim>\<open>VBucket::notifyClientOfSyncWriteComplete\<close>; each callback invoked is
  recorded in the vBucket.\<close>

definition notifyNewSeqno :: "VBNotifyCtx \<Rightarrow> VBucket \<Rightarrow> VBucket" where
  "notifyNewSeqno notifyCtx vb = vb\<lparr>vb_newSeqno := vb_newSeqno vb @ [notifyCtx]\<rparr>"

definition doCollectionsStats :: "VBNotifyCtx \<Rightarrow> VBucket \<Rightarrow> VBucket" where
  "doCollectionsStats notifyCtx vb =
     (let vb1 = vb\<lparr>vb_collectionHighSeqno := ntf_bySeqno notifyCtx\<rparr>
      in if ntf_itemCountDifference notifyCtx = 1
         then vb1\<lparr>vb_collectionDiskCount := vb_collectionDiskCount vb1 + 1\<rparr>
         else if ntf_itemCountDifference notifyCtx = - 1
         then vb1\<lparr>vb_collectionDiskCount := vb_collectionDiskCount vb1 - 1\<rparr>
         else vb1)"

definition notifyClientOfSyncWriteComplete ::
  "nat \<Rightarrow> ENGINE_ERROR_CODE \<Rightarrow> VBucket \<Rightarrow> VBucket" where
  "notifyClientOfSyncWriteComplete cookie result vb =
     vb\<lparr>vb_syncWriteComplete := vb_syncWriteComplete vb @ [(cookie, result)]\<rparr>"

section \<open>Commit and abort\<close>

text \<open>\<^verbatim>\<open>HashTable::findForWrite\<close>: the stored value at the key, if any.\<close>

definition findForWrite :: "VBucket \<Rightarrow> string \<Rightarrow> StoredValue option" where
  "findForWrite vb k = vb_ht vb k"

text \<open>\<^verbatim>\<open>VBucket::commit\<close>. The warnings logged on the two failure paths are not part of the
  state.\<close>

definition commit ::
  "Env \<Rightarrow> VBucket \<Rightarrow> string \<Rightarrow> int \<Rightarrow> int option \<Rightarrow> nat option \<Rightarrow>
     exn + (ENGINE_ERROR_CODE \<times> VBucket)" where
  "commit env vb k pendingSeqno commitSeqno cookie =
     (case findForWrite vb k of
        None \<Rightarrow> Inr (ENGINE_KEY_ENOENT, vb)
      | Some v \<Rightarrow>
          (if sv_committed v \<noteq> Pending then Inr (ENGINE_EINVAL, vb)
           else if \<not> sv_resident v then Inl Expects_failed
           else
             let queueItmCtx = (case commitSeqno of
                                  Some s \<Rightarrow> default_VBQueueItemCtx
                                              \<lparr>ctx_genBySeqno := GenerateBySeqno_No\<rparr>
                                | None \<Rightarrow> default_VBQueueItemCtx)
             in case commitStoredValue env vb v queueItmCtx commitSeqno of
                  Inl e \<Rightarrow> Inl e
                | Inr (notify, vb1) \<Rightarrow>
                    (let vb2 = doCollectionsStats notify (notifyNewSeqno notify vb1);
                         vb3 = (case cookie of
                                  Some c \<Rightarrow> notifyClientOfSyncWriteComplete c ENGINE_SUCCESS vb2
                                | None \<Rightarrow> vb2)
                     in Inr (ENGINE_SUCCESS, vb3))))"

text \<open>\<^verbatim>\<open>VBucket::abort\<close>.\<close>

definition abort ::
  "Env \<Rightarrow> VBucket \<Rightarrow> string \<Rightarrow> int \<Rightarrow> int option \<Rightarrow> nat option \<Rightarrow>
     exn + (ENGINE_ERROR_CODE \<times> VBucket)" where
  "abort env vb k prepareSeqno abortSeqno cookie =
     (case findForWrite vb k of
        None \<Rightarrow> Inr (ENGINE_KEY_ENOENT, vb)
      | Some v \<Rightarrow>
          (if sv_committed v \<noteq> Pending then Inr (ENGINE_EINVAL, vb)
           else
             case abortStoredValue env vb v prepareSeqno abortSeqno of
               Inl e \<Rightarrow> Inl e
             | Inr (notify, vb1) \<Rightarrow>
                 (let vb2 = doCollectionsStats notify (notifyNewSeqno notify vb1);
                      vb3 = (case cookie of
                               Some c \<Rightarrow>
                                 notifyClientOfSyncWriteComplete c ENGINE_SYNC_WRITE_AMBIGUOUS vb2
                             | None \<Rightarrow> vb2)
                  in Inr (ENGINE_SUCCESS, vb3))))"

section \<open>The mutation paths\<close>

text \<open>\<^verbatim>\<open>VBucket::processSet\<close>. The stored value \<open>v\<close> is the one found at the item's key
  (\<^verbatim>\<open>StoredValue*&\<close>, possibly null); the item is passed by reference and gets its revSeqno
  set. The result is the status, the optional notification context, and the stored value,
  item and vBucket as the call leaves them. The check that the bucket lock is held has
  no counterpart: the lock is always held here. The branch for an existing value is
  \<open>processSet_existing\<close>.\<close>

definition processSet_existing ::
  "Env \<Rightarrow> VBucket \<Rightarrow> StoredValue \<Rightarrow> Item \<Rightarrow> 64 word \<Rightarrow> bool \<Rightarrow> bool \<Rightarrow> VBQueueItemCtx \<Rightarrow>
     exn + (MutationStatus \<times> VBNotifyCtx option \<times> StoredValue option \<times> Item \<times> VBucket)" where
  "processSet_existing env vb v itm cas allowExisting hasMetaData queueItmCtx =
     (if \<not> allowExisting \<and> \<not> sv_isTempItem v \<and> \<not> sv_deleted v
      then Inr (InvalidCas, None, Some v, itm, vb)
      else if sv_isLocked v (env_current_time env) \<and> cas \<noteq> sv_cas v
      then Inr (IsLocked, None, Some v, itm, vb)
      else if \<not> sv_isLocked v (env_current_time env) \<and> cas \<noteq> 0 \<and> cas \<noteq> sv_cas v
      then (if sv_isTempNonExistentItem v then Inr (NotFound, None, Some v, itm, vb)
            else if (sv_isTempDeletedItem v \<or> sv_deleted v) \<and> \<not> it_deleted itm
            then Inr (NotFound, None, Some v, itm, vb)
            else Inr (InvalidCas, None, Some v, itm, vb))
      else
        let v1 = (if sv_isLocked v (env_current_time env) then sv_unlock v else v);
            vb1 = (if sv_isLocked v (env_current_time env) then ht_put v1 vb else vb);
            itm1 = (if \<not> hasMetaData then itm\<lparr>it_revSeqno := sv_revSeqno v1 + 1\<rparr> else itm)
        in if \<not> hasMetaData \<and> cas \<noteq> 0 \<and> (sv_deleted v1 \<or> sv_isTempDeletedItem v1) \<and>
              \<not> it_deleted itm1
           then Inr (NotFound, None, Some v1, itm1, vb1)
           else (case updateStoredValue env vb1 v1 itm1 queueItmCtx of
                   Inl e \<Rightarrow> Inl e
                 | Inr (v2, status, notifyCtx, vb2) \<Rightarrow>
                     Inr (status, Some notifyCtx, Some v2, itm1, vb2)))"

definition processSet ::
  "Env \<Rightarrow> VBucket \<Rightarrow> StoredValue option \<Rightarrow> Item \<Rightarrow> 64 word \<Rightarrow> bool \<Rightarrow> bool \<Rightarrow>
     VBQueueItemCtx \<Rightarrow> StoreIfStatus \<Rightarrow> bool \<Rightarrow>
     exn + (MutationStatus \<times> VBNotifyCtx option \<times> StoredValue option \<times> Item \<times> VBucket)" where
  "processSet env vb v itm cas allowExisting hasMetaData queueItmCtx storeIfStatus
       maybeKeyExists =
     (if \<not> hasMemoryForStoredValue env vb itm UseActiveVBMemThreshold_No
      then Inr (NoMem, None, v, itm, vb)
      else if v = None \<and> it_deleted itm \<and> cas \<noteq> 0 \<and> \<not> env_areDeletedItemsAlwaysResident env
      then Inr (NeedBgFetch, Some default_VBNotifyCtx, v, itm, vb)
      else if vb_eviction vb = Eviction_Full \<and> maybeKeyExists \<and>
              (cas \<noteq> 0 \<or> storeIfStatus = StoreIf_GetItemInfo) \<and>
              (case v of None \<Rightarrow> True | Some sv \<Rightarrow> sv_isTempInitialItem sv)
      then Inr (NeedBgFetch, None, v, itm, vb)
      else
        case v of
          None \<Rightarrow>
            (if cas \<noteq> 0 then Inr (NotFound, None, None, itm, vb)
             else
               let genRevSeqno = (if hasMetaData then GenerateRevSeqno_No
                                  else GenerateRevSeqno_Yes)
               in case addNewStoredValue env vb itm queueItmCtx genRevSeqno of
                    Inl e \<Rightarrow> Inl e
                  | Inr (v1, notifyCtx, vb1) \<Rightarrow>
                      Inr (WasClean, Some notifyCtx, Some v1,
                           itm\<lparr>it_revSeqno := sv_revSeqno v1\<rparr>, vb1))
        | Some sv \<Rightarrow>
            (if sv_isExpired sv (env_real_time env) \<and> \<not> hasMetaData \<and> \<not> it_deleted itm
             then
               let sv1 = (if sv_isLocked sv (env_current_time env) then sv_unlock sv else sv);
                   vb1 = (if sv_isLocked sv (env_current_time env) then ht_put sv1 vb else vb)
               in if cas \<noteq> 0 then Inr (NotFound, None, Some sv1, itm, vb1)
                  else processSet_existing env vb1 sv1 itm cas allowExisting hasMetaData
                         queueItmCtx
             else processSet_existing env vb sv itm cas allowExisting hasMetaData
                    queueItmCtx))"

text \<open>\<^verbatim>\<open>VBucket::addTempStoredValue\<close>: a temp-initial marker is put in the hash table only,
  never in the checkpoint.\<close>

definition temp_init_item :: "string \<Rightarrow> Item" where
  "temp_init_item k =
     \<lparr>it_key = k, it_value = None, it_xattr = False, it_flags = 0, it_exptime = 0,
      it_cas = 0, it_bySeqno = state_temp_init, it_revSeqno = 0, it_deleted = False,
      it_op = Queue_mutation, it_durability = no_requirements, it_prepareSeqno = 0\<rparr>"

definition addTempStoredValue :: "Env \<Rightarrow> VBucket \<Rightarrow> string \<Rightarrow> TempAddStatus \<times> VBucket" where
  "addTempStoredValue env vb k =
     (let itm = temp_init_item k
      in if \<not> hasMemoryForStoredValue env vb itm UseActiveVBMemThreshold_No
         then (TempAdd_NoMem, vb)
         else
           let v = updateRevSeqNoOfNewStoredValue vb (sv_of_item itm);
               v1 = v\<lparr>sv_nru := MAX_NRU_VALUE\<rparr>
           in (TempAdd_BgFetch, ht_put v1 vb))"

text \<open>Modelled from the spec: the virtual \<^verbatim>\<open>bgFetch\<close> and \<^verbatim>\<open>addTempItemAndBGFetch\<close> (outside
  the sources at hand). A background fetch is queued for the key and the caller's cookie;
  the operation that needs it returns \<^verbatim>\<open>Ewouldblock\<close>. When the key has no entry yet a temp
  marker is added first, which can fail for lack of memory.\<close>

definition bgFetch :: "string \<Rightarrow> nat option \<Rightarrow> VBucket \<Rightarrow> VBucket" where
  "bgFetch k cookie vb = vb\<lparr>vb_bgFetch := vb_bgFetch vb @ [(k, cookie)]\<rparr>"

definition addTempItemAndBGFetch ::
  "Env \<Rightarrow> VBucket \<Rightarrow> string \<Rightarrow> nat option \<Rightarrow> ENGINE_ERROR_CODE \<times> VBucket" where
  "addTempItemAndBGFetch env vb k cookie =
     (case addTempStoredValue env vb k of
        (TempAdd_NoMem, vb1) \<Rightarrow> (ENGINE_ENOMEM, vb1)
      | (TempAdd_BgFetch, vb1) \<Rightarrow> (ENGINE_EWOULDBLOCK, bgFetch k cookie vb1))"

text \<open>\<^verbatim>\<open>VBucket::callPredicate\<close>. Modelled from the spec: the item info handed to the
  predicate is that of the stored value, present when the value is resident.\<close>

definition sv_getItemInfo :: "StoredValue \<Rightarrow> StoredValue option" where
  "sv_getItemInfo v = (if sv_resident v then Some v else None)"

definition callPredicate ::
  "VBucket \<Rightarrow> (StoredValue option \<Rightarrow> StoreIfStatus) \<Rightarrow> StoredValue option \<Rightarrow> exn + StoreIfStatus"
  where
  "callPredicate vb predicate v =
     (case (case v of
              Some sv \<Rightarrow>
                (let info = sv_getItemInfo sv; st = predicate info
                 in if st = StoreIf_GetItemInfo \<and> info \<noteq> None then Inl Logic_error
                    else Inr st)
            | None \<Rightarrow> Inr (predicate None)) of
        Inl e \<Rightarrow> Inl e
      | Inr st \<Rightarrow>
          (if st = StoreIf_GetItemInfo \<and> vb_eviction vb = Eviction_Value
           then Inr StoreIf_Continue else Inr st))"

text \<open>\<^verbatim>\<open>VBucket::processAdd\<close>.\<close>

definition processAdd ::
  "Env \<Rightarrow> VBucket \<Rightarrow> StoredValue option \<Rightarrow> Item \<Rightarrow> bool \<Rightarrow> VBQueueItemCtx \<Rightarrow>
     exn + (AddStatus \<times> VBNotifyCtx option \<times> StoredValue option \<times> Item \<times> VBucket)" where
  "processAdd env vb v itm maybeKeyExists queueItmCtx =
     (if (case v of
            Some sv \<Rightarrow> \<not> sv_deleted sv \<and> \<not> sv_isExpired sv (env_real_time env) \<and>
                       \<not> sv_isTempItem sv \<and> \<not> env_isLogicallyDeleted env (sv_bySeqno sv)
          | None \<Rightarrow> False)
      then Inr (Add_Exists, None, v, itm, vb)
      else if \<not> hasMemoryForStoredValue env vb itm UseActiveVBMemThreshold_No
      then Inr (Add_NoMem, None, v, itm, vb)
      else
        case v of
          Some sv \<Rightarrow>
            (if sv_isTempInitialItem sv \<and> vb_eviction vb = Eviction_Full \<and> maybeKeyExists
             then Inr (Add_BgFetch, None, v, itm, vb)
             else
               let rv = (if sv_deleted sv \<or> sv_isExpired sv (env_real_time env)
                         then Add_UnDel else Add_Success);
                   itm1 = (if sv_isTempDeletedItem sv
                           then itm\<lparr>it_revSeqno := sv_revSeqno sv + 1\<rparr>
                           else itm\<lparr>it_revSeqno := vb_maxDeletedRevSeqno vb + 1\<rparr>);
                   itm2 = (if \<not> sv_isTempItem sv
                           then itm1\<lparr>it_revSeqno := sv_revSeqno sv + 1\<rparr> else itm1)
               in case updateStoredValue env vb sv itm2 queueItmCtx of
                    Inl e \<Rightarrow> Inl e
                  | Inr (v1, status, notifyCtx, vb1) \<Rightarrow>
                      (if sv_isTempItem v1
                       then (let v2 = v1\<lparr>sv_nru := MAX_NRU_VALUE\<rparr>
                             in Inr (rv, Some notifyCtx, Some v2, itm2, ht_put v2 vb1))
                       else Inr (rv, Some notifyCtx, Some v1, itm2, vb1)))
        | None \<Rightarrow>
            (if it_bySeqno itm \<noteq> state_temp_init \<and> vb_eviction vb = Eviction_Full \<and>
                maybeKeyExists
             then Inr (Add_AddTmpAndBgFetch, Some default_VBNotifyCtx, None, itm, vb)
             else
               case (if it_bySeqno itm = state_temp_init
                     then (let v1 = updateRevSeqNoOfNewStoredValue vb (sv_of_item itm)
                           in Inr (v1, default_VBNotifyCtx, ht_put v1 vb))
                     else addNewStoredValue env vb itm queueItmCtx GenerateRevSeqno_Yes) of
                 Inl e \<Rightarrow> Inl e
               | Inr (v1, notifyCtx, vb1) \<Rightarrow>
                   (let itm1 = itm\<lparr>it_revSeqno := sv_revSeqno v1\<rparr>;
                        rv = (if sv_isTempItem v1 then Add_BgFetch else Add_Success)
                    in if sv_isTempItem v1
                       then (let v2 = v1\<lparr>sv_nru := MAX_NRU_VALUE\<rparr>
                             in Inr (rv, Some notifyCtx, Some v2, itm1, ht_put v2 vb1))
                       else Inr (rv, Some notifyCtx, Some v1, itm1, vb1))))"

text \<open>\<^verbatim>\<open>VBucket::processSoftDelete\<close>. The metadata argument carries the CAS, flags, expiry
  and revSeqno to use. The deletion source (explicit or TTL) is only handed on to the
  bucket type and is left out.\<close>

record ItemMetaData =
  meta_cas :: "64 word"
  meta_revSeqno :: "64 word"
  meta_flags :: "32 word"
  meta_exptime :: nat

definition processSoftDelete ::
  "Env \<Rightarrow> VBucket \<Rightarrow> StoredValue \<Rightarrow> 64 word \<Rightarrow> ItemMetaData \<Rightarrow> VBQueueItemCtx \<Rightarrow> bool \<Rightarrow> int \<Rightarrow>
     exn + (MutationStatus \<times> StoredValue \<times> VBNotifyCtx option \<times> VBucket)" where
  "processSoftDelete env vb v cas metadata queueItmCtx use_meta bySeqno =
     (if sv_isTempInitialItem v \<and> vb_eviction vb = Eviction_Full
      then Inr (NeedBgFetch, v, None, vb)
      else if sv_isLocked v (env_current_time env) \<and> cas \<noteq> sv_cas v
      then Inr (IsLocked, v, None, vb)
      else
        let v1 = (if sv_isLocked v (env_current_time env) then sv_unlock v else v);
            vb1 = (if sv_isLocked v (env_current_time env) then ht_put v1 vb else vb)
        in if cas \<noteq> 0 \<and> cas \<noteq> sv_cas v1 then Inr (InvalidCas, v1, None, vb1)
           else
             let v2 = sv_unlock v1;
                 rv = (if sv_dirty v2 then WasDirty else WasClean);
                 v3 = (if use_meta
                       then v2\<lparr>sv_cas := meta_cas metadata, sv_flags := meta_flags metadata,
                                sv_exptime := meta_exptime metadata\<rparr>
                       else v2);
                 v4 = v3\<lparr>sv_revSeqno := meta_revSeqno metadata\<rparr>
             in case softDeleteStoredValue env (ht_put v4 vb1) v4 False queueItmCtx bySeqno of
                  Inl e \<Rightarrow> Inl e
                | Inr (newSv, Deletion_Success, notifyCtx, vb2) \<Rightarrow>
                    Inr (rv, newSv, Some notifyCtx,
                         updateMaxDeletedRevSeqno (meta_revSeqno metadata) vb2)
                | Inr (newSv, Deletion_IsPendingSyncWrite, notifyCtx, vb2) \<Rightarrow>
                    Inr (IsPendingSyncWrite, v4, None, vb2))"

text \<open>\<^verbatim>\<open>VBucket::processExpiredItem\<close>.\<close>

definition processExpiredItem ::
  "Env \<Rightarrow> VBucket \<Rightarrow> StoredValue \<Rightarrow>
     exn + (MutationStatus \<times> StoredValue \<times> VBNotifyCtx option \<times> VBucket)" where
  "processExpiredItem env vb v =
     (if sv_isTempInitialItem v \<and> vb_eviction vb = Eviction_Full
      then (case queueDirty env vb v default_VBQueueItemCtx of
              Inl e \<Rightarrow> Inl e
            | Inr (notifyCtx, v1, vb1) \<Rightarrow> Inr (NeedBgFetch, v1, Some notifyCtx, vb1))
      else
        let onlyMarkDeleted = (sv_value v \<noteq> None \<and> sv_xattr v);
            v1 = v\<lparr>sv_revSeqno := sv_revSeqno v + 1\<rparr>
        in case softDeleteStoredValue env (ht_put v1 vb) v1 onlyMarkDeleted
                  default_VBQueueItemCtx (sv_bySeqno v1) of
             Inl e \<Rightarrow> Inl e
           | Inr (newSv, Deletion_Success, notifyCtx, vb2) \<Rightarrow>
               Inr (NotFound, newSv, Some notifyCtx,
                    updateMaxDeletedRevSeqno (sv_revSeqno newSv + 1) vb2)
           | Inr (newSv, Deletion_IsPendingSyncWrite, notifyCtx, vb2) \<Rightarrow>
               Inr (IsPendingSyncWrite, newSv, Some default_VBNotifyCtx, vb2))"

text \<open>\<^verbatim>\<open>VBucket::isLogicallyNonExistent\<close>.\<close>

definition isLogicallyNonExistent :: "Env \<Rightarrow> StoredValue \<Rightarrow> bool" where
  "isLogicallyNonExistent env v =
     (sv_deleted v \<or> sv_isTempDeletedItem v \<or> sv_isTempNonExistentItem v \<or>
      env_isLogicallyDeleted env (sv_bySeqno v))"

section \<open>Front-end operations\<close>

text \<open>The durability guard that opens \<^verbatim>\<open>set\<close>, \<^verbatim>\<open>add\<close>, \<^verbatim>\<open>replace\<close> and \<^verbatim>\<open>deleteItem\<close>:
  \<^verbatim>\<open>getActiveDM().isDurabilityPossible()\<close>, evaluated only when the write is durable.\<close>

definition activeDM_isDurabilityPossible :: "VBucket \<Rightarrow> exn + bool" where
  "activeDM_isDurabilityPossible vb =
     (case getActiveDM vb of
        Inl e \<Rightarrow> Inl e
      | Inr (chs, tracked) \<Rightarrow> Inr (isDurabilityPossible chs))"

text \<open>The unlock that \<^verbatim>\<open>set\<close>, \<^verbatim>\<open>setWithMeta\<close>, \<^verbatim>\<open>deleteItem\<close> and \<^verbatim>\<open>deleteWithMeta\<close> apply to
  a locked value on a replica or pending vBucket.\<close>

definition unlock_if_not_active :: "Env \<Rightarrow> VBucket \<Rightarrow> StoredValue \<Rightarrow> StoredValue \<times> VBucket" where
  "unlock_if_not_active env vb v =
     (if sv_isLocked v (env_current_time env) \<and>
         (vb_state vb = vbucket_state_replica \<or> vb_state vb = vbucket_state_pending)
      then (sv_unlock v, ht_put (sv_unlock v) vb)
      else (v, vb))"

text \<open>The tail of \<^verbatim>\<open>set\<close> and \<^verbatim>\<open>replace\<close> for the statuses \<^verbatim>\<open>WasDirty\<close> and \<^verbatim>\<open>WasClean\<close>: the
  notification context and the stored value are dereferenced, the new seqno is notified,
  and the item takes the stored value's seqno and CAS.\<close>

definition finish_mutation ::
  "ENGINE_ERROR_CODE \<Rightarrow> VBNotifyCtx option \<Rightarrow> StoredValue option \<Rightarrow> Item \<Rightarrow> VBucket \<Rightarrow>
     exn + (ENGINE_ERROR_CODE \<times> Item \<times> VBucket)" where
  "finish_mutation ret notifyCtx v itm vb =
     (case (notifyCtx, v) of
        (Some n, Some sv) \<Rightarrow>
          Inr (ret, itm\<lparr>it_bySeqno := sv_bySeqno sv, it_cas := sv_cas sv\<rparr>,
               doCollectionsStats n (notifyNewSeqno n vb))
      | _ \<Rightarrow> Inl Undefined_behaviour)"

text \<open>The durability context \<^verbatim>\<open>set\<close>, \<^verbatim>\<open>add\<close> and \<^verbatim>\<open>replace\<close> build for the item: the default
  context, with the item's requirements and the cookie when the item is a durable
  prepare.\<close>

definition item_queue_ctx :: "Item \<Rightarrow> nat option \<Rightarrow> VBQueueItemCtx" where
  "item_queue_ctx itm cookie =
     (if it_isPending itm
      then default_VBQueueItemCtx
             \<lparr>ctx_durability :=
                Some \<lparr>dur_requirements = it_durability itm, dur_cookie = cookie\<rparr>\<rparr>
      else default_VBQueueItemCtx)"

text \<open>The \<^verbatim>\<open>switch (status)\<close> that ends \<^verbatim>\<open>VBucket::set\<close>. A \<^verbatim>\<open>NotFound\<close> without a CAS
  falls through to the success case.\<close>

definition set_switch ::
  "Env \<Rightarrow> nat option \<Rightarrow> bool \<Rightarrow> MutationStatus \<Rightarrow> VBNotifyCtx option \<Rightarrow> StoredValue option \<Rightarrow>
     Item \<Rightarrow> VBucket \<Rightarrow> exn + (ENGINE_ERROR_CODE \<times> Item \<times> VBucket)" where
  "set_switch env cookie cas_op status notifyCtx v itm vb =
     (let ret = (if it_isPending itm then ENGINE_EWOULDBLOCK else ENGINE_SUCCESS)
      in case status of
           NoMem \<Rightarrow> Inr (ENGINE_ENOMEM, itm, vb)
         | InvalidCas \<Rightarrow> Inr (ENGINE_KEY_EEXISTS, itm, vb)
         | IsLocked \<Rightarrow> Inr (ENGINE_LOCKED, itm, vb)
         | NotFound \<Rightarrow>
             (if cas_op then Inr (ENGINE_KEY_ENOENT, itm, vb)
              else finish_mutation ret notifyCtx v itm vb)
         | WasDirty \<Rightarrow> finish_mutation ret notifyCtx v itm vb
         | WasClean \<Rightarrow> finish_mutation ret notifyCtx v itm vb
         | NeedBgFetch \<Rightarrow>
             (case v of
                Some sv \<Rightarrow> Inr (ENGINE_EWOULDBLOCK, itm, bgFetch (it_key itm) cookie vb)
              | None \<Rightarrow>
                  (case addTempItemAndBGFetch env vb (it_key itm) cookie of
                     (r, vb1) \<Rightarrow> Inr (r, itm, vb1)))
         | IsPendingSyncWrite \<Rightarrow> Inr (ENGINE_SYNC_WRITE_IN_PROGRESS, itm, vb))"

text \<open>The part of \<^verbatim>\<open>VBucket::set\<close> after the durability guard and the predicate: the
  unlock on a replica or pending vBucket, the Bloom filter's prediction, \<^verbatim>\<open>processSet\<close>
  and the switch on its status.\<close>

definition set_apply ::
  "Env \<Rightarrow> VBucket \<Rightarrow> Item \<Rightarrow> nat option \<Rightarrow> StoreIfStatus \<Rightarrow>
     exn + (ENGINE_ERROR_CODE \<times> Item \<times> VBucket)" where
  "set_apply env vb itm cookie storeIfStatus =
     (let cas_op = (it_cas itm \<noteq> 0);
          (v, vb1) = (case findForWrite vb (it_key itm) of
                        Some sv \<Rightarrow>
                          (case unlock_if_not_active env vb sv of
                             (sv1, vb') \<Rightarrow> (Some sv1, vb'))
                      | None \<Rightarrow> (None, vb));
          maybeKeyExists =
            (if (case v of None \<Rightarrow> True | Some sv \<Rightarrow> sv_isTempInitialItem sv) \<and>
                vb_eviction vb1 = Eviction_Full \<and>
                (it_cas itm \<noteq> 0 \<or> storeIfStatus = StoreIf_GetItemInfo) \<and>
                \<not> maybeKeyExistsInFilter env (it_key itm)
             then False else True)
      in case processSet env vb1 v itm (it_cas itm) True False (item_queue_ctx itm cookie)
                storeIfStatus maybeKeyExists of
           Inl e \<Rightarrow> Inl e
         | Inr (status, notifyCtx, v2, itm2, vb2) \<Rightarrow>
             set_switch env cookie cas_op status notifyCtx v2 itm2 vb2)"

text \<open>The predicate step of \<^verbatim>\<open>set\<close> and \<^verbatim>\<open>replace\<close>: without a predicate the status is
  \<^verbatim>\<open>Continue\<close>.\<close>

definition store_if ::
  "VBucket \<Rightarrow> (StoredValue option \<Rightarrow> StoreIfStatus) option \<Rightarrow> StoredValue option \<Rightarrow>
     exn + StoreIfStatus" where
  "store_if vb predicate v =
     (case predicate of Some p \<Rightarrow> callPredicate vb p v | None \<Rightarrow> Inr StoreIf_Continue)"

text \<open>\<^verbatim>\<open>VBucket::set\<close>. The result is the code returned with the item and the vBucket as the
  call leaves them.\<close>

definition set_item ::
  "Env \<Rightarrow> VBucket \<Rightarrow> Item \<Rightarrow> nat option \<Rightarrow> (StoredValue option \<Rightarrow> StoreIfStatus) option \<Rightarrow>
     exn + (ENGINE_ERROR_CODE \<times> Item \<times> VBucket)" where
  "set_item env vb itm cookie predicate =
     (case (if it_isPending itm then activeDM_isDurabilityPossible vb else Inr True) of
        Inl e \<Rightarrow> Inl e
      | Inr False \<Rightarrow> Inr (ENGINE_DURABILITY_IMPOSSIBLE, itm, vb)
      | Inr True \<Rightarrow>
          (case store_if vb predicate (findForWrite vb (it_key itm)) of
             Inl e \<Rightarrow> Inl e
           | Inr storeIfStatus \<Rightarrow>
               (if predicate \<noteq> None \<and> storeIfStatus = StoreIf_Fail
                then Inr (ENGINE_PREDICATE_FAILED, itm, vb)
                else set_apply env vb itm cookie storeIfStatus)))"

text \<open>Modelled from the spec: \<^verbatim>\<open>HashTable::cleanupIfTemporaryItem\<close> discards a temp marker
  (the hash table is outside the sources at hand).\<close>

definition cleanupIfTemporaryItem :: "StoredValue \<Rightarrow> VBucket \<Rightarrow> VBucket" where
  "cleanupIfTemporaryItem v vb = (if sv_isTempItem v then ht_del (sv_key v) vb else vb)"

text \<open>The \<^verbatim>\<open>switch (mtype)\<close> that ends \<^verbatim>\<open>VBucket::replace\<close> for an existing value.\<close>

definition replace_switch ::
  "nat option \<Rightarrow> MutationStatus \<Rightarrow> VBNotifyCtx option \<Rightarrow> StoredValue option \<Rightarrow> Item \<Rightarrow> VBucket \<Rightarrow>
     exn + (ENGINE_ERROR_CODE \<times> Item \<times> VBucket)" where
  "replace_switch cookie mtype notifyCtx v itm vb =
     (let ret = (if it_isPending itm then ENGINE_EWOULDBLOCK else ENGINE_SUCCESS)
      in case mtype of
           NoMem \<Rightarrow> Inr (ENGINE_ENOMEM, itm, vb)
         | IsLocked \<Rightarrow> Inr (ENGINE_LOCKED, itm, vb)
         | InvalidCas \<Rightarrow> Inr (ENGINE_NOT_STORED, itm, vb)
         | NotFound \<Rightarrow> Inr (ENGINE_NOT_STORED, itm, vb)
         | WasDirty \<Rightarrow> finish_mutation ret notifyCtx v itm vb
         | WasClean \<Rightarrow> finish_mutation ret notifyCtx v itm vb
         | NeedBgFetch \<Rightarrow> Inr (ENGINE_EWOULDBLOCK, itm, bgFetch (it_key itm) cookie vb)
         | IsPendingSyncWrite \<Rightarrow> Inr (ENGINE_SYNC_WRITE_IN_PROGRESS, itm, vb))"

text \<open>The part of \<^verbatim>\<open>VBucket::replace\<close> after the durability guard and the predicate.\<close>

definition replace_apply ::
  "Env \<Rightarrow> VBucket \<Rightarrow> Item \<Rightarrow> nat option \<Rightarrow> StoreIfStatus \<Rightarrow>
     exn + (ENGINE_ERROR_CODE \<times> Item \<times> VBucket)" where
  "replace_apply env vb itm cookie storeIfStatus =
     (case findForWrite vb (it_key itm) of
        Some v \<Rightarrow>
          (if isLogicallyNonExistent env v
           then Inr (ENGINE_KEY_ENOENT, itm, cleanupIfTemporaryItem v vb)
           else
             case (if vb_eviction vb = Eviction_Full \<and> sv_isTempInitialItem v
                   then Inr (NeedBgFetch, None, Some v, itm, vb)
                   else processSet env vb (Some v) itm 0 True False
                          (item_queue_ctx itm cookie) storeIfStatus True) of
               Inl e \<Rightarrow> Inl e
             | Inr (mtype, notifyCtx, v2, itm2, vb2) \<Rightarrow>
                 replace_switch cookie mtype notifyCtx v2 itm2 vb2)
      | None \<Rightarrow>
          (if vb_eviction vb = Eviction_Value then Inr (ENGINE_KEY_ENOENT, itm, vb)
           else if maybeKeyExistsInFilter env (it_key itm)
           then (case addTempItemAndBGFetch env vb (it_key itm) cookie of
                   (r, vb1) \<Rightarrow> Inr (r, itm, vb1))
           else Inr (ENGINE_KEY_ENOENT, itm, vb)))"

text \<open>\<^verbatim>\<open>VBucket::replace\<close>.\<close>

definition replace_item ::
  "Env \<Rightarrow> VBucket \<Rightarrow> Item \<Rightarrow> nat option \<Rightarrow> (StoredValue option \<Rightarrow> StoreIfStatus) option \<Rightarrow>
     exn + (ENGINE_ERROR_CODE \<times> Item \<times> VBucket)" where
  "replace_item env vb itm cookie predicate =
     (case (if it_isPending itm then activeDM_isDurabilityPossible vb else Inr True) of
        Inl e \<Rightarrow> Inl e
      | Inr False \<Rightarrow> Inr (ENGINE_DURABILITY_IMPOSSIBLE, itm, vb)
      | Inr True \<Rightarrow>
          (case store_if vb predicate (findForWrite vb (it_key itm)) of
             Inl e \<Rightarrow> Inl e
           | Inr storeIfStatus \<Rightarrow>
               (if predicate \<noteq> None \<and> storeIfStatus = StoreIf_Fail
                then Inr (ENGINE_PREDICATE_FAILED, itm, vb)
                else replace_apply env vb itm cookie storeIfStatus)))"

text \<open>The \<^verbatim>\<open>switch (status)\<close> of \<^verbatim>\<open>VBucket::add\<close> with the return that follows it.\<close>

definition add_switch ::
  "Env \<Rightarrow> nat option \<Rightarrow> AddStatus \<Rightarrow> VBNotifyCtx option \<Rightarrow> StoredValue option \<Rightarrow> Item \<Rightarrow> VBucket \<Rightarrow>
     exn + (ENGINE_ERROR_CODE \<times> Item \<times> VBucket)" where
  "add_switch env cookie status notifyCtx v itm vb =
     (case status of
        Add_NoMem \<Rightarrow> Inr (ENGINE_ENOMEM, itm, vb)
      | Add_Exists \<Rightarrow> Inr (ENGINE_NOT_STORED, itm, vb)
      | Add_AddTmpAndBgFetch \<Rightarrow>
          (case addTempItemAndBGFetch env vb (it_key itm) cookie of
             (r, vb1) \<Rightarrow> Inr (r, itm, vb1))
      | Add_BgFetch \<Rightarrow> Inr (ENGINE_EWOULDBLOCK, itm, bgFetch (it_key itm) cookie vb)
      | Add_Success \<Rightarrow>
          finish_mutation (if it_isPending itm then ENGINE_EWOULDBLOCK else ENGINE_SUCCESS)
            notifyCtx v itm vb
      | Add_UnDel \<Rightarrow>
          finish_mutation (if it_isPending itm then ENGINE_EWOULDBLOCK else ENGINE_SUCCESS)
            notifyCtx v itm vb)"

text \<open>\<^verbatim>\<open>VBucket::add\<close>.\<close>

definition add_item ::
  "Env \<Rightarrow> VBucket \<Rightarrow> Item \<Rightarrow> nat option \<Rightarrow> exn + (ENGINE_ERROR_CODE \<times> Item \<times> VBucket)" where
  "add_item env vb itm cookie =
     (case (if it_isPending itm then activeDM_isDurabilityPossible vb else Inr True) of
        Inl e \<Rightarrow> Inl e
      | Inr False \<Rightarrow> Inr (ENGINE_DURABILITY_IMPOSSIBLE, itm, vb)
      | Inr True \<Rightarrow>
          (let v = findForWrite vb (it_key itm);
               maybeKeyExists =
                 (if (case v of None \<Rightarrow> True | Some sv \<Rightarrow> sv_isTempInitialItem sv) \<and>
                     vb_eviction vb = Eviction_Full \<and>
                     \<not> maybeKeyExistsInFilter env (it_key itm)
                  then False else True)
           in case processAdd env vb v itm maybeKeyExists (item_queue_ctx itm cookie) of
                Inl e \<Rightarrow> Inl e
              | Inr (status, notifyCtx, v2, itm2, vb2) \<Rightarrow>
                  add_switch env cookie status notifyCtx v2 itm2 vb2))"

text \<open>\<^verbatim>\<open>VBucket::deleteStoredValue\<close>.\<close>

definition deleteStoredValue :: "Env \<Rightarrow> StoredValue \<Rightarrow> VBucket \<Rightarrow> bool \<times> VBucket" where
  "deleteStoredValue env v vb =
     (if \<not> sv_deleted v \<and> sv_isLocked v (env_current_time env) then (False, vb)
      else (True, ht_del (sv_key v) vb))"

text \<open>The \<^verbatim>\<open>switch (delrv)\<close> that ends \<^verbatim>\<open>VBucket::deleteItem\<close>. A \<^verbatim>\<open>NotFound\<close> sets the code
  and falls through to the success case, which notifies the new seqno and hands back
  the stored value's CAS.\<close>

definition delete_switch ::
  "bool \<Rightarrow> 64 word \<Rightarrow> MutationStatus \<Rightarrow> StoredValue \<Rightarrow> VBNotifyCtx option \<Rightarrow> VBucket \<Rightarrow>
     exn + (ENGINE_ERROR_CODE \<times> 64 word \<times> VBucket)" where
  "delete_switch durable cas delrv v notifyCtx vb =
     (let ret = (if durable then ENGINE_EWOULDBLOCK else ENGINE_SUCCESS);
          notified = (\<lambda>code. case notifyCtx of
                               None \<Rightarrow> Inl Undefined_behaviour
                             | Some n \<Rightarrow>
                                 Inr (code, sv_cas v,
                                      doCollectionsStats n (notifyNewSeqno n vb)))
      in case delrv of
           NoMem \<Rightarrow> Inr (ENGINE_ENOMEM, cas, vb)
         | InvalidCas \<Rightarrow> Inr (ENGINE_KEY_EEXISTS, cas, vb)
         | IsLocked \<Rightarrow> Inr (ENGINE_LOCKED_TMPFAIL, cas, vb)
         | NotFound \<Rightarrow> notified ENGINE_KEY_ENOENT
         | WasClean \<Rightarrow> notified ret
         | WasDirty \<Rightarrow> notified ret
         | NeedBgFetch \<Rightarrow> Inl Logic_error
         | IsPendingSyncWrite \<Rightarrow> Inr (ENGINE_SYNC_WRITE_IN_PROGRESS, cas, vb))"

text \<open>The part of \<^verbatim>\<open>VBucket::deleteItem\<close> for a value that is present and live: the unlock
  on a replica or pending vBucket, then the expiry or the soft delete, then the switch.\<close>

definition delete_apply ::
  "Env \<Rightarrow> VBucket \<Rightarrow> StoredValue \<Rightarrow> 64 word \<Rightarrow> nat option \<Rightarrow> Requirements option \<Rightarrow>
     exn + (ENGINE_ERROR_CODE \<times> 64 word \<times> VBucket)" where
  "delete_apply env vb v0 cas cookie durability =
     (case unlock_if_not_active env vb v0 of
        (v, vb1) \<Rightarrow>
          (case (if sv_isExpired v (env_real_time env)
                 then processExpiredItem env vb1 v
                 else
                   processSoftDelete env vb1 v cas
                     \<lparr>meta_cas = 0, meta_revSeqno = sv_revSeqno v + 1,
                      meta_flags = 0, meta_exptime = 0\<rparr>
                     (case durability of
                        Some d \<Rightarrow>
                          default_VBQueueItemCtx
                            \<lparr>ctx_durability :=
                               Some \<lparr>dur_requirements = d, dur_cookie = cookie\<rparr>\<rparr>
                      | None \<Rightarrow> default_VBQueueItemCtx)
                     False (sv_bySeqno v)) of
             Inl e \<Rightarrow> Inl e
           | Inr (delrv, v2, notifyCtx, vb2) \<Rightarrow>
               delete_switch (durability \<noteq> None) cas delrv v2 notifyCtx vb2))"

text \<open>\<^verbatim>\<open>VBucket::deleteItem\<close>, for the key \<open>k\<close> of the collection handle. The CAS is passed
  by reference and returned; the item metadata and mutation information written for the
  caller are outputs only and are left out.\<close>

definition deleteItem ::
  "Env \<Rightarrow> VBucket \<Rightarrow> string \<Rightarrow> 64 word \<Rightarrow> nat option \<Rightarrow> Requirements option \<Rightarrow>
     exn + (ENGINE_ERROR_CODE \<times> 64 word \<times> VBucket)" where
  "deleteItem env vb k cas cookie durability =
     (case (case durability of
              Some d \<Rightarrow> (if req_isValid d then activeDM_isDurabilityPossible vb else Inr True)
            | None \<Rightarrow> Inr True) of
        Inl e \<Rightarrow> Inl e
      | Inr False \<Rightarrow> Inr (ENGINE_DURABILITY_IMPOSSIBLE, cas, vb)
      | Inr True \<Rightarrow>
          (case findForWrite vb k of
             None \<Rightarrow>
               (if vb_eviction vb = Eviction_Value then Inr (ENGINE_KEY_ENOENT, cas, vb)
                else if maybeKeyExistsInFilter env k
                then (case addTempItemAndBGFetch env vb k cookie of
                        (r, vb1) \<Rightarrow> Inr (r, cas, vb1))
                else Inr (ENGINE_KEY_ENOENT, cas, vb))
           | Some v0 \<Rightarrow>
               (if sv_deleted v0 \<or> sv_isTempItem v0 \<or>
                   env_isLogicallyDeleted env (sv_bySeqno v0)
                then
                  (if vb_eviction vb = Eviction_Value then Inr (ENGINE_KEY_ENOENT, cas, vb)
                   else if sv_isTempInitialItem v0
                   then Inr (ENGINE_EWOULDBLOCK, cas, bgFetch k cookie vb)
                   else if sv_isTempNonExistentItem v0 \<or> sv_isTempDeletedItem v0
                   then Inr (ENGINE_KEY_ENOENT, cas, snd (deleteStoredValue env v0 vb))
                   else Inr (ENGINE_KEY_ENOENT, cas, vb))
                else delete_apply env vb v0 cas cookie durability)))"

section \<open>Durability timeouts\<close>

text \<open>Modelled from the spec: \<^verbatim>\<open>ActiveDurabilityMonitor::processTimeout\<close> (outside the sources
  at hand). It walks the tracked prepares whose deadline is at or before \<open>asOf\<close>; the
  deadline of a prepare is its enqueue time plus its timeout, and a prepare with
  \<^verbatim>\<open>Timeout::Infinity\<close> has none. Each such prepare is removed from the tracked writes and
  aborted through \<^verbatim>\<open>VBucket::abort\<close> with its key, seqno and cookie; an abort that does not
  succeed is a logic error.\<close>

definition sw_isExpired :: "SyncWrite \<Rightarrow> nat \<Rightarrow> bool" where
  "sw_isExpired sw asOf =
     (case req_timeout (sw_reqs sw) of
        Timeout_Millis ms \<Rightarrow> sw_start sw + ms \<le> asOf
      | _ \<Rightarrow> False)"

fun abort_all :: "Env \<Rightarrow> SyncWrite list \<Rightarrow> VBucket \<Rightarrow> exn + VBucket" where
  "abort_all env [] vb = Inr vb"
| "abort_all env (sw # sws) vb =
     (case abort env vb (sw_key sw) (sw_seqno sw) None (sw_cookie sw) of
        Inl e \<Rightarrow> Inl e
      | Inr (r, vb1) \<Rightarrow>
          (if r \<noteq> ENGINE_SUCCESS then Inl Logic_error else abort_all env sws vb1))"

definition adm_processTimeout :: "Env \<Rightarrow> nat \<Rightarrow> VBucket \<Rightarrow> exn + VBucket" where
  "adm_processTimeout env asOf vb =
     (case getActiveDM vb of
        Inl e \<Rightarrow> Inl e
      | Inr (chs, tracked) \<Rightarrow>
          (let toAbort = filter (\<lambda>sw. sw_isExpired sw asOf) tracked;
               vb1 = vb\<lparr>vb_durabilityMonitor :=
                          ActiveDM chs (filter (\<lambda>sw. \<not> sw_isExpired sw asOf) tracked)\<rparr>
           in abort_all env toAbort vb1))"

text \<open>\<^verbatim>\<open>VBucket::processDurabilityTimeout\<close>.\<close>

definition processDurabilityTimeout :: "Env \<Rightarrow> nat \<Rightarrow> VBucket \<Rightarrow> exn + VBucket" where
  "processDurabilityTimeout env asOf vb =
     (if vb_state vb \<noteq> vbucket_state_active then Inr vb
      else adm_processTimeout env asOf vb)"

text \<open>A vBucket as the constructor leaves it when given no items and no topology:
  \<^verbatim>\<open>setupSyncReplication\<close> runs with a null topology and no previous state, so an active
  vBucket gets a fresh Active monitor and a replica or pending one a Passive monitor.\<close>

definition new_vbucket :: "vbucket_state_t \<Rightarrow> EvictionPolicy \<Rightarrow> VBucket" where
  "new_vbucket st ev =
     \<lparr>vb_state = st, vb_eviction = ev, vb_ht = Map.empty, vb_maxDeletedRevSeqno = 0,
      vb_checkpoint = [], vb_backfill = [], vb_lastBySeqno = 0, vb_openCheckpointId = 1,
      vb_maxCas = 0, vb_mightContainXattrs = False, vb_replicationTopology = Json_null,
      vb_durabilityMonitor =
        (if st = vbucket_state_active then ActiveDM [] [] else PassiveDM []),
      vb_syncWriteComplete = [], vb_newSeqno = [], vb_bgFetch = [],
      vb_collectionHighSeqno = 0, vb_collectionDiskCount = 0\<rparr>"

section \<open>Well-formed states and test fixtures\<close>

text \<open>The hash table maps a key to the stored value of that key.\<close>

definition ht_keys_consistent :: "VBucket \<Rightarrow> bool" where
  "ht_keys_consistent vb = (\<forall>k v. vb_ht vb k = Some v \<longrightarrow> sv_key v = k)"

text \<open>Every tracked prepare has its Pending stored value in the hash table, and no two
  tracked prepares are for the same key.\<close>

definition tracked_in_ht :: "VBucket \<Rightarrow> SyncWrite list \<Rightarrow> bool" where
  "tracked_in_ht vb tracked =
     (distinct (map sw_key tracked) \<and>
      list_all (\<lambda>sw. case vb_ht vb (sw_key sw) of
                        Some v \<Rightarrow> sv_committed v = Pending \<and> sv_key v = sw_key sw
                      | None \<Rightarrow> False) tracked)"

text \<open>The fixtures of the module tests (durability_monitor_test.cc): an environment with
  room for every item, the items made by \<^verbatim>\<open>makeCommittedItem\<close> and \<^verbatim>\<open>makePendingItem\<close>, and
  the durability requirements the tests use.\<close>

definition test_env :: Env where
  "test_env =
     \<lparr>env_current_time = 100, env_real_time = 1000, env_steady_now = 5000,
      env_hlc_next = (\<lambda>c. c + 1), env_estimateNewMemoryUsage = (\<lambda>itm. 500),
      env_maxDataSize = 1000, env_mutationMemThreshold = 3 / 4,
      env_replicationThrottleThreshold = 7 / 8,
      env_areDeletedItemsAlwaysResident = False, env_isLogicallyDeleted = (\<lambda>s. False),
      env_bFilter = None, env_bucketDefaultTimeout = 30000\<rparr>"

definition makeCommittedItem :: "string \<Rightarrow> string \<Rightarrow> Item" where
  "makeCommittedItem k val =
     \<lparr>it_key = k, it_value = Some val, it_xattr = False, it_flags = 0, it_exptime = 0,
      it_cas = 0, it_bySeqno = 0, it_revSeqno = 1, it_deleted = False,
      it_op = Queue_mutation, it_durability = no_requirements, it_prepareSeqno = 0\<rparr>"

definition makePendingItem :: "string \<Rightarrow> string \<Rightarrow> Requirements \<Rightarrow> Item" where
  "makePendingItem k val reqs =
     (makeCommittedItem k val)\<lparr>it_op := Queue_pending_sync_write, it_durability := reqs\<rparr>"

definition majority_reqs :: "Timeout \<Rightarrow> Requirements" where
  "majority_reqs t = \<lparr>req_level = Majority, req_timeout = t\<rparr>"

text \<open>A vBucket in the state the timeout test reaches: active, topology
  \<open>[[active, replica1]]\<close>, three prepares tracked at seqnos 201, 202 and 203 with timeouts
  of 20 ms, 1 ms and \<^verbatim>\<open>Timeout::Infinity\<close>, enqueued at time 5000, their Pending values in
  the hash table, and a committed value at another key.\<close>

definition test_prepare_sv :: "string \<Rightarrow> int \<Rightarrow> Timeout \<Rightarrow> StoredValue" where
  "test_prepare_sv k seqno t =
     (sv_of_item (makePendingItem k ''value'' (majority_reqs t)))\<lparr>sv_bySeqno := seqno\<rparr>"

definition test_sync_write :: "string \<Rightarrow> int \<Rightarrow> Timeout \<Rightarrow> nat \<Rightarrow> SyncWrite" where
  "test_sync_write k seqno t cookie =
     \<lparr>sw_key = k, sw_seqno = seqno, sw_cookie = Some cookie, sw_reqs = majority_reqs t,
      sw_start = 5000\<rparr>"

definition test_vbucket :: VBucket where
  "test_vbucket =
     (new_vbucket vbucket_state_active Eviction_Value)
       \<lparr>vb_ht :=
          [''key201'' \<mapsto> test_prepare_sv ''key201'' 201 (Timeout_Millis 20),
           ''key202'' \<mapsto> test_prepare_sv ''key202'' 202 (Timeout_Millis 1),
           ''key203'' \<mapsto> test_prepare_sv ''key203'' 203 Timeout_Infinity,
           ''key7'' \<mapsto> (sv_of_item (makeCommittedItem ''key7'' ''value''))\<lparr>sv_bySeqno := 7\<rparr>],
        vb_lastBySeqno := 203,
        vb_replicationTopology :=
          Json_array [Json_array [Json_string ''active'', Json_string ''replica1'']],
        vb_durabilityMonitor :=
          ActiveDM [[Some ''active'', Some ''replica1'']]
            [test_sync_write ''key201'' 201 (Timeout_Millis 20) 1,
             test_sync_write ''key202'' 202 (Timeout_Millis 1) 2,
             test_sync_write ''key203'' 203 Timeout_Infinity 3]\<rparr>"

text \<open>The same vBucket with the replica of the chain undefined and nothing tracked, as
  in the test \<^verbatim>\<open>DurabilityImpossible_1Replica\<close>.\<close>

definition test_vbucket_undefined_replica :: VBucket where
  "test_vbucket_undefined_replica =
     test_vbucket\<lparr>vb_replicationTopology :=
                     Json_array [Json_array [Json_string ''active'', Json_null]],
                   vb_durabilityMonitor := ActiveDM [[Some ''active'', None]] []\<rparr>"

text \<open>What identifies a queued abort: its key, its kind, the prepare seqno it carries and
  its deletion flag.\<close>

definition abort_summary :: "Item \<Rightarrow> string \<times> queue_op \<times> int \<times> bool" where
  "abort_summary i = (it_key i, it_op i, it_prepareSeqno i, it_deleted i)"

text \<open>The committed value of the fixture at \<open>key7\<close>, the same value expired and with a CAS
  of its own, the fixture holding it, and a \<^verbatim>\<open>set\<close> for that key with a CAS that matches
  neither.\<close>

definition test_committed_sv :: StoredValue where
  "test_committed_sv = (sv_of_item (makeCommittedItem ''key7'' ''value''))\<lparr>sv_bySeqno := 7\<rparr>"

definition test_expired_sv :: StoredValue where
  "test_expired_sv = test_committed_sv\<lparr>sv_cas := 5, sv_exptime := 500\<rparr>"

definition test_vbucket_expired :: VBucket where
  "test_vbucket_expired =
     test_vbucket\<lparr>vb_ht := (vb_ht test_vbucket)(''key7'' \<mapsto> test_expired_sv)\<rparr>"

definition test_cas_item :: Item where
  "test_cas_item = (makeCommittedItem ''key7'' ''new'')\<lparr>it_cas := 99\<rparr>"

text \<open>The code \<^verbatim>\<open>set\<close> returns for a non-zero CAS that does not match an unlocked value.\<close>

definition cas_mismatch_code :: "Env \<Rightarrow> StoredValue \<Rightarrow> Item \<Rightarrow> ENGINE_ERROR_CODE" where
  "cas_mismatch_code env v itm =
     (if sv_isExpired v (env_real_time env) \<and> \<not> it_deleted itm then ENGINE_KEY_ENOENT
      else if sv_isTempNonExistentItem v then ENGINE_KEY_ENOENT
      else if (sv_isTempDeletedItem v \<or> sv_deleted v) \<and> \<not> it_deleted itm
      then ENGINE_KEY_ENOENT
      else ENGINE_KEY_EEXISTS)"

text \<open>The value of the fixture at \<open>key7\<close> as a tombstone (deleted, body removed), and the
  fixture holding it.\<close>

definition test_deleted_sv :: StoredValue where
  "test_deleted_sv = test_committed_sv\<lparr>sv_value := None, sv_deleted := True, sv_dirty := False\<rparr>"

definition test_vbucket_deleted :: VBucket where
  "test_vbucket_deleted =
     test_vbucket\<lparr>vb_ht := (vb_ht test_vbucket)(''key7'' \<mapsto> test_deleted_sv)\<rparr>"

text \<open>The code an operation returns, and the vBucket it leaves, when it returns at all.\<close>

definition returned_code :: "exn + (ENGINE_ERROR_CODE \<times> 'a) \<Rightarrow> ENGINE_ERROR_CODE option" where
  "returned_code r = (case r of Inr (c, x) \<Rightarrow> Some c | Inl e \<Rightarrow> None)"

definition returned_vbucket :: "exn + (ENGINE_ERROR_CODE \<times> 'a \<times> VBucket) \<Rightarrow> VBucket option" where
  "returned_vbucket r = (case r of Inr (c, x, vb) \<Rightarrow> Some vb | Inl e \<Rightarrow> None)"

text \<open>The environment of the fixtures with a data quota of zero: no item passes memory admission.\<close>

definition test_env_no_memory :: Env where
  "test_env_no_memory = test_env\<lparr>env_maxDataSize := 0\<rparr>"

text \<open>The first test of \<^verbatim>\<open>VBucket::processAdd\<close>: the key has a value that is not deleted, not expired, not a temp marker and not in a dropped collection.\<close>

definition add_finds_live_value :: "Env \<Rightarrow> StoredValue option \<Rightarrow> bool" where
  "add_finds_live_value env v =
     (case v of
        Some sv \<Rightarrow> \<not> sv_deleted sv \<and> \<not> sv_isExpired sv (env_real_time env) \<and>
                   \<not> sv_isTempItem sv \<and> \<not> env_isLogicallyDeleted env (sv_bySeqno sv)
      | None \<Rightarrow> False)"

text \<open>The checks of \<^verbatim>\<open>set\<close>, \<^verbatim>\<open>replace\<close> and \<^verbatim>\<open>add\<close> that precede the mutation proper let the write through: the durability guard of a durable write holds and the predicate, if there is one, returns without failing (\<^verbatim>\<open>add\<close> has no predicate).\<close>

definition set_passes_guards ::
  "VBucket \<Rightarrow> Item \<Rightarrow> (StoredValue option \<Rightarrow> StoreIfStatus) option \<Rightarrow> bool" where
  "set_passes_guards vb itm predicate =
     ((if it_isPending itm then activeDM_isDurabilityPossible vb = Inr True else True) \<and>
      (case predicate of
         None \<Rightarrow> True
       | Some p \<Rightarrow>
           (case callPredicate vb p (findForWrite vb (it_key itm)) of
              Inl e \<Rightarrow> False
            | Inr st \<Rightarrow> st \<noteq> StoreIf_Fail)))"

text \<open>The condition under which \<^verbatim>\<open>set\<close> and \<^verbatim>\<open>deleteItem\<close> unlock a locked value before going on: \<^verbatim>\<open>getState() == vbucket_state_replica || getState() == vbucket_state_pending\<close>.\<close>

definition unlocks_on_write :: "VBucket \<Rightarrow> bool" where
  "unlocks_on_write vb =
     (vb_state vb = vbucket_state_replica \<or> vb_state vb = vbucket_state_pending)"

text \<open>The durability guard of \<^verbatim>\<open>deleteItem\<close> lets the deletion through.\<close>

definition delete_passes_guard :: "VBucket \<Rightarrow> Requirements option \<Rightarrow> bool" where
  "delete_passes_guard vb durability =
     (case durability of
        Some d \<Rightarrow> (if req_isValid d then activeDM_isDurabilityPossible vb = Inr True else True)
      | None \<Rightarrow> True)"

text \<open>The value \<^verbatim>\<open>deleteItem\<close> found is one it goes on to delete: not deleted, not a temp marker and not in a dropped collection.\<close>

definition delete_finds_live_value :: "Env \<Rightarrow> StoredValue \<Rightarrow> bool" where
  "delete_finds_live_value env v =
     (\<not> (sv_deleted v \<or> sv_isTempItem v \<or> env_isLogicallyDeleted env (sv_bySeqno v)))"

text \<open>The value of the fixture at \<open>key7\<close> with a CAS of its own and locked until time 200 (the fixture's clock reads 100).\<close>

definition test_locked_sv :: StoredValue where
  "test_locked_sv = test_committed_sv\<lparr>sv_cas := 5, sv_lock_expiry := 200\<rparr>"

text \<open>A vBucket in a given state that holds just this locked value.\<close>

definition test_vbucket_locked :: "vbucket_state_t \<Rightarrow> VBucket" where
  "test_vbucket_locked st =
     (new_vbucket st Eviction_Value)
       \<lparr>vb_ht := [''key7'' \<mapsto> test_locked_sv], vb_lastBySeqno := 7\<rparr>"

text \<open>The chains a topology denotes for the monitor: a list of chains, each a list of nodes, a node being a name or undefined.\<close>

definition topology_chains :: "json \<Rightarrow> string option list list option" where
  "topology_chains t = (case t of Json_array elems \<Rightarrow> json_to_chains elems | _ \<Rightarrow> None)"

text \<open>The threshold \<^verbatim>\<open>hasMemoryForStoredValue\<close> multiplies the quota with: \<^verbatim>\<open>mutationMemThreshold\<close> when the active threshold is asked for or the vBucket is active, \<^verbatim>\<open>replicationThrottleThreshold\<close> otherwise.\<close>

definition admission_threshold :: "Env \<Rightarrow> VBucket \<Rightarrow> UseActiveVBMemThreshold \<Rightarrow> real" where
  "admission_threshold env vb useActiveVBMemThreshold =
     (if useActiveVBMemThreshold = UseActiveVBMemThreshold_Yes \<or>
         vb_state vb = vbucket_state_active
      then env_mutationMemThreshold env else env_replicationThrottleThreshold env)"

text \<open>An environment with other memory statistics and thresholds, everything else being the same.\<close>

definition with_memory_stats :: "Env \<Rightarrow> (Item \<Rightarrow> nat) \<Rightarrow> nat \<Rightarrow> real \<Rightarrow> real \<Rightarrow> Env" where
  "with_memory_stats env estimate maxDataSize mutationThreshold replicationThreshold =
     env\<lparr>env_estimateNewMemoryUsage := estimate, env_maxDataSize := maxDataSize,
         env_mutationMemThreshold := mutationThreshold,
         env_replicationThrottleThreshold := replicationThreshold\<rparr>"

text \<open>The environment of the fixtures after \<^verbatim>\<open>setMutationMemoryThreshold(29)\<close>, with a quota of 300 and items estimated at 87: the threshold is the double nearest to 0.29.\<close>

definition test_env_29 :: Env where
  "test_env_29 =
     test_env\<lparr>env_estimateNewMemoryUsage := (\<lambda>itm. 87), env_maxDataSize := 300,
              env_mutationMemThreshold := 5224175567749775 / 2 ^ 54\<rparr>"

text \<open>An active vBucket that holds the locked value already expired (expiry 500, the fixture's real time being 1000).\<close>

definition test_vbucket_locked_expired :: VBucket where
  "test_vbucket_locked_expired =
     (test_vbucket_locked vbucket_state_active)
       \<lparr>vb_ht := [''key7'' \<mapsto> test_locked_sv\<lparr>sv_exptime := 500\<rparr>]\<rparr>"

section \<open>Verification\<close>

subsection \<open>Rounding to double\<close>

lemma double_exponent_eq:
  assumes "2 powr (of_int e) \<le> \<bar>x\<bar>" and "\<bar>x\<bar> < 2 powr (of_int e + 1)"
  shows "double_exponent x = e"
proof -
  have pos: "0 < \<bar>x\<bar>"
    using assms(1) powr_gt_zero [of 2 "of_int e"] by linarith
  show ?thesis
    unfolding double_exponent_def
    using assms pos by (simp add: floor_log_eq_powr_iff)
qed

lemma double_exponent_bounds:
  assumes "x \<noteq> 0"
  shows "2 powr (of_int (double_exponent x)) \<le> \<bar>x\<bar>"
    and "\<bar>x\<bar> < 2 powr (of_int (double_exponent x) + 1)"
proof -
  have pos: "0 < \<bar>x\<bar>" using assms by simp
  have "\<lfloor>log 2 \<bar>x\<bar>\<rfloor> = double_exponent x" by (simp add: double_exponent_def)
  then show "2 powr (of_int (double_exponent x)) \<le> \<bar>x\<bar>"
    and "\<bar>x\<bar> < 2 powr (of_int (double_exponent x) + 1)"
    using pos by (simp_all add: floor_log_eq_powr_iff)
qed

lemma double_ulp_pos: "0 < double_ulp x"
  by (simp add: double_ulp_def)

lemma double_ulp_le:
  assumes "x \<noteq> 0"
  shows "double_ulp x \<le> \<bar>x\<bar> / 2 ^ 52"
proof -
  have "double_ulp x = 2 powr (of_int (double_exponent x)) / 2 ^ 52"
    by (simp add: double_ulp_def powr_diff)
  then show ?thesis
    using double_exponent_bounds(1) [OF assms] by (simp add: divide_right_mono)
qed

lemma round_ties_even_error: "\<bar>of_int (round_ties_even q) - q\<bar> \<le> 1 / 2"
  unfolding round_ties_even_def Let_def
  by (auto; linarith)

lemma round_ties_even_of_int [simp]: "round_ties_even (of_int k) = k"
  by (simp add: round_ties_even_def)

lemma to_double_error: "\<bar>to_double x - x\<bar> \<le> \<bar>x\<bar> / 2 ^ 53"
proof (cases "x = 0")
  case True
  then show ?thesis by (simp add: to_double_def)
next
  case False
  define u where "u = double_ulp x"
  have u: "0 < u" by (simp add: u_def double_ulp_pos)
  have "to_double x - x = (of_int (round_ties_even (x / u)) - x / u) * u"
    using False u by (simp add: to_double_def u_def algebra_simps)
  then have "\<bar>to_double x - x\<bar> = \<bar>of_int (round_ties_even (x / u)) - x / u\<bar> * u"
    using u by (simp add: abs_mult)
  also have "\<dots> \<le> (1 / 2) * u"
    using round_ties_even_error [of "x / u"] u by (intro mult_right_mono) simp_all
  also have "\<dots> \<le> (1 / 2) * (\<bar>x\<bar> / 2 ^ 52)"
    using double_ulp_le [OF False] by (simp add: u_def)
  also have "\<dots> = \<bar>x\<bar> / 2 ^ 53" by simp
  finally show ?thesis .
qed


lemma to_double_representable:
  assumes m: "\<bar>m\<bar> < 2 ^ 53"
  shows "to_double (of_int m * 2 powr (of_int k)) = of_int m * 2 powr (of_int k)"
proof (cases "m = 0")
  case True
  then show ?thesis by (simp add: to_double_def)
next
  case False
  define x :: real where "x = of_int m * 2 powr (of_int k)"
  have x0: "x \<noteq> 0" using False by (simp add: x_def)
  define e where "e = double_exponent x"
  have ax: "\<bar>x\<bar> = of_int \<bar>m\<bar> * 2 powr (of_int k)"
    by (simp add: x_def abs_mult)
  have "of_int \<bar>m\<bar> < (2 :: real) ^ 53"
    using m by (metis of_int_less_iff of_int_numeral of_int_power)
  then have "\<bar>x\<bar> < 2 ^ 53 * 2 powr (of_int k)"
    unfolding ax by (intro mult_strict_right_mono) simp_all
  also have "\<dots> = 2 powr (of_int (53 + k))"
    by (simp add: powr_add powr_realpow [symmetric])
  finally have lt: "\<bar>x\<bar> < 2 powr (of_int (53 + k))" .
  have "2 powr (of_int e) \<le> \<bar>x\<bar>"
    using double_exponent_bounds(1) [OF x0] by (simp add: e_def)
  with lt have "2 powr (of_int e) < (2 :: real) powr (of_int (53 + k))"
    by linarith
  then have "(of_int e :: real) < of_int (53 + k)"
    by (rule powr_less_cancel) simp
  then have "e < 53 + k" by (simp only: of_int_less_iff)
  then have d: "0 \<le> k - (e - 52)" by simp
  define d where "d = nat (k - (e - 52))"
  have kd: "of_int k = of_int (e - 52) + (real d)"
    using d by (simp add: d_def)
  have u: "double_ulp x = 2 powr (of_int (e - 52))"
    by (simp add: double_ulp_def e_def)
  have p: "2 powr (of_int k) = 2 powr (of_int (e - 52)) * (2 :: real) ^ d"
    unfolding kd by (simp add: powr_add powr_realpow)
  have "x = of_int m * (2 powr (of_int (e - 52)) * (2 :: real) ^ d)"
    by (simp only: x_def p)
  also have "\<dots> = of_int (m * 2 ^ d) * 2 powr (of_int (e - 52))"
    by simp
  finally have xu': "x = of_int (m * 2 ^ d) * 2 powr (of_int (e - 52))" .
  have xu: "x = of_int (m * 2 ^ d) * double_ulp x"
    unfolding u by (rule xu')
  have q: "x / double_ulp x = of_int (m * 2 ^ d)"
    using double_ulp_pos [of x] by (subst xu) simp
  have "to_double x = of_int (m * 2 ^ d) * double_ulp x"
    by (simp only: to_double_def q round_ties_even_of_int x0 if_False)
  also have "\<dots> = x"
    by (rule xu [symmetric])
  finally show ?thesis
    by (simp only: x_def)
qed

lemma to_double_of_int:
  assumes "\<bar>m\<bar> < 2 ^ 53"
  shows "to_double (of_int m) = of_int m"
  using to_double_representable [OF assms, of 0] by simp

lemma to_double_of_nat:
  assumes "n < 2 ^ 53"
  shows "to_double (of_nat n) = of_nat n"
proof -
  have "\<bar>int n\<bar> < 2 ^ 53" using assms by (simp add: of_nat_less_numeral_power_cancel_iff)
  from to_double_of_int [OF this] show ?thesis by simp
qed

lemma to_double_numeral:
  assumes "(numeral k :: nat) < 2 ^ 53"
  shows "to_double (numeral k) = numeral k"
  using to_double_of_nat [OF assms] by simp

lemma to_double_0 [simp]: "to_double 0 = 0"
  by (simp add: to_double_def)


lemma to_double_scaled:
  assumes lo: "2 ^ 52 \<le> \<bar>x\<bar> * 2 ^ k" and hi: "\<bar>x\<bar> * 2 ^ k < 2 ^ 53"
  shows "to_double x = of_int (round_ties_even (x * 2 ^ k)) / 2 ^ k"
proof -
  have x0: "x \<noteq> 0" using lo by auto
  have p: "(2 :: real) powr (of_int (52 - int k)) = 2 ^ 52 / 2 ^ k"
    by (simp add: powr_diff powr_realpow)
  have p1: "(2 :: real) powr (of_int (52 - int k) + 1) = 2 ^ 53 / 2 ^ k"
    by (simp add: powr_add powr_diff powr_realpow)
  have "2 ^ 52 / 2 ^ k \<le> \<bar>x\<bar>"
    using lo by (simp add: pos_divide_le_eq)
  moreover have "\<bar>x\<bar> < 2 ^ 53 / 2 ^ k"
    using hi by (simp add: pos_less_divide_eq)
  ultimately have e: "double_exponent x = 52 - int k"
    by (intro double_exponent_eq) (simp_all only: p p1)
  have u: "double_ulp x = 1 / 2 ^ k"
    by (simp add: double_ulp_def e powr_minus powr_realpow inverse_eq_divide)
  show ?thesis
    using x0 by (simp add: to_double_def u)
qed

subsection \<open>Character classes\<close>

lemma of_char_image_mem: "(of_char c :: nat) \<in> of_char ` S \<Longrightarrow> c \<in> S"
  by auto

lemma digits_codes: "{48..<58::nat} = of_char ` set ''0123456789''"
  by (simp add: atLeastLessThan_upt upt_rec)

lemma upper_codes: "{65..<91::nat} = of_char ` set ''ABCDEFGHIJKLMNOPQRSTUVWXYZ''"
  by (simp add: atLeastLessThan_upt upt_rec)

lemma lower_codes: "{97..<123::nat} = of_char ` set ''abcdefghijklmnopqrstuvwxyz''"
  by (simp add: atLeastLessThan_upt upt_rec)

lemma isdigit_set: "isdigit c = (c \<in> set ''0123456789'')"
proof
  assume "isdigit c"
  then have "(of_char c :: nat) \<in> {48..<58}"
    by (simp add: isdigit_def)
  then show "c \<in> set ''0123456789''"
    unfolding digits_codes by (rule of_char_image_mem)
next
  assume "c \<in> set ''0123456789''"
  then show "isdigit c"
    by (auto simp: isdigit_def)
qed

lemma isalpha_set:
  "isalpha c =
     (c \<in> set ''ABCDEFGHIJKLMNOPQRSTUVWXYZ'' \<or> c \<in> set ''abcdefghijklmnopqrstuvwxyz'')"
proof
  assume "isalpha c"
  then have "(of_char c :: nat) \<in> {65..<91} \<or> (of_char c :: nat) \<in> {97..<123}"
    by (auto simp: isalpha_def)
  then show "c \<in> set ''ABCDEFGHIJKLMNOPQRSTUVWXYZ'' \<or> c \<in> set ''abcdefghijklmnopqrstuvwxyz''"
    unfolding upper_codes lower_codes using of_char_image_mem by blast
next
  assume "c \<in> set ''ABCDEFGHIJKLMNOPQRSTUVWXYZ'' \<or> c \<in> set ''abcdefghijklmnopqrstuvwxyz''"
  then show "isalpha c"
    by (auto simp: isalpha_def)
qed

lemma name_char_ok:
  "(isdigit c \<or> isalpha c \<or> c = CHR ''_'' \<or> c = CHR ''-'' \<or> c = CHR ''%'' \<or> c = CHR ''$'')
     = (c \<in> name_alphabet)"
  unfolding isdigit_set isalpha_set name_alphabet_def by blast

lemma validName_chars_iff: "validName_chars s = (set s \<subseteq> name_alphabet)"
proof (induction s)
  case Nil
  show ?case by simp
next
  case (Cons c cs)
  show ?case
    using Cons.IH name_char_ok [of c] by (simp del: set_simps add: list.set)
qed

text \<open>
  C9. For every string \<open>s\<close>, \<^verbatim>\<open>validName\<close> accepts \<open>s\<close> exactly when \<open>s\<close> is not empty, its
  length is at most the maximum name size, it does not start with \<open>$\<close>, and every character
  of \<open>s\<close> is an ASCII letter, a digit, or one of \<open>_\<close>, \<open>-\<close>, \<open>%\<close>, \<open>$\<close>.
\<close>

theorem validName_iff:
  "validName maxSize s \<longleftrightarrow>
     s \<noteq> [] \<and> length s \<le> maxSize \<and> hd s \<noteq> CHR ''$'' \<and> (\<forall>c \<in> set s. c \<in> name_alphabet)"
  unfolding validName_def validName_chars_iff by auto

theorem validName_iff_witness:
  "validName 30 ''beer_%-$9'' \<and> \<not> validName 30 ''$beer'' \<and> \<not> validName 30 ''a.b'' \<and>
   \<not> validName 30 [] \<and> \<not> validName 3 ''beer''"
  using validName_iff [of 30 "''beer_%-$9''"] validName_iff [of 30 "''$beer''"]
    validName_iff [of 30 "''a.b''"] validName_iff [of 30 "[]"] validName_iff [of 3 "''beer''"]
  by (simp add: name_alphabet_def)

subsection \<open>Commit\<close>

lemma test_vbucket_consistent: "ht_keys_consistent test_vbucket"
  by (simp add: ht_keys_consistent_def test_vbucket_def test_prepare_sv_def sv_of_item_def
      makePendingItem_def makeCommittedItem_def)

lemma commit_enoent:
  "findForWrite vb k = None \<Longrightarrow> commit env vb k ps cs cookie = Inr (ENGINE_KEY_ENOENT, vb)"
  by (simp add: commit_def)

lemma commit_einval:
  "findForWrite vb k = Some v \<Longrightarrow> sv_committed v \<noteq> Pending \<Longrightarrow>
   commit env vb k ps cs cookie = Inr (ENGINE_EINVAL, vb)"
  by (simp add: commit_def)

lemma commit_success:
  assumes f: "findForWrite vb k = Some v" and p: "sv_committed v = Pending"
    and r: "sv_resident v" and k: "sv_key v = k"
    and sq: "case cs of None \<Rightarrow> True | Some s \<Rightarrow> vb_lastBySeqno vb < s"
  shows "\<exists>vb' v' item. commit env vb k ps cs cookie = Inr (ENGINE_SUCCESS, vb') \<and>
           vb_ht vb' = (vb_ht vb)(k \<mapsto> v') \<and>
           v' = v\<lparr>sv_committed := CommittedViaPrepare, sv_cas := it_cas item,
                    sv_bySeqno := it_bySeqno item\<rparr> \<and>
           vb_checkpoint vb' = vb_checkpoint vb @ [item] \<and>
           it_op item = Queue_commit_sync_write \<and> it_key item = k \<and>
           it_bySeqno item = (case cs of None \<Rightarrow> vb_lastBySeqno vb + 1 | Some s \<Rightarrow> s) \<and>
           vb_syncWriteComplete vb' =
             vb_syncWriteComplete vb @
               (case cookie of Some c \<Rightarrow> [(c, ENGINE_SUCCESS)] | None \<Rightarrow> [])"
proof (cases cs)
  case None
  define v2 where "v2 = v\<lparr>sv_committed := CommittedViaPrepare\<rparr>"
  define item where "item = (sv_toItemBase v2)\<lparr>it_op := Queue_commit_sync_write\<rparr>"
  have ti: "sv_toItem v2 None = Inr item"
    by (simp add: sv_toItem_def v2_def item_def)
  show ?thesis
    using f p r k None
    apply (simp add: commit_def commitStoredValue_def queueDirty_def default_VBQueueItemCtx_def
        Let_def v2_def [symmetric] ti)
    apply (simp add: queueItem_def cm_queueDirty_def Let_def item_def it_isPending_def
        sv_toItemBase_def v2_def ht_put_def doCollectionsStats_def notifyNewSeqno_def
        notifyClientOfSyncWriteComplete_def default_VBNotifyCtx_def split: option.splits)
    done
next
  case (Some s)
  define v2 where "v2 = v\<lparr>sv_committed := CommittedViaPrepare, sv_bySeqno := s\<rparr>"
  define item where "item = (sv_toItemBase v2)\<lparr>it_op := Queue_commit_sync_write\<rparr>"
  have ti: "sv_toItem v2 None = Inr item"
    by (simp add: sv_toItem_def v2_def item_def)
  show ?thesis
    using f p r k Some sq
    apply (simp add: commit_def commitStoredValue_def queueDirty_def default_VBQueueItemCtx_def
        Let_def v2_def [symmetric] ti)
    apply (simp add: queueItem_def cm_queueDirty_def Let_def item_def it_isPending_def
        sv_toItemBase_def v2_def ht_put_def doCollectionsStats_def notifyNewSeqno_def
        notifyClientOfSyncWriteComplete_def default_VBNotifyCtx_def split: option.splits)
    apply (cases v; simp)
    done
qed

lemma commit_success_only_pending:
  "commit env vb k ps cs cookie = Inr (ENGINE_SUCCESS, vb') \<Longrightarrow>
   \<exists>v. findForWrite vb k = Some v \<and> sv_committed v = Pending"
  by (auto simp: commit_def split: option.splits if_splits)

text \<open>
  C3. \<^verbatim>\<open>commit(key, prepareSeqno, commitSeqno)\<close> returns \<^verbatim>\<open>KeyEnoent\<close> when no stored value
  exists at the key and \<^verbatim>\<open>Einval\<close> when a stored value exists but is not Pending; in both
  cases the vBucket (hash table and checkpoint queue included) is unchanged. It returns
  \<^verbatim>\<open>Success\<close> only for a Pending value; for a resident Pending value (and a commit seqno,
  if given, beyond the last one queued) it does return \<^verbatim>\<open>Success\<close>, the value at the key is
  then the committed form of the Pending one, one commit item for the key is appended to
  the checkpoint queue, and the cookie, when supplied, is notified with \<^verbatim>\<open>Success\<close>.
\<close>

theorem commit_contract:
  assumes "ht_keys_consistent vb"
  shows
    "(findForWrite vb k = None \<longrightarrow>
        commit env vb k ps cs cookie = Inr (ENGINE_KEY_ENOENT, vb)) \<and>
     (\<forall>v. findForWrite vb k = Some v \<and> sv_committed v \<noteq> Pending \<longrightarrow>
        commit env vb k ps cs cookie = Inr (ENGINE_EINVAL, vb)) \<and>
     (\<forall>vb'. commit env vb k ps cs cookie = Inr (ENGINE_SUCCESS, vb') \<longrightarrow>
        (\<exists>v. findForWrite vb k = Some v \<and> sv_committed v = Pending)) \<and>
     (\<forall>v. findForWrite vb k = Some v \<and> sv_committed v = Pending \<and> sv_resident v \<and>
          (case cs of None \<Rightarrow> True | Some s \<Rightarrow> vb_lastBySeqno vb < s) \<longrightarrow>
        (\<exists>vb' item.
           commit env vb k ps cs cookie = Inr (ENGINE_SUCCESS, vb') \<and>
           vb_ht vb' =
             (vb_ht vb)(k \<mapsto> v\<lparr>sv_committed := CommittedViaPrepare, sv_cas := it_cas item,
                                  sv_bySeqno := it_bySeqno item\<rparr>) \<and>
           vb_checkpoint vb' = vb_checkpoint vb @ [item] \<and>
           it_op item = Queue_commit_sync_write \<and> it_key item = k \<and>
           it_bySeqno item = (case cs of None \<Rightarrow> vb_lastBySeqno vb + 1 | Some s \<Rightarrow> s) \<and>
           vb_syncWriteComplete vb' =
             vb_syncWriteComplete vb @
               (case cookie of Some c \<Rightarrow> [(c, ENGINE_SUCCESS)] | None \<Rightarrow> [])))"
proof (intro conjI allI impI)
  assume "findForWrite vb k = None"
  then show "commit env vb k ps cs cookie = Inr (ENGINE_KEY_ENOENT, vb)"
    by (rule commit_enoent)
next
  fix v
  assume "findForWrite vb k = Some v \<and> sv_committed v \<noteq> Pending"
  then show "commit env vb k ps cs cookie = Inr (ENGINE_EINVAL, vb)"
    by (simp add: commit_einval)
next
  fix vb'
  assume "commit env vb k ps cs cookie = Inr (ENGINE_SUCCESS, vb')"
  then show "\<exists>v. findForWrite vb k = Some v \<and> sv_committed v = Pending"
    by (rule commit_success_only_pending)
next
  fix v
  assume a: "findForWrite vb k = Some v \<and> sv_committed v = Pending \<and> sv_resident v \<and>
             (case cs of None \<Rightarrow> True | Some s \<Rightarrow> vb_lastBySeqno vb < s)"
  with assms have "sv_key v = k"
    by (simp add: ht_keys_consistent_def findForWrite_def)
  with a show "\<exists>vb' item.
           commit env vb k ps cs cookie = Inr (ENGINE_SUCCESS, vb') \<and>
           vb_ht vb' =
             (vb_ht vb)(k \<mapsto> v\<lparr>sv_committed := CommittedViaPrepare, sv_cas := it_cas item,
                                  sv_bySeqno := it_bySeqno item\<rparr>) \<and>
           vb_checkpoint vb' = vb_checkpoint vb @ [item] \<and>
           it_op item = Queue_commit_sync_write \<and> it_key item = k \<and>
           it_bySeqno item = (case cs of None \<Rightarrow> vb_lastBySeqno vb + 1 | Some s \<Rightarrow> s) \<and>
           vb_syncWriteComplete vb' =
             vb_syncWriteComplete vb @
               (case cookie of Some c \<Rightarrow> [(c, ENGINE_SUCCESS)] | None \<Rightarrow> [])"
    using commit_success [of vb k v cs env ps cookie] by blast
qed

theorem commit_contract_witness:
  "commit test_env test_vbucket ''nokey'' 1 None (Some 9) = Inr (ENGINE_KEY_ENOENT, test_vbucket) \<and>
   commit test_env test_vbucket ''key7'' 7 None (Some 9) = Inr (ENGINE_EINVAL, test_vbucket) \<and>
   (\<exists>vb' item.
      commit test_env test_vbucket ''key203'' 203 None (Some 9) = Inr (ENGINE_SUCCESS, vb') \<and>
      vb_ht vb' ''key203'' =
        Some ((test_prepare_sv ''key203'' 203 Timeout_Infinity)
               \<lparr>sv_committed := CommittedViaPrepare, sv_cas := it_cas item,
                sv_bySeqno := it_bySeqno item\<rparr>) \<and>
      vb_checkpoint vb' = [item] \<and> it_op item = Queue_commit_sync_write \<and>
      it_key item = ''key203'' \<and> it_bySeqno item = 204 \<and>
      vb_syncWriteComplete vb' = [(9, ENGINE_SUCCESS)])"
proof -
  have f1: "findForWrite test_vbucket ''nokey'' = None"
    by (simp add: findForWrite_def test_vbucket_def)
  have f2: "findForWrite test_vbucket ''key7'' =
              Some ((sv_of_item (makeCommittedItem ''key7'' ''value''))\<lparr>sv_bySeqno := 7\<rparr>)"
    by (simp add: findForWrite_def test_vbucket_def)
  have f3: "findForWrite test_vbucket ''key203'' =
              Some (test_prepare_sv ''key203'' 203 Timeout_Infinity)"
    by (simp add: findForWrite_def test_vbucket_def)
  have c2: "sv_committed ((sv_of_item (makeCommittedItem ''key7'' ''value''))\<lparr>sv_bySeqno := 7\<rparr>)
              \<noteq> Pending"
    by (simp add: sv_of_item_def makeCommittedItem_def it_isPending_def)
  have c3: "sv_committed (test_prepare_sv ''key203'' 203 Timeout_Infinity) = Pending \<and>
            sv_resident (test_prepare_sv ''key203'' 203 Timeout_Infinity)"
    by (simp add: test_prepare_sv_def sv_of_item_def makePendingItem_def it_isPending_def)
  have 1: "commit test_env test_vbucket ''nokey'' 1 None (Some 9) =
             Inr (ENGINE_KEY_ENOENT, test_vbucket)"
    using commit_contract [OF test_vbucket_consistent, of "''nokey''" test_env 1 None "Some 9"] f1
    by blast
  have 2: "commit test_env test_vbucket ''key7'' 7 None (Some 9) =
             Inr (ENGINE_EINVAL, test_vbucket)"
    using commit_contract [OF test_vbucket_consistent, of "''key7''" test_env 7 None "Some 9"]
      f2 c2 by blast
  have "\<exists>vb' item.
           commit test_env test_vbucket ''key203'' 203 None (Some 9) = Inr (ENGINE_SUCCESS, vb') \<and>
           vb_ht vb' =
             (vb_ht test_vbucket)(''key203'' \<mapsto> (test_prepare_sv ''key203'' 203 Timeout_Infinity)
               \<lparr>sv_committed := CommittedViaPrepare, sv_cas := it_cas item,
                sv_bySeqno := it_bySeqno item\<rparr>) \<and>
           vb_checkpoint vb' = vb_checkpoint test_vbucket @ [item] \<and>
           it_op item = Queue_commit_sync_write \<and> it_key item = ''key203'' \<and>
           it_bySeqno item = (case None of None \<Rightarrow> vb_lastBySeqno test_vbucket + 1 | Some s \<Rightarrow> s) \<and>
           vb_syncWriteComplete vb' =
             vb_syncWriteComplete test_vbucket @
               (case Some 9 of Some c \<Rightarrow> [(c, ENGINE_SUCCESS)] | None \<Rightarrow> [])"
    using commit_contract [OF test_vbucket_consistent, of "''key203''" test_env 203 None "Some 9"]
      f3 c3 by simp
  then obtain vb' item where
    r: "commit test_env test_vbucket ''key203'' 203 None (Some 9) = Inr (ENGINE_SUCCESS, vb')"
    and h: "vb_ht vb' =
             (vb_ht test_vbucket)(''key203'' \<mapsto> (test_prepare_sv ''key203'' 203 Timeout_Infinity)
               \<lparr>sv_committed := CommittedViaPrepare, sv_cas := it_cas item,
                sv_bySeqno := it_bySeqno item\<rparr>)"
    and c: "vb_checkpoint vb' = vb_checkpoint test_vbucket @ [item]"
    and i: "it_op item = Queue_commit_sync_write" "it_key item = ''key203''"
    and q: "it_bySeqno item = (case None of None \<Rightarrow> vb_lastBySeqno test_vbucket + 1 | Some s \<Rightarrow> s)"
    and s: "vb_syncWriteComplete vb' =
             vb_syncWriteComplete test_vbucket @
               (case Some 9 of Some c \<Rightarrow> [(c, ENGINE_SUCCESS)] | None \<Rightarrow> [])"
    by blast
  have 3: "\<exists>vb' item.
      commit test_env test_vbucket ''key203'' 203 None (Some 9) = Inr (ENGINE_SUCCESS, vb') \<and>
      vb_ht vb' ''key203'' =
        Some ((test_prepare_sv ''key203'' 203 Timeout_Infinity)
               \<lparr>sv_committed := CommittedViaPrepare, sv_cas := it_cas item,
                sv_bySeqno := it_bySeqno item\<rparr>) \<and>
      vb_checkpoint vb' = [item] \<and> it_op item = Queue_commit_sync_write \<and>
      it_key item = ''key203'' \<and> it_bySeqno item = 204 \<and>
      vb_syncWriteComplete vb' = [(9, ENGINE_SUCCESS)]"
    apply (rule exI [of _ vb'], rule exI [of _ item])
    using r h c i q s by (simp add: test_vbucket_def new_vbucket_def)
  show ?thesis using 1 2 3 by (intro conjI)
qed

subsection \<open>Timeout of tracked prepares\<close>

lemma abort_success:
  assumes f: "vb_ht vb k = Some v" and p: "sv_committed v = Pending" and k: "sv_key v = k"
  shows "\<exists>vb' item. abort env vb k ps None cookie = Inr (ENGINE_SUCCESS, vb') \<and>
           vb_ht vb' = (vb_ht vb)(k := None) \<and>
           vb_checkpoint vb' = vb_checkpoint vb @ [item] \<and>
           vb_syncWriteComplete vb' = vb_syncWriteComplete vb @
              (case cookie of Some c \<Rightarrow> [(c, ENGINE_SYNC_WRITE_AMBIGUOUS)] | None \<Rightarrow> []) \<and>
           vb_durabilityMonitor vb' = vb_durabilityMonitor vb \<and>
           vb_state vb' = vb_state vb \<and>
           it_key item = k \<and> it_op item = Queue_abort_sync_write \<and> it_prepareSeqno item = ps \<and>
           it_deleted item \<and> it_bySeqno item = vb_lastBySeqno vb + 1"
  using f p k
  apply (simp add: abort_def findForWrite_def abortStoredValue_def queueAbort_def
      default_VBQueueItemCtx_def Let_def sv_toItemAbort_def it_isAbort_def)
  apply (simp add: queueItem_def cm_queueDirty_def Let_def it_isPending_def
      sv_toItemBase_def ht_del_def doCollectionsStats_def notifyNewSeqno_def
      notifyClientOfSyncWriteComplete_def default_VBNotifyCtx_def split: option.splits)
  done


lemma tracked_in_ht_Cons:
  "tracked_in_ht vb (sw # sws) \<Longrightarrow>
     (\<exists>v. vb_ht vb (sw_key sw) = Some v \<and> sv_committed v = Pending \<and> sv_key v = sw_key sw) \<and>
     sw_key sw \<notin> sw_key ` set sws"
  by (auto simp: tracked_in_ht_def split: option.splits)

lemma tracked_in_ht_tail:
  assumes "tracked_in_ht vb (sw # sws)" and "vb_ht vb' = (vb_ht vb)(sw_key sw := None)"
  shows "tracked_in_ht vb' sws"
proof -
  from assms(1) have d: "distinct (map sw_key sws)" and n: "sw_key sw \<notin> sw_key ` set sws"
    and l: "list_all (\<lambda>sw. case vb_ht vb (sw_key sw) of
                        Some v \<Rightarrow> sv_committed v = Pending \<and> sv_key v = sw_key sw
                      | None \<Rightarrow> False) sws"
    by (auto simp: tracked_in_ht_def)
  have "list_all (\<lambda>sw. case vb_ht vb' (sw_key sw) of
                        Some v \<Rightarrow> sv_committed v = Pending \<and> sv_key v = sw_key sw
                      | None \<Rightarrow> False) sws"
    using l n unfolding list_all_iff assms(2) by (auto simp: image_iff)
  with d show ?thesis by (simp add: tracked_in_ht_def)
qed

lemma abort_all_effect:
  "tracked_in_ht vb sws \<Longrightarrow>
   \<exists>vb' items. abort_all env sws vb = Inr vb' \<and>
     vb_ht vb' = (\<lambda>k. if k \<in> sw_key ` set sws then None else vb_ht vb k) \<and>
     vb_checkpoint vb' = vb_checkpoint vb @ items \<and>
     map abort_summary items =
       map (\<lambda>sw. (sw_key sw, Queue_abort_sync_write, sw_seqno sw, True)) sws \<and>
     vb_syncWriteComplete vb' = vb_syncWriteComplete vb @
       concat (map (\<lambda>sw. case sw_cookie sw of
                            Some c \<Rightarrow> [(c, ENGINE_SYNC_WRITE_AMBIGUOUS)] | None \<Rightarrow> []) sws) \<and>
     vb_durabilityMonitor vb' = vb_durabilityMonitor vb \<and>
     vb_state vb' = vb_state vb"
proof (induction sws arbitrary: vb)
  case Nil
  show ?case by auto
next
  case (Cons sw sws)
  from tracked_in_ht_Cons [OF Cons.prems] obtain v where
    v: "vb_ht vb (sw_key sw) = Some v" "sv_committed v = Pending" "sv_key v = sw_key sw"
    and n: "sw_key sw \<notin> sw_key ` set sws"
    by blast
  from abort_success [OF v, of env "sw_seqno sw" "sw_cookie sw"] obtain vb1 item where
    a: "abort env vb (sw_key sw) (sw_seqno sw) None (sw_cookie sw) = Inr (ENGINE_SUCCESS, vb1)"
    and h: "vb_ht vb1 = (vb_ht vb)(sw_key sw := None)"
    and c: "vb_checkpoint vb1 = vb_checkpoint vb @ [item]"
    and s: "vb_syncWriteComplete vb1 = vb_syncWriteComplete vb @
              (case sw_cookie sw of Some c \<Rightarrow> [(c, ENGINE_SYNC_WRITE_AMBIGUOUS)] | None \<Rightarrow> [])"
    and d: "vb_durabilityMonitor vb1 = vb_durabilityMonitor vb"
    and st: "vb_state vb1 = vb_state vb"
    and i: "abort_summary item = (sw_key sw, Queue_abort_sync_write, sw_seqno sw, True)"
    by (auto simp: abort_summary_def)
  from Cons.IH [OF tracked_in_ht_tail [OF Cons.prems h]] obtain vb' items where
    r: "abort_all env sws vb1 = Inr vb'"
    and h': "vb_ht vb' = (\<lambda>k. if k \<in> sw_key ` set sws then None else vb_ht vb1 k)"
    and c': "vb_checkpoint vb' = vb_checkpoint vb1 @ items"
    and i': "map abort_summary items =
       map (\<lambda>sw. (sw_key sw, Queue_abort_sync_write, sw_seqno sw, True)) sws"
    and s': "vb_syncWriteComplete vb' = vb_syncWriteComplete vb1 @
       concat (map (\<lambda>sw. case sw_cookie sw of
                            Some c \<Rightarrow> [(c, ENGINE_SYNC_WRITE_AMBIGUOUS)] | None \<Rightarrow> []) sws)"
    and d': "vb_durabilityMonitor vb' = vb_durabilityMonitor vb1"
    and st': "vb_state vb' = vb_state vb1"
    by blast
  have 1: "abort_all env (sw # sws) vb = Inr vb'"
    using a r by simp
  have 2: "vb_ht vb' = (\<lambda>k. if k \<in> sw_key ` set (sw # sws) then None else vb_ht vb k)"
    using h h' by auto
  have 3: "vb_checkpoint vb' = vb_checkpoint vb @ (item # items)"
    using c c' by simp
  have 4: "map abort_summary (item # items) =
       map (\<lambda>sw. (sw_key sw, Queue_abort_sync_write, sw_seqno sw, True)) (sw # sws)"
    using i i' by simp
  have 5: "vb_syncWriteComplete vb' = vb_syncWriteComplete vb @
       concat (map (\<lambda>sw. case sw_cookie sw of
                            Some c \<Rightarrow> [(c, ENGINE_SYNC_WRITE_AMBIGUOUS)] | None \<Rightarrow> []) (sw # sws))"
    using s s' by simp
  show ?case
    using 1 2 3 4 5 d d' st st' by metis
qed


lemma tracked_in_ht_filter:
  assumes "tracked_in_ht vb tracked" and "vb_ht vb1 = vb_ht vb"
  shows "tracked_in_ht vb1 (filter P tracked)"
  using assms by (auto simp: tracked_in_ht_def distinct_map_filter list_all_iff)

lemma processDurabilityTimeout_effect:
  assumes st: "vb_state vb = vbucket_state_active"
    and dm: "vb_durabilityMonitor vb = ActiveDM chs tracked"
    and tr: "tracked_in_ht vb tracked"
  shows "\<exists>vb' items. processDurabilityTimeout env asOf vb = Inr vb' \<and>
     vb_durabilityMonitor vb' = ActiveDM chs (filter (\<lambda>sw. \<not> sw_isExpired sw asOf) tracked) \<and>
     vb_ht vb' =
       (\<lambda>k. if k \<in> sw_key ` set (filter (\<lambda>sw. sw_isExpired sw asOf) tracked) then None
            else vb_ht vb k) \<and>
     vb_checkpoint vb' = vb_checkpoint vb @ items \<and>
     map abort_summary items =
       map (\<lambda>sw. (sw_key sw, Queue_abort_sync_write, sw_seqno sw, True))
         (filter (\<lambda>sw. sw_isExpired sw asOf) tracked) \<and>
     vb_syncWriteComplete vb' = vb_syncWriteComplete vb @
       concat (map (\<lambda>sw. case sw_cookie sw of
                            Some c \<Rightarrow> [(c, ENGINE_SYNC_WRITE_AMBIGUOUS)] | None \<Rightarrow> [])
                 (filter (\<lambda>sw. sw_isExpired sw asOf) tracked))"
proof -
  define vb1 where "vb1 = vb\<lparr>vb_durabilityMonitor :=
                          ActiveDM chs (filter (\<lambda>sw. \<not> sw_isExpired sw asOf) tracked)\<rparr>"
  have p: "processDurabilityTimeout env asOf vb =
           abort_all env (filter (\<lambda>sw. sw_isExpired sw asOf) tracked) vb1"
    using st dm
    by (simp add: processDurabilityTimeout_def adm_processTimeout_def getActiveDM_def vb1_def)
  have "tracked_in_ht vb1 (filter (\<lambda>sw. sw_isExpired sw asOf) tracked)"
    by (rule tracked_in_ht_filter [OF tr]) (simp add: vb1_def)
  from abort_all_effect [OF this, of env] obtain vb' items where
    r: "abort_all env (filter (\<lambda>sw. sw_isExpired sw asOf) tracked) vb1 = Inr vb'"
    and h: "vb_ht vb' =
       (\<lambda>k. if k \<in> sw_key ` set (filter (\<lambda>sw. sw_isExpired sw asOf) tracked) then None
            else vb_ht vb1 k)"
    and c: "vb_checkpoint vb' = vb_checkpoint vb1 @ items"
    and i: "map abort_summary items =
       map (\<lambda>sw. (sw_key sw, Queue_abort_sync_write, sw_seqno sw, True))
         (filter (\<lambda>sw. sw_isExpired sw asOf) tracked)"
    and s: "vb_syncWriteComplete vb' = vb_syncWriteComplete vb1 @
       concat (map (\<lambda>sw. case sw_cookie sw of
                            Some c \<Rightarrow> [(c, ENGINE_SYNC_WRITE_AMBIGUOUS)] | None \<Rightarrow> [])
                 (filter (\<lambda>sw. sw_isExpired sw asOf) tracked))"
    and d: "vb_durabilityMonitor vb' = vb_durabilityMonitor vb1"
    by blast
  have e: "vb_ht vb1 = vb_ht vb" "vb_checkpoint vb1 = vb_checkpoint vb"
    "vb_syncWriteComplete vb1 = vb_syncWriteComplete vb"
    "vb_durabilityMonitor vb1 =
       ActiveDM chs (filter (\<lambda>sw. \<not> sw_isExpired sw asOf) tracked)"
    by (simp_all add: vb1_def)
  show ?thesis
    apply (rule exI [of _ vb'], rule exI [of _ items])
    using r h c i s d unfolding p e by (intro conjI)
qed

text \<open>
  C2. On an active vBucket whose tracked prepares have their Pending values in the hash
  table, \<^verbatim>\<open>processTimeout(asOf)\<close> returns, and it aborts exactly the prepares whose deadline
  (enqueue time plus a finite timeout) is at or before \<open>asOf\<close>: a prepare with a finite
  timeout stays tracked exactly when its deadline is after \<open>asOf\<close>; a prepare with
  \<^verbatim>\<open>Timeout::Infinity\<close> stays tracked for every \<open>asOf\<close>; each prepare that is removed has its
  pending value removed from the hash table, one abort item carrying its key and its
  prepare seqno is appended to the checkpoint queue (in tracked order), and its cookie
  is notified with \<^verbatim>\<open>SyncWriteAmbiguous\<close>.
\<close>

theorem processTimeout_aborts_expired:
  assumes "vb_state vb = vbucket_state_active"
    and "vb_durabilityMonitor vb = ActiveDM chs tracked"
    and "tracked_in_ht vb tracked"
  shows "\<exists>vb' items.
     processDurabilityTimeout env asOf vb = Inr vb' \<and>
     (\<forall>sw \<in> set tracked. \<forall>ms. req_timeout (sw_reqs sw) = Timeout_Millis ms \<longrightarrow>
        (sw \<in> set (dm_tracked (vb_durabilityMonitor vb')) \<longleftrightarrow> \<not> sw_start sw + ms \<le> asOf)) \<and>
     (\<forall>sw \<in> set tracked. req_timeout (sw_reqs sw) = Timeout_Infinity \<longrightarrow>
        sw \<in> set (dm_tracked (vb_durabilityMonitor vb'))) \<and>
     set (dm_tracked (vb_durabilityMonitor vb')) \<subseteq> set tracked \<and>
     (\<forall>sw \<in> set tracked. sw \<notin> set (dm_tracked (vb_durabilityMonitor vb')) \<longrightarrow>
        vb_ht vb' (sw_key sw) = None) \<and>
     vb_checkpoint vb' = vb_checkpoint vb @ items \<and>
     map abort_summary items =
       map (\<lambda>sw. (sw_key sw, Queue_abort_sync_write, sw_seqno sw, True))
         (filter (\<lambda>sw. sw \<notin> set (dm_tracked (vb_durabilityMonitor vb'))) tracked) \<and>
     vb_syncWriteComplete vb' = vb_syncWriteComplete vb @
       concat (map (\<lambda>sw. case sw_cookie sw of
                            Some c \<Rightarrow> [(c, ENGINE_SYNC_WRITE_AMBIGUOUS)] | None \<Rightarrow> [])
                 (filter (\<lambda>sw. sw \<notin> set (dm_tracked (vb_durabilityMonitor vb'))) tracked))"
proof -
  from processDurabilityTimeout_effect [OF assms, of env asOf] obtain vb' items where
    r: "processDurabilityTimeout env asOf vb = Inr vb'"
    and d: "vb_durabilityMonitor vb' =
              ActiveDM chs (filter (\<lambda>sw. \<not> sw_isExpired sw asOf) tracked)"
    and h: "vb_ht vb' =
       (\<lambda>k. if k \<in> sw_key ` set (filter (\<lambda>sw. sw_isExpired sw asOf) tracked) then None
            else vb_ht vb k)"
    and c: "vb_checkpoint vb' = vb_checkpoint vb @ items"
    and i: "map abort_summary items =
       map (\<lambda>sw. (sw_key sw, Queue_abort_sync_write, sw_seqno sw, True))
         (filter (\<lambda>sw. sw_isExpired sw asOf) tracked)"
    and s: "vb_syncWriteComplete vb' = vb_syncWriteComplete vb @
       concat (map (\<lambda>sw. case sw_cookie sw of
                            Some c \<Rightarrow> [(c, ENGINE_SYNC_WRITE_AMBIGUOUS)] | None \<Rightarrow> [])
                 (filter (\<lambda>sw. sw_isExpired sw asOf) tracked))"
    by blast
  have t: "dm_tracked (vb_durabilityMonitor vb') = filter (\<lambda>sw. \<not> sw_isExpired sw asOf) tracked"
    by (simp add: d dm_tracked_def)
  have f: "filter (\<lambda>sw. sw \<notin> set (dm_tracked (vb_durabilityMonitor vb'))) tracked =
           filter (\<lambda>sw. sw_isExpired sw asOf) tracked"
    unfolding t by (rule filter_cong) auto
  have 1: "\<forall>sw \<in> set tracked. \<forall>ms. req_timeout (sw_reqs sw) = Timeout_Millis ms \<longrightarrow>
        (sw \<in> set (dm_tracked (vb_durabilityMonitor vb')) \<longleftrightarrow> \<not> sw_start sw + ms \<le> asOf)"
    unfolding t by (auto simp: sw_isExpired_def)
  have 2: "\<forall>sw \<in> set tracked. req_timeout (sw_reqs sw) = Timeout_Infinity \<longrightarrow>
        sw \<in> set (dm_tracked (vb_durabilityMonitor vb'))"
    unfolding t by (auto simp: sw_isExpired_def)
  have 3: "set (dm_tracked (vb_durabilityMonitor vb')) \<subseteq> set tracked"
    unfolding t by auto
  have 4: "\<forall>sw \<in> set tracked. sw \<notin> set (dm_tracked (vb_durabilityMonitor vb')) \<longrightarrow>
        vb_ht vb' (sw_key sw) = None"
    unfolding t h by auto
  show ?thesis
    apply (rule exI [of _ vb'], rule exI [of _ items])
    unfolding f
    using r 1 2 3 4 c i s by (intro conjI)
qed

theorem processTimeout_aborts_expired_witness:
  "\<exists>vb' items.
     processDurabilityTimeout test_env 15000 test_vbucket = Inr vb' \<and>
     set (dm_tracked (vb_durabilityMonitor vb')) =
       {test_sync_write ''key203'' 203 Timeout_Infinity 3} \<and>
     vb_ht vb' ''key201'' = None \<and> vb_ht vb' ''key202'' = None \<and>
     vb_checkpoint vb' = items \<and>
     map abort_summary items =
       [(''key201'', Queue_abort_sync_write, 201, True),
        (''key202'', Queue_abort_sync_write, 202, True)] \<and>
     vb_syncWriteComplete vb' =
       [(1, ENGINE_SYNC_WRITE_AMBIGUOUS), (2, ENGINE_SYNC_WRITE_AMBIGUOUS)]"
proof -
  let ?a = "test_sync_write ''key201'' 201 (Timeout_Millis 20) 1"
  let ?b = "test_sync_write ''key202'' 202 (Timeout_Millis 1) 2"
  let ?c = "test_sync_write ''key203'' 203 Timeout_Infinity 3"
  have st: "vb_state test_vbucket = vbucket_state_active"
    by (simp add: test_vbucket_def new_vbucket_def)
  have dm: "vb_durabilityMonitor test_vbucket =
      ActiveDM [[Some ''active'', Some ''replica1'']] [?a, ?b, ?c]"
    by (simp add: test_vbucket_def)
  have tr: "tracked_in_ht test_vbucket [?a, ?b, ?c]"
    by (simp add: tracked_in_ht_def test_vbucket_def test_sync_write_def test_prepare_sv_def
        sv_of_item_def makePendingItem_def makeCommittedItem_def it_isPending_def)
  from processTimeout_aborts_expired [OF st dm tr, of test_env 15000] obtain vb' items where
    r: "processDurabilityTimeout test_env 15000 test_vbucket = Inr vb'"
    and p1: "\<forall>sw \<in> set [?a, ?b, ?c]. \<forall>ms. req_timeout (sw_reqs sw) = Timeout_Millis ms \<longrightarrow>
        (sw \<in> set (dm_tracked (vb_durabilityMonitor vb')) \<longleftrightarrow> \<not> sw_start sw + ms \<le> 15000)"
    and p2: "\<forall>sw \<in> set [?a, ?b, ?c]. req_timeout (sw_reqs sw) = Timeout_Infinity \<longrightarrow>
        sw \<in> set (dm_tracked (vb_durabilityMonitor vb'))"
    and p3: "set (dm_tracked (vb_durabilityMonitor vb')) \<subseteq> set [?a, ?b, ?c]"
    and p4: "\<forall>sw \<in> set [?a, ?b, ?c]. sw \<notin> set (dm_tracked (vb_durabilityMonitor vb')) \<longrightarrow>
        vb_ht vb' (sw_key sw) = None"
    and c: "vb_checkpoint vb' = vb_checkpoint test_vbucket @ items"
    and i: "map abort_summary items =
       map (\<lambda>sw. (sw_key sw, Queue_abort_sync_write, sw_seqno sw, True))
         (filter (\<lambda>sw. sw \<notin> set (dm_tracked (vb_durabilityMonitor vb'))) [?a, ?b, ?c])"
    and s: "vb_syncWriteComplete vb' = vb_syncWriteComplete test_vbucket @
       concat (map (\<lambda>sw. case sw_cookie sw of
                            Some c \<Rightarrow> [(c, ENGINE_SYNC_WRITE_AMBIGUOUS)] | None \<Rightarrow> [])
                 (filter (\<lambda>sw. sw \<notin> set (dm_tracked (vb_durabilityMonitor vb'))) [?a, ?b, ?c]))"
    by blast
  have na: "?a \<notin> set (dm_tracked (vb_durabilityMonitor vb'))"
    using p1 by (simp add: test_sync_write_def majority_reqs_def)
  have nb: "?b \<notin> set (dm_tracked (vb_durabilityMonitor vb'))"
    using p1 by (simp add: test_sync_write_def majority_reqs_def)
  have ic: "?c \<in> set (dm_tracked (vb_durabilityMonitor vb'))"
    using p2 by (simp add: test_sync_write_def majority_reqs_def)
  have S: "set (dm_tracked (vb_durabilityMonitor vb')) = {?c}"
    using p3 na nb ic by auto
  have h1: "vb_ht vb' ''key201'' = None"
    using p4 na by (simp add: test_sync_write_def)
  have h2: "vb_ht vb' ''key202'' = None"
    using p4 nb by (simp add: test_sync_write_def)
  have f: "filter (\<lambda>sw. sw \<notin> set (dm_tracked (vb_durabilityMonitor vb'))) [?a, ?b, ?c] = [?a, ?b]"
    using na nb ic by simp
  have c': "vb_checkpoint vb' = items"
    using c by (simp add: test_vbucket_def new_vbucket_def)
  have i': "map abort_summary items =
       [(''key201'', Queue_abort_sync_write, 201, True),
        (''key202'', Queue_abort_sync_write, 202, True)]"
    using i unfolding f by (simp add: test_sync_write_def)
  have s': "vb_syncWriteComplete vb' =
       [(1, ENGINE_SYNC_WRITE_AMBIGUOUS), (2, ENGINE_SYNC_WRITE_AMBIGUOUS)]"
    using s unfolding f by (simp add: test_sync_write_def test_vbucket_def new_vbucket_def)
  show ?thesis
    apply (rule exI [of _ vb'], rule exI [of _ items])
    using r S h1 h2 c' i' s' by (intro conjI)
qed

subsection \<open>The durability guard of the front-end writes\<close>

lemma isDurabilityPossible_iff:
  "isDurabilityPossible chs \<longleftrightarrow>
     (\<forall>c \<in> set chs. length c div 2 + 1 \<le> length (filter (\<lambda>n. n \<noteq> None) c))"
  by (simp add: isDurabilityPossible_def chain_isDurabilityPossible_def chain_majority_def
      chain_defined_def list_all_iff)

lemma guard_active:
  "vb_state vb = vbucket_state_active \<Longrightarrow> vb_durabilityMonitor vb = ActiveDM chs tracked \<Longrightarrow>
   activeDM_isDurabilityPossible vb = Inr (isDurabilityPossible chs)"
  by (simp add: activeDM_isDurabilityPossible_def getActiveDM_def)

lemma addTempItemAndBGFetch_code:
  "fst (addTempItemAndBGFetch env vb k cookie) \<noteq> ENGINE_DURABILITY_IMPOSSIBLE"
  by (simp add: addTempItemAndBGFetch_def split: prod.splits TempAddStatus.splits)

lemma finish_mutation_code:
  "ret \<noteq> c \<Longrightarrow> finish_mutation ret n v itm vb \<noteq> Inr (c, itm', vb')"
  by (auto simp: finish_mutation_def split: option.splits)

lemma set_switch_code:
  "set_switch env cookie cas_op status n v itm vb \<noteq> Inr (ENGINE_DURABILITY_IMPOSSIBLE, itm', vb')"
  using addTempItemAndBGFetch_code [of env vb "it_key itm" cookie]
  by (cases status)
     (auto simp: set_switch_def Let_def finish_mutation_code split: option.splits prod.splits)

lemma replace_switch_code:
  "replace_switch cookie status n v itm vb \<noteq> Inr (ENGINE_DURABILITY_IMPOSSIBLE, itm', vb')"
  by (cases status) (auto simp: replace_switch_def Let_def finish_mutation_code)

lemma add_switch_code:
  "add_switch env cookie status n v itm vb \<noteq> Inr (ENGINE_DURABILITY_IMPOSSIBLE, itm', vb')"
  using addTempItemAndBGFetch_code [of env vb "it_key itm" cookie]
  by (cases status)
     (auto simp: add_switch_def finish_mutation_code split: prod.splits)

lemma delete_switch_code:
  "delete_switch durable cas delrv v n vb \<noteq> Inr (ENGINE_DURABILITY_IMPOSSIBLE, cas', vb')"
  by (cases delrv) (auto simp: delete_switch_def Let_def split: option.splits)

lemma set_apply_code:
  "set_apply env vb itm cookie st \<noteq> Inr (ENGINE_DURABILITY_IMPOSSIBLE, itm', vb')"
  by (simp add: set_apply_def Let_def set_switch_code split: sum.splits prod.splits)

lemma replace_apply_code:
  "replace_apply env vb itm cookie st \<noteq> Inr (ENGINE_DURABILITY_IMPOSSIBLE, itm', vb')"
  using addTempItemAndBGFetch_code [of env vb "it_key itm" cookie]
  by (auto simp: replace_apply_def replace_switch_code split: sum.splits prod.splits option.splits)

lemma delete_apply_code:
  "delete_apply env vb v cas cookie d \<noteq> Inr (ENGINE_DURABILITY_IMPOSSIBLE, cas', vb')"
  by (simp add: delete_apply_def delete_switch_code split: sum.splits prod.splits)

lemma set_item_possible:
  assumes "(if it_isPending itm then activeDM_isDurabilityPossible vb else Inr True) = Inr True"
  shows "set_item env vb itm cookie predicate \<noteq> Inr (ENGINE_DURABILITY_IMPOSSIBLE, itm', vb')"
  by (simp add: set_item_def assms set_apply_code split: sum.splits)

lemma replace_item_possible:
  assumes "(if it_isPending itm then activeDM_isDurabilityPossible vb else Inr True) = Inr True"
  shows "replace_item env vb itm cookie predicate \<noteq> Inr (ENGINE_DURABILITY_IMPOSSIBLE, itm', vb')"
  by (simp add: replace_item_def assms replace_apply_code split: sum.splits)

lemma add_item_possible:
  assumes "(if it_isPending itm then activeDM_isDurabilityPossible vb else Inr True) = Inr True"
  shows "add_item env vb itm cookie \<noteq> Inr (ENGINE_DURABILITY_IMPOSSIBLE, itm', vb')"
  by (simp add: add_item_def assms Let_def add_switch_code split: sum.splits prod.splits)

lemma deleteItem_possible:
  assumes "(case durability of
              Some d \<Rightarrow> (if req_isValid d then activeDM_isDurabilityPossible vb else Inr True)
            | None \<Rightarrow> Inr True) = Inr True"
  shows "deleteItem env vb k cas cookie durability \<noteq> Inr (ENGINE_DURABILITY_IMPOSSIBLE, cas', vb')"
  using addTempItemAndBGFetch_code [of env vb k cookie]
  by (auto simp: deleteItem_def assms delete_apply_code split: option.splits prod.splits)

text \<open>
  C1. On an active vBucket, the durability-possible predicate holds exactly when every
  chain of the topology has at least \<open>majority = floor(chainSize/2)+1\<close> defined nodes. For an
  item that is a durable prepare, \<^verbatim>\<open>set\<close>, \<^verbatim>\<open>add\<close> and \<^verbatim>\<open>replace\<close> return
  \<^verbatim>\<open>DurabilityImpossible\<close> if and only if the predicate fails, and so does \<^verbatim>\<open>deleteItem\<close>
  given valid durability requirements; when the predicate fails the operation returns
  with the item and the vBucket unchanged, so nothing is queued or tracked.
\<close>

theorem durability_impossible_iff:
  assumes "vb_state vb = vbucket_state_active"
    and "vb_durabilityMonitor vb = ActiveDM chs tracked"
  shows
    "(isDurabilityPossible chs \<longleftrightarrow>
        (\<forall>c \<in> set chs. length c div 2 + 1 \<le> length (filter (\<lambda>n. n \<noteq> None) c))) \<and>
     (it_isPending itm \<longrightarrow>
        ((\<exists>itm' vb'. set_item env vb itm cookie predicate =
                        Inr (ENGINE_DURABILITY_IMPOSSIBLE, itm', vb')) \<longleftrightarrow>
           \<not> isDurabilityPossible chs) \<and>
        ((\<exists>itm' vb'. add_item env vb itm cookie =
                        Inr (ENGINE_DURABILITY_IMPOSSIBLE, itm', vb')) \<longleftrightarrow>
           \<not> isDurabilityPossible chs) \<and>
        ((\<exists>itm' vb'. replace_item env vb itm cookie predicate =
                        Inr (ENGINE_DURABILITY_IMPOSSIBLE, itm', vb')) \<longleftrightarrow>
           \<not> isDurabilityPossible chs) \<and>
        (\<not> isDurabilityPossible chs \<longrightarrow>
           set_item env vb itm cookie predicate = Inr (ENGINE_DURABILITY_IMPOSSIBLE, itm, vb) \<and>
           add_item env vb itm cookie = Inr (ENGINE_DURABILITY_IMPOSSIBLE, itm, vb) \<and>
           replace_item env vb itm cookie predicate =
             Inr (ENGINE_DURABILITY_IMPOSSIBLE, itm, vb))) \<and>
     (req_isValid d \<longrightarrow>
        ((\<exists>cas' vb'. deleteItem env vb k cas cookie (Some d) =
                        Inr (ENGINE_DURABILITY_IMPOSSIBLE, cas', vb')) \<longleftrightarrow>
           \<not> isDurabilityPossible chs) \<and>
        (\<not> isDurabilityPossible chs \<longrightarrow>
           deleteItem env vb k cas cookie (Some d) =
             Inr (ENGINE_DURABILITY_IMPOSSIBLE, cas, vb)))"
proof -
  note g = guard_active [OF assms]
  have imp_set: "\<not> isDurabilityPossible chs \<Longrightarrow> it_isPending itm \<Longrightarrow>
      set_item env vb itm cookie predicate = Inr (ENGINE_DURABILITY_IMPOSSIBLE, itm, vb)"
    by (simp add: set_item_def g)
  have imp_add: "\<not> isDurabilityPossible chs \<Longrightarrow> it_isPending itm \<Longrightarrow>
      add_item env vb itm cookie = Inr (ENGINE_DURABILITY_IMPOSSIBLE, itm, vb)"
    by (simp add: add_item_def g)
  have imp_rep: "\<not> isDurabilityPossible chs \<Longrightarrow> it_isPending itm \<Longrightarrow>
      replace_item env vb itm cookie predicate = Inr (ENGINE_DURABILITY_IMPOSSIBLE, itm, vb)"
    by (simp add: replace_item_def g)
  have imp_del: "\<not> isDurabilityPossible chs \<Longrightarrow> req_isValid d \<Longrightarrow>
      deleteItem env vb k cas cookie (Some d) = Inr (ENGINE_DURABILITY_IMPOSSIBLE, cas, vb)"
    by (simp add: deleteItem_def g)
  have pos: "isDurabilityPossible chs \<Longrightarrow>
      (if it_isPending itm then activeDM_isDurabilityPossible vb else Inr True) = Inr True"
    by (simp add: g)
  have pos_del: "isDurabilityPossible chs \<Longrightarrow>
      (case Some d of
              Some d \<Rightarrow> (if req_isValid d then activeDM_isDurabilityPossible vb else Inr True)
            | None \<Rightarrow> Inr True) = Inr True"
    by (simp add: g)
  have pos_set: "isDurabilityPossible chs \<Longrightarrow>
      \<not> (\<exists>itm' vb'. set_item env vb itm cookie predicate =
                        Inr (ENGINE_DURABILITY_IMPOSSIBLE, itm', vb'))"
    using set_item_possible [OF pos] by blast
  have pos_add: "isDurabilityPossible chs \<Longrightarrow>
      \<not> (\<exists>itm' vb'. add_item env vb itm cookie =
                        Inr (ENGINE_DURABILITY_IMPOSSIBLE, itm', vb'))"
    using add_item_possible [OF pos] by blast
  have pos_rep: "isDurabilityPossible chs \<Longrightarrow>
      \<not> (\<exists>itm' vb'. replace_item env vb itm cookie predicate =
                        Inr (ENGINE_DURABILITY_IMPOSSIBLE, itm', vb'))"
    using replace_item_possible [OF pos] by blast
  have pos_delete: "isDurabilityPossible chs \<Longrightarrow>
      \<not> (\<exists>cas' vb'. deleteItem env vb k cas cookie (Some d) =
                        Inr (ENGINE_DURABILITY_IMPOSSIBLE, cas', vb'))"
    using deleteItem_possible [OF pos_del] by blast
  show ?thesis
    using isDurabilityPossible_iff [of chs] imp_set imp_add imp_rep imp_del
      pos_set pos_add pos_rep pos_delete
    by blast
qed

theorem durability_impossible_iff_witness:
  "\<not> isDurabilityPossible [[Some ''active'', None]] \<and>
   isDurabilityPossible [[Some ''active'', Some ''replica1'']] \<and>
   set_item test_env test_vbucket_undefined_replica
     (makePendingItem ''key'' ''value'' (majority_reqs Timeout_Infinity)) (Some 1) None =
     Inr (ENGINE_DURABILITY_IMPOSSIBLE,
          makePendingItem ''key'' ''value'' (majority_reqs Timeout_Infinity),
          test_vbucket_undefined_replica) \<and>
   add_item test_env test_vbucket_undefined_replica
     (makePendingItem ''key'' ''value'' (majority_reqs Timeout_Infinity)) (Some 1) =
     Inr (ENGINE_DURABILITY_IMPOSSIBLE,
          makePendingItem ''key'' ''value'' (majority_reqs Timeout_Infinity),
          test_vbucket_undefined_replica) \<and>
   replace_item test_env test_vbucket_undefined_replica
     (makePendingItem ''key'' ''value'' (majority_reqs Timeout_Infinity)) (Some 1) None =
     Inr (ENGINE_DURABILITY_IMPOSSIBLE,
          makePendingItem ''key'' ''value'' (majority_reqs Timeout_Infinity),
          test_vbucket_undefined_replica) \<and>
   deleteItem test_env test_vbucket_undefined_replica ''key7'' 0 (Some 1)
     (Some (majority_reqs Timeout_Infinity)) =
     Inr (ENGINE_DURABILITY_IMPOSSIBLE, 0, test_vbucket_undefined_replica) \<and>
   \<not> (\<exists>itm' vb'. set_item test_env test_vbucket
          (makePendingItem ''key'' ''value'' (majority_reqs Timeout_Infinity)) (Some 1) None =
          Inr (ENGINE_DURABILITY_IMPOSSIBLE, itm', vb'))"
proof -
  have a: "vb_state test_vbucket_undefined_replica = vbucket_state_active"
    by (simp add: test_vbucket_undefined_replica_def test_vbucket_def new_vbucket_def)
  have b: "vb_durabilityMonitor test_vbucket_undefined_replica =
             ActiveDM [[Some ''active'', None]] []"
    by (simp add: test_vbucket_undefined_replica_def)
  have a': "vb_state test_vbucket = vbucket_state_active"
    by (simp add: test_vbucket_def new_vbucket_def)
  have b': "vb_durabilityMonitor test_vbucket =
      ActiveDM [[Some ''active'', Some ''replica1'']]
            [test_sync_write ''key201'' 201 (Timeout_Millis 20) 1,
             test_sync_write ''key202'' 202 (Timeout_Millis 1) 2,
             test_sync_write ''key203'' 203 Timeout_Infinity 3]"
    by (simp add: test_vbucket_def)
  have p: "it_isPending (makePendingItem ''key'' ''value'' (majority_reqs Timeout_Infinity))"
    by (simp add: makePendingItem_def it_isPending_def)
  have v: "req_isValid (majority_reqs Timeout_Infinity)"
    by (simp add: req_isValid_def majority_reqs_def)
  show ?thesis
    using durability_impossible_iff [OF a b,
        of "makePendingItem ''key'' ''value'' (majority_reqs Timeout_Infinity)" test_env
           "Some 1" None "majority_reqs Timeout_Infinity" "''key7''" 0]
      durability_impossible_iff [OF a' b',
        of "makePendingItem ''key'' ''value'' (majority_reqs Timeout_Infinity)" test_env
           "Some 1" None "majority_reqs Timeout_Infinity" "''key7''" 0]
      p v
    by simp
qed

subsection \<open>The CAS policy of set\<close>

lemma processSet_NoMem:
  "\<not> hasMemoryForStoredValue env vb itm UseActiveVBMemThreshold_No \<Longrightarrow>
   processSet env vb v itm cas ae hm ctx st mke = Inr (NoMem, None, v, itm, vb)"
  by (simp add: processSet_def)

lemma processSet_to_existing:
  assumes "hasMemoryForStoredValue env vb itm UseActiveVBMemThreshold_No"
    and "\<not> (vb_eviction vb = Eviction_Full \<and> mke \<and> (cas \<noteq> 0 \<or> st = StoreIf_GetItemInfo) \<and>
            sv_isTempInitialItem v)"
    and "\<not> (sv_isExpired v (env_real_time env) \<and> \<not> hm \<and> \<not> it_deleted itm)"
  shows "processSet env vb (Some v) itm cas ae hm ctx st mke =
         processSet_existing env vb v itm cas ae hm ctx"
  using assms by (auto simp: processSet_def)

lemma processSet_expired_cas:
  assumes "hasMemoryForStoredValue env vb itm UseActiveVBMemThreshold_No"
    and "\<not> (vb_eviction vb = Eviction_Full \<and> mke \<and> sv_isTempInitialItem v)"
    and "sv_isExpired v (env_real_time env) \<and> \<not> it_deleted itm" and "cas \<noteq> 0"
    and "\<not> sv_isLocked v (env_current_time env)"
  shows "processSet env vb (Some v) itm cas ae False ctx st mke =
           Inr (NotFound, None, Some v, itm, vb)"
  using assms by (auto simp: processSet_def Let_def)

lemma processSet_existing_cas_mismatch:
  assumes "\<not> sv_isLocked v (env_current_time env)" "cas \<noteq> 0" "cas \<noteq> sv_cas v"
  shows "processSet_existing env vb v itm cas True hm ctx =
           Inr (if sv_isTempNonExistentItem v then NotFound
                else if (sv_isTempDeletedItem v \<or> sv_deleted v) \<and> \<not> it_deleted itm then NotFound
                else InvalidCas, None, Some v, itm, vb)"
  using assms by (simp add: processSet_existing_def)

lemma updateStoredValue_status:
  "updateStoredValue env vb v itm ctx = Inr (v2, status, n, vb2) \<Longrightarrow>
   status = WasClean \<or> status = WasDirty \<or> status = IsPendingSyncWrite"
  by (auto simp: updateStoredValue_def Let_def split: if_splits sum.splits)

lemma processSet_existing_IsLocked:
  "processSet_existing env vb v itm cas ae hm ctx = Inr (IsLocked, n, v2, itm2, vb2) \<Longrightarrow>
   sv_isLocked v (env_current_time env)"
  by (auto simp: processSet_existing_def Let_def split: if_splits sum.splits
      dest: updateStoredValue_status)

lemma sv_unlock_not_locked [simp]: "\<not> sv_isLocked (sv_unlock v) t"
  by (simp add: sv_isLocked_def sv_unlock_def)

lemma processSet_IsLocked:
  "processSet env vb v itm cas ae hm ctx st mke = Inr (IsLocked, n, v2, itm2, vb2) \<Longrightarrow>
   \<exists>sv. v = Some sv \<and> sv_isLocked sv (env_current_time env) \<and>
        \<not> (sv_isExpired sv (env_real_time env) \<and> \<not> hm \<and> \<not> it_deleted itm)"
  apply (simp add: processSet_def Let_def split: if_splits option.splits sum.splits)
   apply (auto dest: processSet_existing_IsLocked)
  done

lemma unlock_if_not_active_unlocked:
  "\<not> sv_isLocked v (env_current_time env) \<Longrightarrow> unlock_if_not_active env vb v = (v, vb)"
  by (simp add: unlock_if_not_active_def)

lemma set_apply_cas_mismatch:
  assumes f: "findForWrite vb (it_key itm) = Some v"
    and nl: "\<not> sv_isLocked v (env_current_time env)"
    and c0: "it_cas itm \<noteq> 0" and cm: "it_cas itm \<noteq> sv_cas v"
    and mem: "hasMemoryForStoredValue env vb itm UseActiveVBMemThreshold_No"
    and nobg: "\<not> (vb_eviction vb = Eviction_Full \<and> sv_isTempInitialItem v \<and>
                   maybeKeyExistsInFilter env (it_key itm))"
  shows "set_apply env vb itm cookie st = Inr (cas_mismatch_code env v itm, itm, vb)"
proof -
  define mke where "mke =
            (if (case Some v of None \<Rightarrow> True | Some sv \<Rightarrow> sv_isTempInitialItem sv) \<and>
                vb_eviction vb = Eviction_Full \<and>
                (it_cas itm \<noteq> 0 \<or> st = StoreIf_GetItemInfo) \<and>
                \<not> maybeKeyExistsInFilter env (it_key itm)
             then False else True)"
  have nb: "\<not> (vb_eviction vb = Eviction_Full \<and> mke \<and> sv_isTempInitialItem v)"
    using nobg c0 by (auto simp: mke_def)
  have sa: "set_apply env vb itm cookie st =
        (case processSet env vb (Some v) itm (it_cas itm) True False (item_queue_ctx itm cookie)
                st mke of
           Inl e \<Rightarrow> Inl e
         | Inr (status, notifyCtx, v2, itm2, vb2) \<Rightarrow>
             set_switch env cookie True status notifyCtx v2 itm2 vb2)"
    using f c0 by (simp add: set_apply_def unlock_if_not_active_unlocked [OF nl] mke_def)
  show ?thesis
  proof (cases "sv_isExpired v (env_real_time env) \<and> \<not> it_deleted itm")
    case True
    then have "processSet env vb (Some v) itm (it_cas itm) True False
                 (item_queue_ctx itm cookie) st mke = Inr (NotFound, None, Some v, itm, vb)"
      by (rule processSet_expired_cas [OF mem nb _ c0 nl])
    with True show ?thesis
      by (simp add: sa set_switch_def cas_mismatch_code_def)
  next
    case False
    then have "processSet env vb (Some v) itm (it_cas itm) True False
                 (item_queue_ctx itm cookie) st mke =
               processSet_existing env vb v itm (it_cas itm) True False
                 (item_queue_ctx itm cookie)"
      by (intro processSet_to_existing [OF mem]) (use nb in auto)
    with False show ?thesis
      by (auto simp: sa processSet_existing_cas_mismatch [OF nl c0 cm] set_switch_def
          cas_mismatch_code_def)
  qed
qed

text \<open>
  C4 (as amended). For \<^verbatim>\<open>set\<close> on an existing, unlocked stored value with a non-zero CAS
  that does not match the value's CAS, when the durability guard and the predicate let
  the write through, memory admission passes and no background fetch is needed: the
  operation returns \<^verbatim>\<open>KeyEnoent\<close> if the value is expired and the incoming item is not a
  delete, if the value is a temp-non-existent marker, or if the value is temp-deleted or
  deleted and the incoming item is not itself a delete; in every other case it returns
  \<^verbatim>\<open>KeyEexists\<close>; and in all these cases the item and the vBucket, the stored value
  included, are unchanged.
\<close>

theorem set_cas_mismatch:
  assumes "findForWrite vb (it_key itm) = Some v"
    and "\<not> sv_isLocked v (env_current_time env)"
    and "it_cas itm \<noteq> 0" and "it_cas itm \<noteq> sv_cas v"
    and "(if it_isPending itm then activeDM_isDurabilityPossible vb else Inr True) = Inr True"
    and "store_if vb predicate (Some v) = Inr st" and "\<not> (predicate \<noteq> None \<and> st = StoreIf_Fail)"
    and "hasMemoryForStoredValue env vb itm UseActiveVBMemThreshold_No"
    and "\<not> (vb_eviction vb = Eviction_Full \<and> sv_isTempInitialItem v \<and>
            maybeKeyExistsInFilter env (it_key itm))"
  shows "set_item env vb itm cookie predicate =
           Inr (if sv_isExpired v (env_real_time env) \<and> \<not> it_deleted itm then ENGINE_KEY_ENOENT
                else if sv_isTempNonExistentItem v then ENGINE_KEY_ENOENT
                else if (sv_isTempDeletedItem v \<or> sv_deleted v) \<and> \<not> it_deleted itm
                then ENGINE_KEY_ENOENT
                else ENGINE_KEY_EEXISTS, itm, vb)"
  using assms(5,6,7) set_apply_cas_mismatch [OF assms(1,2,3,4,8,9), of cookie st]
  by (simp add: set_item_def assms(1) cas_mismatch_code_def)

lemma test_env_has_memory:
  "hasMemoryForStoredValue test_env vb itm u"
  by (simp add: hasMemoryForStoredValue_def test_env_def to_double_numeral)

lemma test_vbucket_key7:
  "findForWrite test_vbucket ''key7'' = Some test_committed_sv"
  by (simp add: findForWrite_def test_vbucket_def test_committed_sv_def)

theorem set_cas_mismatch_witness:
  "set_item test_env test_vbucket test_cas_item None None =
     Inr (ENGINE_KEY_EEXISTS, test_cas_item, test_vbucket)"
proof -
  have k: "it_key test_cas_item = ''key7''"
    by (simp add: test_cas_item_def makeCommittedItem_def)
  have f: "findForWrite test_vbucket (it_key test_cas_item) = Some test_committed_sv"
    by (simp add: k test_vbucket_key7)
  have nl: "\<not> sv_isLocked test_committed_sv (env_current_time test_env)"
    by (simp add: sv_isLocked_def test_committed_sv_def sv_of_item_def)
  have c0: "it_cas test_cas_item \<noteq> 0"
    by (simp add: test_cas_item_def)
  have cm: "it_cas test_cas_item \<noteq> sv_cas test_committed_sv"
    by (simp add: test_cas_item_def test_committed_sv_def sv_of_item_def makeCommittedItem_def)
  have g: "(if it_isPending test_cas_item then activeDM_isDurabilityPossible test_vbucket
            else Inr True) = Inr True"
    by (simp add: it_isPending_def test_cas_item_def makeCommittedItem_def)
  have p: "store_if test_vbucket None (Some test_committed_sv) = Inr StoreIf_Continue"
    by (simp add: store_if_def)
  have p': "\<not> (None \<noteq> (None :: (StoredValue option \<Rightarrow> StoreIfStatus) option) \<and>
               StoreIf_Continue = StoreIf_Fail)"
    by simp
  have nobg: "\<not> (vb_eviction test_vbucket = Eviction_Full \<and>
                  sv_isTempInitialItem test_committed_sv \<and>
                  maybeKeyExistsInFilter test_env (it_key test_cas_item))"
    by (simp add: test_vbucket_def new_vbucket_def)
  show ?thesis
    using set_cas_mismatch [OF f nl c0 cm g p p' test_env_has_memory nobg, of None]
    by (simp add: sv_isExpired_def test_committed_sv_def sv_of_item_def makeCommittedItem_def
        sv_isTempNonExistentItem_def sv_isTempDeletedItem_def temp_of_bySeqno_def
        state_temp_init_def)
qed

text \<open>
  The claim as first stated gives \<^verbatim>\<open>KeyEexists\<close> for every mismatch on a value that is
  neither a temp marker nor deleted. A live value whose expiry time has passed is such a
  value, and \<^verbatim>\<open>set\<close> with a mismatching CAS returns \<^verbatim>\<open>KeyEnoent\<close> for it: \<^verbatim>\<open>processSet\<close>
  denies a CAS operation on an expired value before it looks at the CAS.
\<close>

theorem set_cas_mismatch_expired_counterexample:
  "findForWrite test_vbucket_expired (it_key test_cas_item) = Some test_expired_sv \<and>
   \<not> sv_isLocked test_expired_sv (env_current_time test_env) \<and>
   it_cas test_cas_item \<noteq> 0 \<and> it_cas test_cas_item \<noteq> sv_cas test_expired_sv \<and>
   \<not> sv_isTempNonExistentItem test_expired_sv \<and> \<not> sv_isTempDeletedItem test_expired_sv \<and>
   \<not> sv_deleted test_expired_sv \<and>
   set_item test_env test_vbucket_expired test_cas_item None None =
     Inr (ENGINE_KEY_ENOENT, test_cas_item, test_vbucket_expired)"
proof -
  have k: "it_key test_cas_item = ''key7''"
    by (simp add: test_cas_item_def makeCommittedItem_def)
  have f: "findForWrite test_vbucket_expired (it_key test_cas_item) = Some test_expired_sv"
    by (simp add: k findForWrite_def test_vbucket_expired_def)
  have nl: "\<not> sv_isLocked test_expired_sv (env_current_time test_env)"
    by (simp add: sv_isLocked_def test_expired_sv_def test_committed_sv_def sv_of_item_def)
  have c0: "it_cas test_cas_item \<noteq> 0"
    by (simp add: test_cas_item_def)
  have cm: "it_cas test_cas_item \<noteq> sv_cas test_expired_sv"
    by (simp add: test_cas_item_def test_expired_sv_def)
  have t: "\<not> sv_isTempNonExistentItem test_expired_sv \<and> \<not> sv_isTempDeletedItem test_expired_sv \<and>
           \<not> sv_deleted test_expired_sv \<and> \<not> sv_isTempInitialItem test_expired_sv"
    by (simp add: test_expired_sv_def test_committed_sv_def sv_of_item_def makeCommittedItem_def
        sv_isTempNonExistentItem_def sv_isTempDeletedItem_def sv_isTempInitialItem_def
        temp_of_bySeqno_def state_temp_init_def)
  have e: "sv_isExpired test_expired_sv (env_real_time test_env) \<and> \<not> it_deleted test_cas_item"
    by (simp add: sv_isExpired_def test_expired_sv_def test_env_def test_cas_item_def
        makeCommittedItem_def)
  have nobg: "\<not> (vb_eviction test_vbucket_expired = Eviction_Full \<and>
                  sv_isTempInitialItem test_expired_sv \<and>
                  maybeKeyExistsInFilter test_env (it_key test_cas_item))"
    using t by simp
  have "set_apply test_env test_vbucket_expired test_cas_item None StoreIf_Continue =
          Inr (ENGINE_KEY_ENOENT, test_cas_item, test_vbucket_expired)"
    using set_apply_cas_mismatch [OF f nl c0 cm test_env_has_memory nobg, of None StoreIf_Continue]
      e by (simp add: cas_mismatch_code_def)
  then have "set_item test_env test_vbucket_expired test_cas_item None None =
     Inr (ENGINE_KEY_ENOENT, test_cas_item, test_vbucket_expired)"
    by (simp add: set_item_def store_if_def it_isPending_def test_cas_item_def
        makeCommittedItem_def)
  with f nl c0 cm t show ?thesis by simp
qed

subsection \<open>Replication topology\<close>

lemma one_le_length: "(Suc 0 \<le> length xs) = (xs \<noteq> [])"
  by (cases xs) simp_all

lemma validate_nodes_Suc:
  "validate_nodes cid (Suc i) ns = None \<longleftrightarrow> list_all (\<lambda>n. is_null n \<or> is_string n) ns"
  by (induction ns arbitrary: i) (auto simp: is_null_def is_string_def split: json.splits)

lemma validate_nodes_0:
  "validate_nodes cid 0 ns = None \<longleftrightarrow>
     ns = [] \<or> (is_string (hd ns) \<and> list_all (\<lambda>n. is_null n \<or> is_string n) (tl ns))"
  by (cases ns) (auto simp: validate_nodes_Suc is_null_def is_string_def split: json.splits)

lemma topology_chain_shape_array:
  "topology_chain_shape (Json_array nodes) \<longleftrightarrow>
     nodes \<noteq> [] \<and> length nodes \<le> 4 \<and> validate_nodes cid 0 nodes = None"
  by (auto simp: topology_chain_shape_def validate_nodes_0 one_le_length)

lemma topology_chain_shape_other:
  "c \<noteq> Json_array (case c of Json_array nodes \<Rightarrow> nodes | _ \<Rightarrow> []) \<Longrightarrow> \<not> topology_chain_shape c"
  by (cases c) (simp_all add: topology_chain_shape_def)

lemma validate_chains_iff:
  "validate_chains cid cs = None \<longleftrightarrow> list_all topology_chain_shape cs"
proof (induction cs arbitrary: cid)
  case Nil
  show ?case by simp
next
  case (Cons c cs)
  show ?case
  proof (cases c)
    case (Json_array nodes)
    then show ?thesis
      using Cons.IH [of "Suc cid"] topology_chain_shape_array [of nodes cid]
      by (auto split: option.splits)
  qed (simp_all add: topology_chain_shape_def)
qed

lemma validateReplicationTopology_iff:
  "validateReplicationTopology t = None \<longleftrightarrow> topology_shape t"
  by (cases t)
    (auto simp: validateReplicationTopology_def topology_shape_def validate_chains_iff
      one_le_length)

lemma setState_rejects:
  assumes "\<not> topology_shape t"
  shows "setState_UNLOCKED vbucket_state_active (Json_object [(''topology'', t)]) vb = (Some Invalid_argument, vb)"
  using assms validateReplicationTopology_iff [of t]
  by (simp add: setState_UNLOCKED_def validateSetStateMeta_def is_null_def)

lemma json_to_nodes_mem:
  "json_to_nodes ns = Some c \<Longrightarrow> (Json_string s \<in> set ns) = (Some s \<in> set c)"
  by (induction ns arbitrary: c)
     (auto simp: json_to_node_def split: json.splits option.splits)

lemma json_to_nodes_distinct:
  "json_to_nodes ns = Some c \<Longrightarrow>
     distinct (filter is_string ns) = distinct (filter (\<lambda>n. n \<noteq> None) c)"
proof (induction ns arbitrary: c)
  case Nil
  then show ?case by simp
next
  case (Cons j js)
  then show ?case
    using json_to_nodes_mem [of js]
    by (auto simp: json_to_node_def is_string_def split: json.splits option.splits)
qed

lemma json_to_nodes_shape:
  "list_all (\<lambda>n. is_null n \<or> is_string n) ns \<Longrightarrow>
     \<exists>c. json_to_nodes ns = Some c \<and> length c = length ns"
  by (induction ns) (auto simp: json_to_node_def is_null_def is_string_def split: json.splits)

lemma json_to_nodes_hd:
  "json_to_nodes ns = Some c \<Longrightarrow> ns \<noteq> [] \<Longrightarrow> is_string (hd ns) \<Longrightarrow> c \<noteq> [] \<and> hd c \<noteq> None"
  by (cases ns) (auto simp: json_to_node_def is_string_def split: json.splits option.splits)

lemma chain_shape_valid:
  assumes "topology_chain_shape (Json_array ns)" and "distinct (filter is_string ns)"
  shows "\<exists>c. json_to_nodes ns = Some c \<and> chain_valid c"
proof -
  from assms(1) have ne: "ns \<noteq> []" and le: "length ns \<le> 4" and h: "is_string (hd ns)"
    and t: "list_all (\<lambda>n. is_null n \<or> is_string n) (tl ns)"
    by (auto simp: topology_chain_shape_def one_le_length)
  from ne h t have "list_all (\<lambda>n. is_null n \<or> is_string n) ns"
    by (cases ns) auto
  then obtain c where c: "json_to_nodes ns = Some c" "length c = length ns"
    using json_to_nodes_shape by blast
  have "chain_valid c"
    using json_to_nodes_hd [OF c(1) ne h] json_to_nodes_distinct [OF c(1)] assms(2) le c(2)
    by (simp add: chain_valid_def)
  with c(1) show ?thesis by blast
qed

lemma chains_shape_valid:
  "list_all topology_chain_shape elems \<Longrightarrow>
   list_all (\<lambda>c. case c of Json_array nodes \<Rightarrow> distinct (filter is_string nodes) | _ \<Rightarrow> True) elems \<Longrightarrow>
   \<exists>chs. json_to_chains elems = Some chs \<and> length chs = length elems \<and> list_all chain_valid chs"
proof (induction elems)
  case Nil
  then show ?case by simp
next
  case (Cons e es)
  from Cons.prems(1) obtain ns where e: "e = Json_array ns"
    by (cases e) (auto simp: topology_chain_shape_def)
  from Cons.prems e obtain c where c: "json_to_nodes ns = Some c" "chain_valid c"
    using chain_shape_valid [of ns] by auto
  from Cons obtain chs where "json_to_chains es = Some chs" "length chs = length es" "list_all chain_valid chs"
    by auto
  with c e show ?case by simp
qed

lemma adm_accepts:
  assumes "topology_shape t" and "topology_no_duplicates t"
  shows "\<exists>chs. adm_setReplicationTopology t (ActiveDM old tracked) = Inr (ActiveDM chs tracked)"
proof -
  from assms(1) obtain elems where t: "t = Json_array elems" and
    len: "elems \<noteq> []" "length elems \<le> 2" and sh: "list_all topology_chain_shape elems"
    by (cases t) (auto simp: topology_shape_def one_le_length)
  from assms(2) t have
    "list_all (\<lambda>c. case c of Json_array nodes \<Rightarrow> distinct (filter is_string nodes) | _ \<Rightarrow> True) elems"
    by (simp add: topology_no_duplicates_def)
  with sh obtain chs where "json_to_chains elems = Some chs" "length chs = length elems"
    "list_all chain_valid chs"
    using chains_shape_valid by blast
  with t len show ?thesis
    by (auto simp: adm_setReplicationTopology_def)
qed

lemma setState_accepts:
  assumes "topology_shape t" and "topology_no_duplicates t" and "dm_fits_state vb"
  shows "fst (setState_UNLOCKED vbucket_state_active (Json_object [(''topology'', t)]) vb) = None \<and>
         vb_replicationTopology (snd (setState_UNLOCKED vbucket_state_active (Json_object [(''topology'', t)]) vb)) = t \<and>
         vb_state (snd (setState_UNLOCKED vbucket_state_active (Json_object [(''topology'', t)]) vb)) = vbucket_state_active"
proof -
  have v: "validateReplicationTopology t = None"
    using assms(1) by (simp add: validateReplicationTopology_iff)
  have nn: "\<not> is_null t"
    using assms(1) by (cases t) (simp_all add: topology_shape_def is_null_def)
  show ?thesis
  proof (cases "vb_durabilityMonitor vb")
    case (ActiveDM old tracked)
    with assms(3) have st: "vb_state vb \<noteq> vbucket_state_replica" "vb_state vb \<noteq> vbucket_state_pending"
      by (auto simp: dm_fits_state_def split: if_splits)
    obtain chs where "adm_setReplicationTopology t (ActiveDM [] []) = Inr (ActiveDM chs [])"
      using adm_accepts [OF assms(1,2)] by blast
    then show ?thesis
      using v nn st
      by (simp add: setState_UNLOCKED_def validateSetStateMeta_def is_null_def json_at_def
          setupSyncReplication_def Let_def)
  next
    case (PassiveDM tracked)
    obtain chs where a: "adm_setReplicationTopology t (ActiveDM [] tracked) = Inr (ActiveDM chs tracked)"
      using adm_accepts [OF assms(1,2)] by blast
    obtain chs' where b: "adm_setReplicationTopology t (ActiveDM [] []) = Inr (ActiveDM chs' [])"
      using adm_accepts [OF assms(1,2)] by blast
    show ?thesis
      using v nn a b PassiveDM
      by (simp add: setState_UNLOCKED_def validateSetStateMeta_def is_null_def json_at_def
          setupSyncReplication_def Let_def)
  qed
qed

lemma chain_valid_iff:
  assumes "topology_chain_shape (Json_array ns)"
  shows "\<exists>c. json_to_nodes ns = Some c \<and> (chain_valid c \<longleftrightarrow> distinct (filter is_string ns))"
proof -
  from assms have ne: "ns \<noteq> []" and le: "length ns \<le> 4" and h: "is_string (hd ns)"
    and t: "list_all (\<lambda>n. is_null n \<or> is_string n) (tl ns)"
    by (auto simp: topology_chain_shape_def one_le_length)
  from ne h t have "list_all (\<lambda>n. is_null n \<or> is_string n) ns"
    by (cases ns) auto
  then obtain c where c: "json_to_nodes ns = Some c" "length c = length ns"
    using json_to_nodes_shape by blast
  have "chain_valid c \<longleftrightarrow> distinct (filter is_string ns)"
    using json_to_nodes_hd [OF c(1) ne h] json_to_nodes_distinct [OF c(1)] le c(2)
    by (simp add: chain_valid_def)
  with c(1) show ?thesis by blast
qed

lemma chains_valid_iff:
  "list_all topology_chain_shape elems \<Longrightarrow>
   \<exists>chs. json_to_chains elems = Some chs \<and> length chs = length elems \<and>
         (list_all chain_valid chs \<longleftrightarrow>
          list_all (\<lambda>c. case c of Json_array nodes \<Rightarrow> distinct (filter is_string nodes)
                               | _ \<Rightarrow> True) elems)"
proof (induction elems)
  case Nil
  then show ?case by simp
next
  case (Cons e es)
  from Cons.prems obtain ns where e: "e = Json_array ns"
    by (cases e) (auto simp: topology_chain_shape_def)
  from Cons.prems e obtain c where
    c: "json_to_nodes ns = Some c" "chain_valid c \<longleftrightarrow> distinct (filter is_string ns)"
    using chain_valid_iff [of ns] by auto
  from Cons obtain chs where "json_to_chains es = Some chs" "length chs = length es"
    "list_all chain_valid chs \<longleftrightarrow>
       list_all (\<lambda>c. case c of Json_array nodes \<Rightarrow> distinct (filter is_string nodes)
                            | _ \<Rightarrow> True) es"
    by auto
  with c e show ?case by simp
qed

lemma adm_refuses_duplicates:
  assumes "topology_shape t" and "\<not> topology_no_duplicates t"
  shows "adm_setReplicationTopology t (ActiveDM old tracked) = Inl Invalid_argument"
proof -
  from assms(1) obtain elems where t: "t = Json_array elems" and
    sh: "list_all topology_chain_shape elems"
    by (cases t) (auto simp: topology_shape_def)
  from assms(2) t have
    "\<not> list_all (\<lambda>c. case c of Json_array nodes \<Rightarrow> distinct (filter is_string nodes)
                           | _ \<Rightarrow> True) elems"
    by (simp add: topology_no_duplicates_def)
  with chains_valid_iff [OF sh] obtain chs where
    "json_to_chains elems = Some chs" "\<not> list_all chain_valid chs"
    by blast
  with t show ?thesis
    by (simp add: adm_setReplicationTopology_def)
qed

lemma adm_installs_chains:
  assumes "topology_shape t" and "topology_no_duplicates t"
  shows "\<exists>chs. adm_setReplicationTopology t (ActiveDM old tracked) = Inr (ActiveDM chs tracked) \<and>
           topology_chains t = Some chs"
proof -
  from assms(1) obtain elems where t: "t = Json_array elems" and
    len: "elems \<noteq> []" "length elems \<le> 2" and sh: "list_all topology_chain_shape elems"
    by (cases t) (auto simp: topology_shape_def one_le_length)
  from assms(2) t have
    "list_all (\<lambda>c. case c of Json_array nodes \<Rightarrow> distinct (filter is_string nodes) | _ \<Rightarrow> True) elems"
    by (simp add: topology_no_duplicates_def)
  with sh obtain chs where "json_to_chains elems = Some chs" "length chs = length elems"
    "list_all chain_valid chs"
    using chains_shape_valid by blast
  with t len show ?thesis
    by (auto simp: adm_setReplicationTopology_def topology_chains_def)
qed

lemma setState_to_setup:
  assumes "topology_shape t"
  shows "setState_UNLOCKED vbucket_state_active (Json_object [(''topology'', t)]) vb =
         setupSyncReplication t (Some (vb_state vb))
           ((if vb_openCheckpointId vb < 2 then vb\<lparr>vb_openCheckpointId := 2\<rparr> else vb)
              \<lparr>vb_state := vbucket_state_active\<rparr>)"
  using assms validateReplicationTopology_iff [of t]
  by (simp add: setState_UNLOCKED_def validateSetStateMeta_def is_null_def json_at_def Let_def)

lemma setState_shape:
  assumes sh: "topology_shape t" and fit: "dm_fits_state vb"
  shows "\<exists>tracked vb1.
           vb_replicationTopology vb1 = t \<and> vb_state vb1 = vbucket_state_active \<and>
           vb_durabilityMonitor vb1 = ActiveDM [] tracked \<and>
           setState_UNLOCKED vbucket_state_active (Json_object [(''topology'', t)]) vb =
             (case adm_setReplicationTopology t (ActiveDM [] tracked) of
                Inl e \<Rightarrow> (Some e, vb1)
              | Inr dm \<Rightarrow> (None, vb1\<lparr>vb_durabilityMonitor := dm\<rparr>))"
proof -
  have v: "validateReplicationTopology t = None"
    using sh by (simp add: validateReplicationTopology_iff)
  have nn: "\<not> is_null t"
    using sh by (cases t) (simp_all add: topology_shape_def is_null_def)
  define vb0 where "vb0 = ((if vb_openCheckpointId vb < 2 then vb\<lparr>vb_openCheckpointId := 2\<rparr>
                            else vb)\<lparr>vb_state := vbucket_state_active,
                                      vb_replicationTopology := t\<rparr>)"
  show ?thesis
  proof (cases "vb_durabilityMonitor vb")
    case (ActiveDM old tr)
    with fit have st: "vb_state vb \<noteq> vbucket_state_replica" "vb_state vb \<noteq> vbucket_state_pending"
      by (auto simp: dm_fits_state_def split: if_splits)
    show ?thesis
      apply (rule exI [of _ "[]"])
      apply (rule exI [of _ "vb0\<lparr>vb_durabilityMonitor := ActiveDM [] []\<rparr>"])
      using v nn st
      by (simp add: setState_to_setup [OF sh] setupSyncReplication_def Let_def vb0_def
          split: sum.splits)
  next
    case (PassiveDM tr)
    show ?thesis
    proof (cases "vb_state vb = vbucket_state_replica \<or> vb_state vb = vbucket_state_pending")
      case True
      show ?thesis
        apply (rule exI [of _ tr])
        apply (rule exI [of _ "vb0\<lparr>vb_durabilityMonitor := ActiveDM [] tr\<rparr>"])
        using v nn True PassiveDM
        by (auto simp: setState_to_setup [OF sh] setupSyncReplication_def Let_def vb0_def
            split: sum.splits)
    next
      case False
      show ?thesis
        apply (rule exI [of _ "[]"])
        apply (rule exI [of _ "vb0\<lparr>vb_durabilityMonitor := ActiveDM [] []\<rparr>"])
        using v nn False
        by (simp add: setState_to_setup [OF sh] setupSyncReplication_def Let_def vb0_def
            split: sum.splits)
    qed
  qed
qed

text \<open>
Claim C7 (as amended). For a vBucket whose monitor fits its state, a replication topology supplied as meta on a transition to Active is accepted exactly when it is a JSON array of 1..2 chains, each chain an array of 1..4 entries, the first entry of each chain a string, every other entry null or a string, and no node name duplicated within a chain; any other topology is rejected with an invalid-argument error. A topology of another shape is rejected by the vBucket's own validation before anything is changed, so it is not installed. A topology of that shape, with or without a duplicate, is recorded as the vBucket's replication topology and the vBucket is made active before the topology is handed to the Active monitor: with a duplicate the monitor refuses it and is left without chains, the recorded topology staying in place; without one the monitor takes the chains the topology denotes. The vBucket's validation \<^verbatim>\<open>validateReplicationTopology\<close> passes exactly the topologies of that shape.
\<close>

theorem replication_topology_validation:
  assumes fit: "dm_fits_state vb"
  shows
  "(fst (setState_UNLOCKED vbucket_state_active (Json_object [(''topology'', t)]) vb) = None
      \<longleftrightarrow> topology_shape t \<and> topology_no_duplicates t) \<and>
   (\<not> (topology_shape t \<and> topology_no_duplicates t) \<longrightarrow>
      fst (setState_UNLOCKED vbucket_state_active (Json_object [(''topology'', t)]) vb) =
        Some Invalid_argument) \<and>
   (\<not> topology_shape t \<longrightarrow>
      setState_UNLOCKED vbucket_state_active (Json_object [(''topology'', t)]) vb =
        (Some Invalid_argument, vb)) \<and>
   (topology_shape t \<longrightarrow>
      vb_replicationTopology
        (snd (setState_UNLOCKED vbucket_state_active (Json_object [(''topology'', t)]) vb)) = t \<and>
      vb_state
        (snd (setState_UNLOCKED vbucket_state_active (Json_object [(''topology'', t)]) vb)) =
        vbucket_state_active) \<and>
   (topology_shape t \<and> \<not> topology_no_duplicates t \<longrightarrow>
      (\<exists>tracked.
         vb_durabilityMonitor
           (snd (setState_UNLOCKED vbucket_state_active (Json_object [(''topology'', t)]) vb)) =
         ActiveDM [] tracked)) \<and>
   (topology_shape t \<and> topology_no_duplicates t \<longrightarrow>
      (\<exists>chs tracked.
         topology_chains t = Some chs \<and>
         vb_durabilityMonitor
           (snd (setState_UNLOCKED vbucket_state_active (Json_object [(''topology'', t)]) vb)) =
         ActiveDM chs tracked)) \<and>
   (validateReplicationTopology t = None \<longleftrightarrow> topology_shape t)"
proof -
  let ?r = "setState_UNLOCKED vbucket_state_active (Json_object [(''topology'', t)]) vb"
  have rej: "\<not> topology_shape t \<Longrightarrow> ?r = (Some Invalid_argument, vb)"
    by (rule setState_rejects)
  have dup: "fst ?r = Some Invalid_argument \<and> vb_replicationTopology (snd ?r) = t \<and>
             vb_state (snd ?r) = vbucket_state_active \<and>
             (\<exists>tracked. vb_durabilityMonitor (snd ?r) = ActiveDM [] tracked)"
    if sh: "topology_shape t" and nd: "\<not> topology_no_duplicates t"
  proof -
    from setState_shape [OF sh fit] obtain tracked vb1 where
      1: "vb_replicationTopology vb1 = t" "vb_state vb1 = vbucket_state_active"
        "vb_durabilityMonitor vb1 = ActiveDM [] tracked"
        "?r = (case adm_setReplicationTopology t (ActiveDM [] tracked) of
                Inl e \<Rightarrow> (Some e, vb1)
              | Inr dm \<Rightarrow> (None, vb1\<lparr>vb_durabilityMonitor := dm\<rparr>))"
      by blast
    have r: "?r = (Some Invalid_argument, vb1)"
      by (simp add: 1(4) adm_refuses_duplicates [OF sh nd])
    show ?thesis using 1(1-3) by (simp add: r)
  qed
  have acc: "fst ?r = None \<and> vb_replicationTopology (snd ?r) = t \<and>
             vb_state (snd ?r) = vbucket_state_active \<and>
             (\<exists>chs tracked. topology_chains t = Some chs \<and>
                vb_durabilityMonitor (snd ?r) = ActiveDM chs tracked)"
    if sh: "topology_shape t" and nd: "topology_no_duplicates t"
  proof -
    from setState_shape [OF sh fit] obtain tracked vb1 where
      1: "vb_replicationTopology vb1 = t" "vb_state vb1 = vbucket_state_active"
        "vb_durabilityMonitor vb1 = ActiveDM [] tracked"
        "?r = (case adm_setReplicationTopology t (ActiveDM [] tracked) of
                Inl e \<Rightarrow> (Some e, vb1)
              | Inr dm \<Rightarrow> (None, vb1\<lparr>vb_durabilityMonitor := dm\<rparr>))"
      by blast
    from adm_installs_chains [OF sh nd, of "[]" tracked] obtain chs where
      2: "adm_setReplicationTopology t (ActiveDM [] tracked) = Inr (ActiveDM chs tracked)"
        "topology_chains t = Some chs"
      by blast
    have r: "?r = (None, vb1\<lparr>vb_durabilityMonitor := ActiveDM chs tracked\<rparr>)"
      by (simp add: 1(4) 2(1))
    show ?thesis using 1(1-3) 2(2) by (simp add: r)
  qed
  show ?thesis
    using rej dup acc validateReplicationTopology_iff [of t]
    by (cases "topology_shape t"; cases "topology_no_duplicates t") auto
qed

text \<open>
The theorem on a fresh replica: the topology \<open>[["active", null, "replica"]]\<close> is accepted and its chain reaches the monitor, a chain with an undefined first node is rejected with nothing changed, and the chain \<open>["node1", "node1"]\<close> is rejected but recorded.
\<close>

theorem replication_topology_validation_witness:
  "dm_fits_state (new_vbucket vbucket_state_replica Eviction_Value) \<and>
   fst (setState_UNLOCKED vbucket_state_active
     (Json_object [(''topology'',
        Json_array [Json_array [Json_string ''active'', Json_null, Json_string ''replica'']])])
     (new_vbucket vbucket_state_replica Eviction_Value)) = None \<and>
   (\<exists>tracked. vb_durabilityMonitor (snd (setState_UNLOCKED vbucket_state_active
     (Json_object [(''topology'',
        Json_array [Json_array [Json_string ''active'', Json_null, Json_string ''replica'']])])
     (new_vbucket vbucket_state_replica Eviction_Value))) =
     ActiveDM [[Some ''active'', None, Some ''replica'']] tracked) \<and>
   setState_UNLOCKED vbucket_state_active
     (Json_object [(''topology'', Json_array [Json_array [Json_null, Json_string ''replica'']])])
     (new_vbucket vbucket_state_replica Eviction_Value) =
     (Some Invalid_argument, new_vbucket vbucket_state_replica Eviction_Value) \<and>
   fst (setState_UNLOCKED vbucket_state_active
     (Json_object [(''topology'',
        Json_array [Json_array [Json_string ''node1'', Json_string ''node1'']])])
     (new_vbucket vbucket_state_replica Eviction_Value)) = Some Invalid_argument \<and>
   vb_replicationTopology (snd (setState_UNLOCKED vbucket_state_active
     (Json_object [(''topology'',
        Json_array [Json_array [Json_string ''node1'', Json_string ''node1'']])])
     (new_vbucket vbucket_state_replica Eviction_Value))) =
     Json_array [Json_array [Json_string ''node1'', Json_string ''node1'']]"
proof -
  have fit: "dm_fits_state (new_vbucket vbucket_state_replica Eviction_Value)"
    by (simp add: dm_fits_state_def new_vbucket_def)
  note good = replication_topology_validation [OF fit,
      of "Json_array [Json_array [Json_string ''active'', Json_null, Json_string ''replica'']]"]
  note bad = replication_topology_validation [OF fit,
      of "Json_array [Json_array [Json_null, Json_string ''replica'']]"]
  note dup = replication_topology_validation [OF fit,
      of "Json_array [Json_array [Json_string ''node1'', Json_string ''node1'']]"]
  have 1: "topology_shape
             (Json_array [Json_array [Json_string ''active'', Json_null, Json_string ''replica'']])"
    "topology_no_duplicates
             (Json_array [Json_array [Json_string ''active'', Json_null, Json_string ''replica'']])"
    "topology_chains
             (Json_array [Json_array [Json_string ''active'', Json_null, Json_string ''replica'']]) =
       Some [[Some ''active'', None, Some ''replica'']]"
    by (simp_all add: topology_shape_def topology_chain_shape_def topology_no_duplicates_def
        is_string_def is_null_def topology_chains_def json_to_node_def)
  have 2: "\<not> topology_shape (Json_array [Json_array [Json_null, Json_string ''replica'']])"
    by (simp add: topology_shape_def topology_chain_shape_def is_string_def)
  have 3: "topology_shape (Json_array [Json_array [Json_string ''node1'', Json_string ''node1'']])"
    "\<not> topology_no_duplicates
             (Json_array [Json_array [Json_string ''node1'', Json_string ''node1'']])"
    by (simp_all add: topology_shape_def topology_chain_shape_def topology_no_duplicates_def
        is_string_def is_null_def)
  show ?thesis
    using fit good bad dup 1 2 3 by auto
qed

text \<open>
The claim as first stated says that a topology outside the accepted ones is rejected and not installed. The chain \<open>["node1", "node1"]\<close> has a duplicate and passes \<^verbatim>\<open>validateReplicationTopology\<close>; the transition is rejected with an invalid-argument error, but only after it has recorded the topology as the vBucket's replication topology and made the vBucket active.
\<close>

theorem replication_topology_duplicate_counterexample:
  "\<not> topology_no_duplicates
       (Json_array [Json_array [Json_string ''node1'', Json_string ''node1'']]) \<and>
   validateReplicationTopology
       (Json_array [Json_array [Json_string ''node1'', Json_string ''node1'']]) = None \<and>
   fst (setState_UNLOCKED vbucket_state_active
     (Json_object [(''topology'',
        Json_array [Json_array [Json_string ''node1'', Json_string ''node1'']])])
     (new_vbucket vbucket_state_replica Eviction_Value)) = Some Invalid_argument \<and>
   vb_replicationTopology (snd (setState_UNLOCKED vbucket_state_active
     (Json_object [(''topology'',
        Json_array [Json_array [Json_string ''node1'', Json_string ''node1'']])])
     (new_vbucket vbucket_state_replica Eviction_Value))) =
     Json_array [Json_array [Json_string ''node1'', Json_string ''node1'']] \<and>
   vb_state (snd (setState_UNLOCKED vbucket_state_active
     (Json_object [(''topology'',
        Json_array [Json_array [Json_string ''node1'', Json_string ''node1'']])])
     (new_vbucket vbucket_state_replica Eviction_Value))) = vbucket_state_active"
  by (simp add: topology_no_duplicates_def is_string_def validateReplicationTopology_def
      setState_UNLOCKED_def validateSetStateMeta_def is_null_def json_at_def
      setupSyncReplication_def adm_setReplicationTopology_def json_to_node_def
      chain_valid_def new_vbucket_def Let_def)

subsection \<open>Writes over a deleted value\<close>

lemma sv_unlock_fields [simp]:
  "sv_deleted (sv_unlock v) = sv_deleted v"
  "sv_isTempDeletedItem (sv_unlock v) = sv_isTempDeletedItem v"
  "sv_cas (sv_unlock v) = sv_cas v"
  "sv_key (sv_unlock v) = sv_key v"
  by (simp_all add: sv_unlock_def sv_isTempDeletedItem_def)

lemma processSet_existing_deleted_cas:
  assumes "sv_deleted v \<or> sv_isTempDeletedItem v" and "\<not> it_deleted itm" and "cas \<noteq> 0"
  shows "\<exists>status n v2 itm2 vb2.
           processSet_existing env vb v itm cas ae False ctx = Inr (status, n, v2, itm2, vb2) \<and>
           (status = InvalidCas \<or> status = IsLocked \<or> status = NotFound)"
  using assms by (auto simp: processSet_existing_def Let_def)

lemma processSet_deleted_cas:
  assumes d: "sv_deleted v \<or> sv_isTempDeletedItem v" and nd: "\<not> it_deleted itm"
    and c: "cas \<noteq> 0"
    and r: "processSet env vb (Some v) itm cas ae False ctx st mke = Inr (status, n, v2, itm2, vb2)"
  shows "status \<noteq> WasClean \<and> status \<noteq> WasDirty"
proof -
  from processSet_existing_deleted_cas [OF d nd c, of env vb ae ctx]
  have 1: "\<And>sta n v2 itm2 vb2.
      processSet_existing env vb v itm cas ae False ctx = Inr (sta, n, v2, itm2, vb2) \<Longrightarrow>
      sta \<noteq> WasClean \<and> sta \<noteq> WasDirty"
    by auto
  show ?thesis
    using r c nd 1
    by (auto simp: processSet_def Let_def split: if_splits)
qed

lemma queueDirty_committed:
  assumes "sv_committed v = CommittedViaMutation"
  shows "\<exists>n qi vb'.
           queueDirty env vb v default_VBQueueItemCtx =
             Inr (n, v\<lparr>sv_cas := it_cas qi, sv_bySeqno := it_bySeqno qi\<rparr>, vb') \<and>
           vb_ht vb' = (vb_ht vb)(sv_key v \<mapsto> v\<lparr>sv_cas := it_cas qi, sv_bySeqno := it_bySeqno qi\<rparr>) \<and>
           vb_checkpoint vb' = vb_checkpoint vb @ [qi] \<and>
           it_key qi = sv_key v \<and> it_deleted qi = sv_deleted v \<and> it_value qi = sv_value v \<and>
           it_bySeqno qi = vb_lastBySeqno vb + 1 \<and>
           vb_durabilityMonitor vb' = vb_durabilityMonitor vb \<and> vb_state vb' = vb_state vb"
  using assms
  apply (simp add: queueDirty_def default_VBQueueItemCtx_def Let_def sv_toItem_def)
  apply (simp add: queueItem_def cm_queueDirty_def Let_def it_isPending_def sv_toItemBase_def
      ht_put_def default_VBNotifyCtx_def)
  done

lemma processSet_existing_cas0:
  assumes nl: "\<not> sv_isLocked v (env_current_time env)"
    and np: "\<not> sv_isPending v" and ni: "\<not> it_isPending itm"
  shows "\<exists>n v2 itm2 vb2.
           processSet_existing env vb v itm 0 True False default_VBQueueItemCtx =
             Inr (if sv_dirty v then WasDirty else WasClean, Some n, Some v2, itm2, vb2) \<and>
           vb_ht vb2 = (vb_ht vb)(sv_key v \<mapsto> v2) \<and>
           sv_deleted v2 = it_deleted itm \<and> sv_value v2 = it_value itm \<and>
           length (vb_checkpoint vb2) = Suc (length (vb_checkpoint vb)) \<and>
           it_op itm2 = it_op itm"
proof -
  define itm1 where "itm1 = itm\<lparr>it_revSeqno := sv_revSeqno v + 1\<rparr>"
  define v1 where "v1 = sv_setValue v itm1"
  have c: "sv_committed v1 = CommittedViaMutation"
    using ni by (simp add: v1_def sv_setValue_def itm1_def it_isPending_def)
  have k: "sv_key v1 = sv_key v" "sv_deleted v1 = it_deleted itm" "sv_value v1 = it_value itm"
    by (simp_all add: v1_def sv_setValue_def itm1_def)
  from queueDirty_committed [OF c, of env "ht_put v1 vb"] obtain n qi vb' where
    q: "queueDirty env (ht_put v1 vb) v1 default_VBQueueItemCtx =
             Inr (n, v1\<lparr>sv_cas := it_cas qi, sv_bySeqno := it_bySeqno qi\<rparr>, vb')"
    and h: "vb_ht vb' = (vb_ht (ht_put v1 vb))
                (sv_key v1 \<mapsto> v1\<lparr>sv_cas := it_cas qi, sv_bySeqno := it_bySeqno qi\<rparr>)"
    and cp: "vb_checkpoint vb' = vb_checkpoint (ht_put v1 vb) @ [qi]"
    by blast
  have r: "processSet_existing env vb v itm 0 True False default_VBQueueItemCtx =
             Inr (if sv_dirty v then WasDirty else WasClean, Some n,
                  Some (v1\<lparr>sv_cas := it_cas qi, sv_bySeqno := it_bySeqno qi\<rparr>), itm1, vb')"
    using nl np q
    by (simp add: processSet_existing_def Let_def updateStoredValue_def itm1_def [symmetric]
        v1_def [symmetric])
  show ?thesis
    apply (rule exI [of _ n])
    apply (rule exI [of _ "v1\<lparr>sv_cas := it_cas qi, sv_bySeqno := it_bySeqno qi\<rparr>"])
    apply (rule exI [of _ itm1], rule exI [of _ vb'])
    using r h cp k by (simp add: ht_put_def itm1_def)
qed

lemma processSet_cas0:
  assumes mem: "hasMemoryForStoredValue env vb itm UseActiveVBMemThreshold_No"
    and st: "st \<noteq> StoreIf_GetItemInfo"
    and nl: "\<not> sv_isLocked v (env_current_time env)"
    and np: "\<not> sv_isPending v" and ni: "\<not> it_isPending itm"
  shows "\<exists>n v2 itm2 vb2.
           processSet env vb (Some v) itm 0 True False default_VBQueueItemCtx st mke =
             Inr (if sv_dirty v then WasDirty else WasClean, Some n, Some v2, itm2, vb2) \<and>
           vb_ht vb2 = (vb_ht vb)(sv_key v \<mapsto> v2) \<and>
           sv_deleted v2 = it_deleted itm \<and> sv_value v2 = it_value itm \<and>
           length (vb_checkpoint vb2) = Suc (length (vb_checkpoint vb)) \<and>
           it_op itm2 = it_op itm"
proof -
  have "processSet env vb (Some v) itm 0 True False default_VBQueueItemCtx st mke =
        processSet_existing env vb v itm 0 True False default_VBQueueItemCtx"
    using mem st nl by (simp add: processSet_def Let_def)
  then show ?thesis
    using processSet_existing_cas0 [OF nl np ni, of vb] by simp
qed

lemma processSet_deleted_cas_returns:
  assumes d: "sv_deleted v \<or> sv_isTempDeletedItem v" and nd: "\<not> it_deleted itm"
    and c: "cas \<noteq> 0"
  shows "\<exists>status n v2 itm2 vb2.
           processSet env vb (Some v) itm cas ae False ctx st mke =
             Inr (status, n, v2, itm2, vb2) \<and>
           status \<noteq> WasClean \<and> status \<noteq> WasDirty"
proof -
  have "\<exists>r. processSet env vb (Some v) itm cas ae False ctx st mke = Inr r"
    using processSet_existing_deleted_cas [OF d nd c, of env vb ae ctx] c nd
    by (auto simp: processSet_def Let_def)
  then obtain status n v2 itm2 vb2 where
    r: "processSet env vb (Some v) itm cas ae False ctx st mke = Inr (status, n, v2, itm2, vb2)"
    by (metis prod_cases5)
  from processSet_deleted_cas [OF d nd c r] r show ?thesis by blast
qed

lemma processSet_existing_deleted_cas_checkpoint:
  assumes "sv_deleted v \<or> sv_isTempDeletedItem v" and "\<not> it_deleted itm" and "cas \<noteq> 0"
  shows "\<exists>status n v2 itm2 vb2.
           processSet_existing env vb v itm cas ae False ctx = Inr (status, n, v2, itm2, vb2) \<and>
           (status = InvalidCas \<or> status = IsLocked \<or> status = NotFound) \<and>
           v2 \<noteq> None \<and> vb_checkpoint vb2 = vb_checkpoint vb"
  using assms by (auto simp: processSet_existing_def Let_def ht_put_def)

lemma processSet_deleted_cas_unchanged:
  assumes d: "sv_deleted v \<or> sv_isTempDeletedItem v" and nd: "\<not> it_deleted itm"
    and c: "cas \<noteq> 0"
  shows "\<exists>status n v2 itm2 vb2.
           processSet env vb (Some v) itm cas ae False ctx st mke =
             Inr (status, n, v2, itm2, vb2) \<and>
           status \<noteq> WasClean \<and> status \<noteq> WasDirty \<and> v2 \<noteq> None \<and>
           vb_checkpoint vb2 = vb_checkpoint vb"
proof -
  from processSet_existing_deleted_cas_checkpoint [OF d nd c, of env vb ae ctx]
  obtain status n v2 itm2 vb2 where
    e: "processSet_existing env vb v itm cas ae False ctx = Inr (status, n, v2, itm2, vb2)"
      "status = InvalidCas \<or> status = IsLocked \<or> status = NotFound"
      "vb_checkpoint vb2 = vb_checkpoint vb"
    and v2: "v2 \<noteq> None"
    by blast
  show ?thesis
  proof (cases "processSet env vb (Some v) itm cas ae False ctx st mke =
                  processSet_existing env vb v itm cas ae False ctx")
    case True
    then show ?thesis using e v2 by auto
  next
    case False
    then show ?thesis
      using c nd by (auto simp: processSet_def Let_def ht_put_def split: if_splits)
  qed
qed

lemma set_item_cases:
  assumes "set_item env vb itm cookie predicate = Inr (c, itm', vb')"
  shows "((c = ENGINE_DURABILITY_IMPOSSIBLE \<or> c = ENGINE_PREDICATE_FAILED) \<and> vb' = vb) \<or>
         (\<exists>st. set_apply env vb itm cookie st = Inr (c, itm', vb'))"
proof (cases "if it_isPending itm then activeDM_isDurabilityPossible vb else Inr True")
  case (Inl e)
  then show ?thesis using assms by (simp add: set_item_def)
next
  case (Inr b)
  show ?thesis
  proof (cases b)
    case False
    then show ?thesis using assms Inr by (simp add: set_item_def)
  next
    case True
    show ?thesis
    proof (cases "store_if vb predicate (findForWrite vb (it_key itm))")
      case (Inl e)
      then show ?thesis using assms Inr True by (simp add: set_item_def)
    next
      case st: (Inr st)
      show ?thesis
      proof (cases "predicate \<noteq> None \<and> st = StoreIf_Fail")
        case True
        then show ?thesis using assms Inr \<open>b\<close> st by (simp add: set_item_def)
      next
        case False
        then have "set_apply env vb itm cookie st = Inr (c, itm', vb')"
          using assms Inr \<open>b\<close> st by (auto simp: set_item_def)
        then show ?thesis by blast
      qed
    qed
  qed
qed

lemma set_switch_no_write:
  assumes s: "set_switch env cookie True status n (Some sv) itm vb = Inr (c, itm', vb')"
    and st: "status \<noteq> WasClean" "status \<noteq> WasDirty"
  shows "c \<noteq> ENGINE_SUCCESS \<and> vb_checkpoint vb' = vb_checkpoint vb"
  using s st by (cases status) (auto simp: set_switch_def Let_def bgFetch_def)

lemma set_apply_deleted_cas:
  assumes d: "sv_deleted v \<or> sv_isTempDeletedItem v" and nd: "\<not> it_deleted itm"
    and c: "it_cas itm \<noteq> 0"
    and f: "findForWrite vb (it_key itm) = Some v"
    and r: "set_apply env vb itm cookie st = Inr (code, itm', vb')"
  shows "code \<noteq> ENGINE_SUCCESS \<and> vb_checkpoint vb' = vb_checkpoint vb"
proof -
  obtain sv1 vb1 where u: "unlock_if_not_active env vb v = (sv1, vb1)"
    by (cases "unlock_if_not_active env vb v")
  have d1: "sv_deleted sv1 \<or> sv_isTempDeletedItem sv1"
    using u d by (auto simp: unlock_if_not_active_def split: if_splits)
  have c1: "vb_checkpoint vb1 = vb_checkpoint vb"
    using u by (auto simp: unlock_if_not_active_def ht_put_def split: if_splits)
  define mke where "mke =
            (\<not> (sv_isTempInitialItem sv1 \<and> vb_eviction vb1 = Eviction_Full \<and>
                \<not> maybeKeyExistsInFilter env (it_key itm)))"
  from processSet_deleted_cas_unchanged [OF d1 nd c, of env vb1 True "item_queue_ctx itm cookie"
      st mke]
  obtain status n v2 itm2 vb2 where
    p: "processSet env vb1 (Some sv1) itm (it_cas itm) True False (item_queue_ctx itm cookie)
          st mke = Inr (status, n, v2, itm2, vb2)"
      "status \<noteq> WasClean" "status \<noteq> WasDirty" "v2 \<noteq> None"
      "vb_checkpoint vb2 = vb_checkpoint vb1"
    by blast
  from p(4) obtain sv2 where sv2: "v2 = Some sv2" by auto
  have "set_apply env vb itm cookie st =
          set_switch env cookie True status n (Some sv2) itm2 vb2"
    using c p(1) by (auto simp: set_apply_def f u Let_def mke_def sv2)
  with r have "set_switch env cookie True status n (Some sv2) itm2 vb2 = Inr (code, itm', vb')"
    by simp
  from set_switch_no_write [OF this p(2,3)] show ?thesis
    by (simp add: p(5) c1)
qed

lemma set_item_deleted_cas:
  assumes d: "sv_deleted v \<or> sv_isTempDeletedItem v" and nd: "\<not> it_deleted itm"
    and c: "it_cas itm \<noteq> 0"
    and f: "findForWrite vb (it_key itm) = Some v"
    and r: "set_item env vb itm cookie predicate = Inr (code, itm', vb')"
  shows "code \<noteq> ENGINE_SUCCESS \<and> vb_checkpoint vb' = vb_checkpoint vb"
  using set_item_cases [OF r] set_apply_deleted_cas [OF d nd c f]
  by blast

lemma notify_fields [simp]:
  "vb_ht (doCollectionsStats n vb) = vb_ht vb"
  "vb_ht (notifyNewSeqno n vb) = vb_ht vb"
  by (simp_all add: doCollectionsStats_def notifyNewSeqno_def Let_def)

lemma set_item_cas0:
  assumes f: "findForWrite vb (it_key itm) = Some v"
    and c: "it_cas itm = 0"
    and ni: "\<not> it_isPending itm"
    and mem: "hasMemoryForStoredValue env vb itm UseActiveVBMemThreshold_No"
    and nl: "\<not> sv_isLocked v (env_current_time env)"
    and np: "\<not> sv_isPending v"
    and nt: "\<not> sv_isTempInitialItem v"
  shows "\<exists>itm' vb' v2.
           set_item env vb itm cookie None = Inr (ENGINE_SUCCESS, itm', vb') \<and>
           vb_ht vb' = (vb_ht vb)(sv_key v \<mapsto> v2) \<and>
           sv_deleted v2 = it_deleted itm \<and> sv_value v2 = it_value itm \<and>
           length (vb_checkpoint vb') = Suc (length (vb_checkpoint vb))"
proof -
  have q: "item_queue_ctx itm cookie = default_VBQueueItemCtx"
    using ni by (simp add: item_queue_ctx_def)
  have e: "processSet env vb (Some v) itm 0 True False default_VBQueueItemCtx StoreIf_Continue mke =
        processSet_existing env vb v itm 0 True False default_VBQueueItemCtx" for mke
    using mem nl by (simp add: processSet_def Let_def)
  from processSet_existing_cas0 [OF nl np ni, of vb] obtain n v2 itm2 vb2 where
    p: "processSet_existing env vb v itm 0 True False default_VBQueueItemCtx =
             Inr (if sv_dirty v then WasDirty else WasClean, Some n, Some v2, itm2, vb2)"
      "vb_ht vb2 = (vb_ht vb)(sv_key v \<mapsto> v2)"
      "sv_deleted v2 = it_deleted itm" "sv_value v2 = it_value itm"
      "length (vb_checkpoint vb2) = Suc (length (vb_checkpoint vb))"
      "it_op itm2 = it_op itm"
    by blast
  have ni2: "\<not> it_isPending itm2"
    using ni p(6) by (simp add: it_isPending_def)
  have "set_item env vb itm cookie None =
          Inr (ENGINE_SUCCESS, itm2\<lparr>it_bySeqno := sv_bySeqno v2, it_cas := sv_cas v2\<rparr>,
               doCollectionsStats n (notifyNewSeqno n vb2))"
    using ni ni2
    by (simp add: set_item_def store_if_def set_apply_def f
        unlock_if_not_active_unlocked [OF nl] c q e p(1) set_switch_def finish_mutation_def)
  then show ?thesis
    using p(2,3,4,5)
    by (auto simp: doCollectionsStats_def notifyNewSeqno_def Let_def)
qed

lemma processSet_withMeta_matching_cas:
  assumes mem: "hasMemoryForStoredValue env vb itm UseActiveVBMemThreshold_No"
    and nl: "\<not> sv_isLocked v (env_current_time env)"
    and np: "\<not> sv_isPending v" and ni: "\<not> it_isPending itm"
    and nt: "\<not> sv_isTempInitialItem v"
  shows "\<exists>n v2 vb2.
           processSet env vb (Some v) itm (sv_cas v) True True default_VBQueueItemCtx st mke =
             Inr (if sv_dirty v then WasDirty else WasClean, Some n, Some v2, itm, vb2) \<and>
           vb_ht vb2 = (vb_ht vb)(sv_key v \<mapsto> v2) \<and>
           sv_deleted v2 = it_deleted itm \<and> sv_value v2 = it_value itm"
proof -
  define v1 where "v1 = sv_setValue v itm"
  have c: "sv_committed v1 = CommittedViaMutation"
    using ni by (simp add: v1_def sv_setValue_def it_isPending_def)
  have k: "sv_key v1 = sv_key v" "sv_deleted v1 = it_deleted itm" "sv_value v1 = it_value itm"
    by (simp_all add: v1_def sv_setValue_def)
  from queueDirty_committed [OF c, of env "ht_put v1 vb"] obtain n qi vb' where
    q: "queueDirty env (ht_put v1 vb) v1 default_VBQueueItemCtx =
             Inr (n, v1\<lparr>sv_cas := it_cas qi, sv_bySeqno := it_bySeqno qi\<rparr>, vb')"
    and h: "vb_ht vb' = (vb_ht (ht_put v1 vb))
                (sv_key v1 \<mapsto> v1\<lparr>sv_cas := it_cas qi, sv_bySeqno := it_bySeqno qi\<rparr>)"
    and cp: "vb_checkpoint vb' = vb_checkpoint (ht_put v1 vb) @ [qi]"
    by blast
  have r: "processSet env vb (Some v) itm (sv_cas v) True True default_VBQueueItemCtx st mke =
             Inr (if sv_dirty v then WasDirty else WasClean, Some n,
                  Some (v1\<lparr>sv_cas := it_cas qi, sv_bySeqno := it_bySeqno qi\<rparr>), itm, vb')"
    using mem nl np nt q
    by (simp add: processSet_def processSet_existing_def Let_def updateStoredValue_def
        v1_def [symmetric])
  show ?thesis
    apply (rule exI [of _ n])
    apply (rule exI [of _ "v1\<lparr>sv_cas := it_cas qi, sv_bySeqno := it_bySeqno qi\<rparr>"])
    apply (rule exI [of _ vb'])
    using r h k by (simp add: ht_put_def)
qed


lemma test_deleted_sv_facts:
  "sv_deleted test_deleted_sv" "\<not> sv_isLocked test_deleted_sv t"
  "\<not> sv_isPending test_deleted_sv" "sv_key test_deleted_sv = ''key7''"
  "\<not> sv_dirty test_deleted_sv" "\<not> sv_isTempInitialItem test_deleted_sv"
  by (simp_all add: test_deleted_sv_def test_committed_sv_def sv_of_item_def
      makeCommittedItem_def sv_isLocked_def sv_isPending_def it_isPending_def
      sv_isTempInitialItem_def temp_of_bySeqno_def state_temp_init_def)

lemma test_plain_item_facts:
  "\<not> it_deleted (makeCommittedItem k val)" "\<not> it_isPending (makeCommittedItem k val)"
  "it_cas (makeCommittedItem k val) = 0" "it_key (makeCommittedItem k val) = k"
  "it_value (makeCommittedItem k val) = Some val"
  by (simp_all add: makeCommittedItem_def it_isPending_def)



subsection \<open>Memory admission\<close>

lemma threshold_29: "to_double (29 / 100) = 5224175567749775 / 2 ^ 54"
  by (subst to_double_scaled [where k = 54]) (simp_all add: round_ties_even_def)

lemma product_300: "to_double (300 * (5224175567749775 / 2 ^ 54)) = 87"
  by (subst to_double_scaled [where k = 46]) (simp_all add: round_ties_even_def)

lemma product_100: "to_double (100 * (5224175567749775 / 2 ^ 54)) = 8162774324609023 / 2 ^ 48"
  by (subst to_double_scaled [where k = 48]) (simp_all add: round_ties_even_def)

lemma setMutationMemoryThreshold_29:
  "setMutationMemoryThreshold 29 = Inr (5224175567749775 / 2 ^ 54)"
  by (simp add: setMutationMemoryThreshold_def to_double_numeral threshold_29)

lemma hasMemory_formula:
  "hasMemoryForStoredValue env vb itm u \<longleftrightarrow>
     to_double (real (env_estimateNewMemoryUsage env itm)) \<le>
       to_double (to_double (real (env_maxDataSize env)) * admission_threshold env vb u)"
  by (simp add: hasMemoryForStoredValue_def admission_threshold_def Let_def)

lemma to_double_bounds:
  assumes "0 \<le> p"
  shows "(1 - 1 / 2 ^ 53) * p \<le> to_double p" and "to_double p \<le> (1 + 1 / 2 ^ 53) * p"
proof -
  have "\<bar>to_double p - p\<bar> \<le> p / 2 ^ 53"
    using to_double_error [of p] assms by simp
  then have "p - p / 2 ^ 53 \<le> to_double p" "to_double p \<le> p + p / 2 ^ 53"
    by linarith+
  then show "(1 - 1 / 2 ^ 53) * p \<le> to_double p" "to_double p \<le> (1 + 1 / 2 ^ 53) * p"
    by (simp_all add: algebra_simps)
qed

lemma hasMemory_bounds:
  assumes e: "env_estimateNewMemoryUsage env itm < 2 ^ 53"
    and m: "env_maxDataSize env < 2 ^ 53"
    and t: "0 \<le> admission_threshold env vb u"
  shows "real (env_estimateNewMemoryUsage env itm) \<le>
           (1 - 1 / 2 ^ 53) * (real (env_maxDataSize env) * admission_threshold env vb u) \<Longrightarrow>
         hasMemoryForStoredValue env vb itm u"
    and "hasMemoryForStoredValue env vb itm u \<Longrightarrow>
         real (env_estimateNewMemoryUsage env itm) \<le>
           (1 + 1 / 2 ^ 53) * (real (env_maxDataSize env) * admission_threshold env vb u)"
proof -
  define p where "p = real (env_maxDataSize env) * admission_threshold env vb u"
  have p: "0 \<le> p" using t by (simp add: p_def)
  have f: "hasMemoryForStoredValue env vb itm u \<longleftrightarrow>
             real (env_estimateNewMemoryUsage env itm) \<le> to_double p"
    by (simp add: hasMemory_formula to_double_of_nat [OF e] to_double_of_nat [OF m] p_def)
  show "real (env_estimateNewMemoryUsage env itm) \<le>
           (1 - 1 / 2 ^ 53) * (real (env_maxDataSize env) * admission_threshold env vb u) \<Longrightarrow>
         hasMemoryForStoredValue env vb itm u"
    using to_double_bounds(1) [OF p] unfolding f p_def [symmetric] by linarith
  show "hasMemoryForStoredValue env vb itm u \<Longrightarrow>
         real (env_estimateNewMemoryUsage env itm) \<le>
           (1 + 1 / 2 ^ 53) * (real (env_maxDataSize env) * admission_threshold env vb u)"
    using to_double_bounds(2) [OF p] unfolding f p_def [symmetric] by linarith
qed

lemma hasMemory_ht_put [simp]:
  "hasMemoryForStoredValue env (ht_put v vb) itm u = hasMemoryForStoredValue env vb itm u"
  by (simp add: hasMemoryForStoredValue_def ht_put_def)

lemma processAdd_NoMem:
  assumes "\<not> hasMemoryForStoredValue env vb itm UseActiveVBMemThreshold_No"
    and "\<not> (case v of
            Some sv \<Rightarrow> \<not> sv_deleted sv \<and> \<not> sv_isExpired sv (env_real_time env) \<and>
                       \<not> sv_isTempItem sv \<and> \<not> env_isLogicallyDeleted env (sv_bySeqno sv)
          | None \<Rightarrow> False)"
  shows "processAdd env vb v itm mke ctx = Inr (Add_NoMem, None, v, itm, vb)"
  using assms by (simp add: processAdd_def)

lemma processAdd_Exists:
  assumes "(case v of
            Some sv \<Rightarrow> \<not> sv_deleted sv \<and> \<not> sv_isExpired sv (env_real_time env) \<and>
                       \<not> sv_isTempItem sv \<and> \<not> env_isLogicallyDeleted env (sv_bySeqno sv)
          | None \<Rightarrow> False)"
  shows "processAdd env vb v itm mke ctx = Inr (Add_Exists, None, v, itm, vb)"
  using assms by (simp add: processAdd_def)

lemma set_apply_NoMem:
  assumes "\<not> hasMemoryForStoredValue env vb itm UseActiveVBMemThreshold_No"
  shows "set_apply env vb itm cookie st =
           Inr (ENGINE_ENOMEM, itm,
                case findForWrite vb (it_key itm) of
                  Some sv \<Rightarrow>
                    (if sv_isLocked sv (env_current_time env) \<and>
                        (vb_state vb = vbucket_state_replica \<or>
                         vb_state vb = vbucket_state_pending)
                     then ht_put (sv_unlock sv) vb else vb)
                | None \<Rightarrow> vb)"
proof (cases "findForWrite vb (it_key itm)")
  case None
  then show ?thesis
    using assms by (simp add: set_apply_def Let_def processSet_NoMem set_switch_def)
next
  case (Some sv)
  obtain sv1 vb1 where u: "unlock_if_not_active env vb sv = (sv1, vb1)"
    by (cases "unlock_if_not_active env vb sv")
  have m: "\<not> hasMemoryForStoredValue env vb1 itm UseActiveVBMemThreshold_No"
    using u assms by (auto simp: unlock_if_not_active_def split: if_splits)
  have v: "vb1 = (if sv_isLocked sv (env_current_time env) \<and>
                        (vb_state vb = vbucket_state_replica \<or>
                         vb_state vb = vbucket_state_pending)
                     then ht_put (sv_unlock sv) vb else vb)"
    using u by (auto simp: unlock_if_not_active_def split: if_splits)
  show ?thesis
    using Some u
    by (simp add: set_apply_def Let_def processSet_NoMem [OF m] set_switch_def v [symmetric])
qed

lemma updateMaxDeletedRevSeqno_checkpoint [simp]:
  "vb_checkpoint (updateMaxDeletedRevSeqno r vb) = vb_checkpoint vb"
  by (simp add: updateMaxDeletedRevSeqno_def)

lemma delete_apply_success:
  assumes nl: "\<not> sv_isLocked v (env_current_time env)"
    and ne: "\<not> sv_isExpired v (env_real_time env)"
    and nt: "\<not> sv_isTempInitialItem v"
    and cm: "sv_committed v = CommittedViaMutation"
  shows "\<exists>cas' vb'. delete_apply env vb v 0 cookie None = Inr (ENGINE_SUCCESS, cas', vb') \<and>
           length (vb_checkpoint vb') = Suc (length (vb_checkpoint vb))"
proof -
  define v4 where "v4 = (sv_unlock v)\<lparr>sv_revSeqno := sv_revSeqno v + 1\<rparr>"
  define v5 where "v5 = v4\<lparr>sv_deleted := True, sv_value := None, sv_dirty := True,
                           sv_committed := sv_committed v4\<rparr>"
  have c5: "sv_committed v5 = CommittedViaMutation"
    using cm by (simp add: v5_def v4_def sv_unlock_def)
  have np: "\<not> sv_isPending v4"
    using cm by (simp add: sv_isPending_def v4_def sv_unlock_def)
  from queueDirty_committed [OF c5, of env "ht_put v5 (ht_put v4 vb)"] obtain n qi vb2 where
    q: "queueDirty env (ht_put v5 (ht_put v4 vb)) v5 default_VBQueueItemCtx =
             Inr (n, v5\<lparr>sv_cas := it_cas qi, sv_bySeqno := it_bySeqno qi\<rparr>, vb2)"
    and cp: "vb_checkpoint vb2 = vb_checkpoint (ht_put v5 (ht_put v4 vb)) @ [qi]"
    by blast
  have sd: "softDeleteStoredValue env (ht_put v4 vb) v4 False default_VBQueueItemCtx
              (sv_bySeqno v) =
            Inr (v5\<lparr>sv_cas := it_cas qi, sv_bySeqno := it_bySeqno qi\<rparr>, Deletion_Success, n, vb2)"
    using np q
    by (simp add: softDeleteStoredValue_def Let_def v5_def [symmetric]
        default_VBQueueItemCtx_def)
  have ps: "processSoftDelete env vb v 0
              \<lparr>meta_cas = 0, meta_revSeqno = sv_revSeqno v + 1, meta_flags = 0,
               meta_exptime = 0\<rparr> default_VBQueueItemCtx False (sv_bySeqno v) =
            Inr (if sv_dirty v then WasDirty else WasClean,
                 v5\<lparr>sv_cas := it_cas qi, sv_bySeqno := it_bySeqno qi\<rparr>, Some n,
                 updateMaxDeletedRevSeqno (sv_revSeqno v + 1) vb2)"
    using nl nt sd [unfolded v4_def sv_unlock_def]
    by (simp add: processSoftDelete_def Let_def sv_unlock_def)
  show ?thesis
    using nl ne ps cp
    by (auto simp: delete_apply_def unlock_if_not_active_def delete_switch_def Let_def
        doCollectionsStats_def notifyNewSeqno_def ht_put_def)
qed

lemma set_item_NoMem:
  assumes nm: "\<not> hasMemoryForStoredValue env vb itm UseActiveVBMemThreshold_No"
    and g: "set_passes_guards vb itm predicate"
  shows "set_item env vb itm cookie predicate =
           Inr (ENGINE_ENOMEM, itm,
                case findForWrite vb (it_key itm) of
                  Some sv \<Rightarrow>
                    (if sv_isLocked sv (env_current_time env) \<and>
                        (vb_state vb = vbucket_state_replica \<or>
                         vb_state vb = vbucket_state_pending)
                     then ht_put (sv_unlock sv) vb else vb)
                | None \<Rightarrow> vb)"
proof -
  from g obtain st where
    s: "store_if vb predicate (findForWrite vb (it_key itm)) = Inr st"
    and f: "predicate = None \<or> st \<noteq> StoreIf_Fail"
    by (auto simp: set_passes_guards_def store_if_def split: option.splits sum.splits)
  have d: "(if it_isPending itm then activeDM_isDurabilityPossible vb else Inr True) = Inr True"
    using g by (auto simp: set_passes_guards_def)
  have e: "set_item env vb itm cookie predicate = set_apply env vb itm cookie st"
    using f by (auto simp: set_item_def d s)
  show ?thesis
    unfolding e by (rule set_apply_NoMem [OF nm])
qed

lemma replace_item_NoMem:
  assumes nm: "\<not> hasMemoryForStoredValue env vb itm UseActiveVBMemThreshold_No"
    and g: "set_passes_guards vb itm predicate"
    and v: "findForWrite vb (it_key itm) = Some sv" "\<not> isLogicallyNonExistent env sv"
      "\<not> (vb_eviction vb = Eviction_Full \<and> sv_isTempInitialItem sv)"
  shows "replace_item env vb itm cookie predicate = Inr (ENGINE_ENOMEM, itm, vb)"
proof -
  from g obtain st where
    s: "store_if vb predicate (findForWrite vb (it_key itm)) = Inr st"
    and f: "predicate = None \<or> st \<noteq> StoreIf_Fail"
    by (auto simp: set_passes_guards_def store_if_def split: option.splits sum.splits)
  have d: "(if it_isPending itm then activeDM_isDurabilityPossible vb else Inr True) = Inr True"
    using g by (auto simp: set_passes_guards_def)
  have e: "replace_item env vb itm cookie predicate = replace_apply env vb itm cookie st"
    using f by (auto simp: replace_item_def d s)
  show ?thesis
    unfolding e using v
    by (auto simp: replace_apply_def processSet_NoMem [OF nm] replace_switch_def)
qed

lemma add_item_NoMem:
  assumes nm: "\<not> hasMemoryForStoredValue env vb itm UseActiveVBMemThreshold_No"
    and g: "set_passes_guards vb itm None"
  shows "add_item env vb itm cookie =
           Inr (if add_finds_live_value env (findForWrite vb (it_key itm))
                then ENGINE_NOT_STORED else ENGINE_ENOMEM, itm, vb)"
proof -
  have d: "(if it_isPending itm then activeDM_isDurabilityPossible vb else Inr True) = Inr True"
    using g by (auto simp: set_passes_guards_def)
  show ?thesis
  proof (cases "add_finds_live_value env (findForWrite vb (it_key itm))")
    case True
    then show ?thesis
      by (simp add: add_item_def d Let_def processAdd_Exists add_finds_live_value_def
          add_switch_def)
  next
    case False
    then show ?thesis
      using nm
      by (simp add: add_item_def d Let_def processAdd_NoMem add_finds_live_value_def
          add_switch_def)
  qed
qed

lemma with_memory_stats_fields [simp]:
  "env_current_time (with_memory_stats env e m t r) = env_current_time env"
  "env_real_time (with_memory_stats env e m t r) = env_real_time env"
  "env_steady_now (with_memory_stats env e m t r) = env_steady_now env"
  "env_hlc_next (with_memory_stats env e m t r) = env_hlc_next env"
  "env_areDeletedItemsAlwaysResident (with_memory_stats env e m t r) =
     env_areDeletedItemsAlwaysResident env"
  "env_isLogicallyDeleted (with_memory_stats env e m t r) = env_isLogicallyDeleted env"
  "env_bFilter (with_memory_stats env e m t r) = env_bFilter env"
  "env_bucketDefaultTimeout (with_memory_stats env e m t r) = env_bucketDefaultTimeout env"
  by (simp_all add: with_memory_stats_def)

lemma cm_queueDirty_memory [simp]:
  "cm_queueDirty (with_memory_stats env e m t r) vb item g c = cm_queueDirty env vb item g c"
  by (simp add: cm_queueDirty_def Let_def
      cong: sum.case_cong prod.case_cong option.case_cong Timeout.case_cong if_cong
        DeletionStatus.case_cong)

lemma resolve_timeout_memory [simp]:
  "resolve_timeout (with_memory_stats env e m t r) q = resolve_timeout env q"
  by (simp add: resolve_timeout_def Let_def
      cong: sum.case_cong prod.case_cong option.case_cong Timeout.case_cong if_cong
        DeletionStatus.case_cong)

lemma adm_addSyncWrite_memory [simp]:
  "adm_addSyncWrite (with_memory_stats env e m t r) cookie item vb =
   adm_addSyncWrite env cookie item vb"
  by (simp add: adm_addSyncWrite_def Let_def
      cong: sum.case_cong prod.case_cong option.case_cong Timeout.case_cong if_cong
        DeletionStatus.case_cong)

lemma pdm_addSyncWrite_memory [simp]:
  "pdm_addSyncWrite (with_memory_stats env e m t r) item vb = pdm_addSyncWrite env item vb"
  by (simp add: pdm_addSyncWrite_def Let_def
      cong: sum.case_cong prod.case_cong option.case_cong Timeout.case_cong if_cong
        DeletionStatus.case_cong)

lemma queueItem_memory [simp]:
  "queueItem (with_memory_stats env e m t r) vb item ctx = queueItem env vb item ctx"
  by (simp add: queueItem_def Let_def
      cong: sum.case_cong prod.case_cong option.case_cong Timeout.case_cong if_cong
        DeletionStatus.case_cong)

lemma queueDirty_memory [simp]:
  "queueDirty (with_memory_stats env e m t r) vb v ctx = queueDirty env vb v ctx"
  by (simp add: queueDirty_def Let_def
      cong: sum.case_cong prod.case_cong option.case_cong Timeout.case_cong if_cong
        DeletionStatus.case_cong)

lemma softDeleteStoredValue_memory [simp]:
  "softDeleteStoredValue (with_memory_stats env e m t r) vb v o' ctx s =
   softDeleteStoredValue env vb v o' ctx s"
  by (simp add: softDeleteStoredValue_def Let_def
      cong: sum.case_cong prod.case_cong option.case_cong Timeout.case_cong if_cong
        DeletionStatus.case_cong)

lemma processExpiredItem_memory [simp]:
  "processExpiredItem (with_memory_stats env e m t r) vb v = processExpiredItem env vb v"
  by (simp add: processExpiredItem_def Let_def
      cong: sum.case_cong prod.case_cong option.case_cong Timeout.case_cong if_cong
        DeletionStatus.case_cong)

lemma processSoftDelete_memory [simp]:
  "processSoftDelete (with_memory_stats env e m t r) vb v cas md ctx um s =
   processSoftDelete env vb v cas md ctx um s"
  by (simp add: processSoftDelete_def Let_def
      cong: sum.case_cong prod.case_cong option.case_cong Timeout.case_cong if_cong
        DeletionStatus.case_cong)

lemma unlock_if_not_active_memory [simp]:
  "unlock_if_not_active (with_memory_stats env e m t r) vb v = unlock_if_not_active env vb v"
  by (simp add: unlock_if_not_active_def Let_def
      cong: sum.case_cong prod.case_cong option.case_cong Timeout.case_cong if_cong
        DeletionStatus.case_cong)

lemma deleteStoredValue_memory [simp]:
  "deleteStoredValue (with_memory_stats env e m t r) v vb = deleteStoredValue env v vb"
  by (simp add: deleteStoredValue_def Let_def
      cong: sum.case_cong prod.case_cong option.case_cong Timeout.case_cong if_cong
        DeletionStatus.case_cong)

lemma delete_apply_memory [simp]:
  "delete_apply (with_memory_stats env e m t r) vb v cas cookie d =
   delete_apply env vb v cas cookie d"
  by (simp add: delete_apply_def Let_def
      cong: sum.case_cong prod.case_cong option.case_cong Timeout.case_cong if_cong
        DeletionStatus.case_cong)

lemma deleteItem_memory_independent:
  assumes "findForWrite vb k = Some v"
  shows "deleteItem (with_memory_stats env e m t r) vb k cas cookie d =
         deleteItem env vb k cas cookie d"
proof (cases "case d of
              Some d \<Rightarrow> (if req_isValid d then activeDM_isDurabilityPossible vb else Inr True)
            | None \<Rightarrow> Inr True")
  case (Inl x)
  then show ?thesis by (simp add: deleteItem_def)
next
  case (Inr b)
  then show ?thesis by (cases b) (simp_all add: deleteItem_def assms)
qed

lemma deleteItem_absent_key:
  assumes f: "findForWrite vb k = None" and g: "delete_passes_guard vb d"
  shows "deleteItem env vb k cas cookie d =
           (if vb_eviction vb = Eviction_Value \<or> \<not> maybeKeyExistsInFilter env k
            then Inr (ENGINE_KEY_ENOENT, cas, vb)
            else if \<not> hasMemoryForStoredValue env vb (temp_init_item k)
                        UseActiveVBMemThreshold_No
            then Inr (ENGINE_ENOMEM, cas, vb)
            else Inr (ENGINE_EWOULDBLOCK, cas, snd (addTempItemAndBGFetch env vb k cookie)))"
proof -
  have d: "(case d of
              Some d \<Rightarrow> (if req_isValid d then activeDM_isDurabilityPossible vb else Inr True)
            | None \<Rightarrow> Inr True) = Inr True"
    using g by (auto simp: delete_passes_guard_def split: option.splits)
  show ?thesis
    by (simp add: deleteItem_def d f addTempItemAndBGFetch_def addTempStoredValue_def Let_def)
qed


lemma test_env_no_memory_fails:
  "\<not> hasMemoryForStoredValue test_env_no_memory vb itm u"
  by (simp add: hasMemoryForStoredValue_def test_env_no_memory_def test_env_def
      to_double_numeral)

lemma test_committed_sv_facts:
  "\<not> sv_deleted test_committed_sv" "\<not> sv_isLocked test_committed_sv t"
  "sv_committed test_committed_sv = CommittedViaMutation"
  "\<not> sv_isExpired test_committed_sv t"
  "\<not> sv_isTempInitialItem test_committed_sv" "\<not> sv_isTempItem test_committed_sv"
  "\<not> sv_isTempDeletedItem test_committed_sv" "\<not> sv_isTempNonExistentItem test_committed_sv"
  by (simp_all add: test_committed_sv_def sv_of_item_def
      makeCommittedItem_def sv_isLocked_def it_isPending_def sv_isExpired_def
      sv_isTempInitialItem_def sv_isTempItem_def sv_isTempDeletedItem_def
      sv_isTempNonExistentItem_def temp_of_bySeqno_def state_temp_init_def)

lemma test_env_no_memory_fields [simp]:
  "env_isLogicallyDeleted test_env_no_memory s = False"
  by (simp add: test_env_no_memory_def test_env_def)



subsection \<open>Locks on replica and pending vBuckets\<close>

lemma finish_mutation_not_locked:
  "finish_mutation ret n v itm vb = Inr (c, itm', vb') \<Longrightarrow> c = ret"
  by (auto simp: finish_mutation_def split: option.splits)

lemma addTempItemAndBGFetch_codes:
  "fst (addTempItemAndBGFetch env vb k cookie) = ENGINE_ENOMEM \<or>
   fst (addTempItemAndBGFetch env vb k cookie) = ENGINE_EWOULDBLOCK"
  by (simp add: addTempItemAndBGFetch_def split: prod.splits TempAddStatus.splits)

lemma set_switch_locked:
  assumes "set_switch env cookie cas_op status n v itm vb = Inr (c, itm', vb')"
    and "c = ENGINE_LOCKED \<or> c = ENGINE_LOCKED_TMPFAIL"
  shows "status = IsLocked"
  using assms addTempItemAndBGFetch_codes [of env vb "it_key itm" cookie]
  by (cases status)
     (auto simp: set_switch_def Let_def split: option.splits prod.splits if_splits
       dest!: finish_mutation_not_locked)

lemma processSet_existing_IsLocked_cas:
  "processSet_existing env vb v itm cas ae hm ctx = Inr (IsLocked, n, v2, itm2, vb2) \<Longrightarrow>
   sv_isLocked v (env_current_time env) \<and> cas \<noteq> sv_cas v"
  by (auto simp: processSet_existing_def Let_def split: if_splits sum.splits
      dest: updateStoredValue_status)

lemma processSet_IsLocked_cas:
  assumes "processSet env vb v itm cas ae hm ctx st mke = Inr (IsLocked, n, v2, itm2, vb2)"
  shows "\<exists>sv. v = Some sv \<and> sv_isLocked sv (env_current_time env) \<and> cas \<noteq> sv_cas sv \<and>
              \<not> (sv_isExpired sv (env_real_time env) \<and> \<not> hm \<and> \<not> it_deleted itm)"
proof -
  from processSet_IsLocked [OF assms] obtain sv where
    sv: "v = Some sv" "sv_isLocked sv (env_current_time env)"
      "\<not> (sv_isExpired sv (env_real_time env) \<and> \<not> hm \<and> \<not> it_deleted itm)"
    by blast
  have "processSet_existing env vb sv itm cas ae hm ctx = Inr (IsLocked, n, v2, itm2, vb2)"
    using assms sv by (auto simp: processSet_def Let_def split: if_splits)
  from processSet_existing_IsLocked_cas [OF this] sv show ?thesis
    by blast
qed

lemma set_apply_locked_only:
  assumes r: "set_apply env vb itm cookie st = Inr (c, itm', vb')"
    and c: "c = ENGINE_LOCKED \<or> c = ENGINE_LOCKED_TMPFAIL"
  shows "c = ENGINE_LOCKED \<and>
         (\<exists>v. findForWrite vb (it_key itm) = Some v \<and> sv_isLocked v (env_current_time env) \<and>
              \<not> unlocks_on_write vb \<and> it_cas itm \<noteq> sv_cas v \<and>
              \<not> (sv_isExpired v (env_real_time env) \<and> \<not> it_deleted itm))"
proof -
  define v1 where "v1 = (case findForWrite vb (it_key itm) of
                        Some sv \<Rightarrow>
                          (case unlock_if_not_active env vb sv of
                             (sv1, vb') \<Rightarrow> (Some sv1, vb'))
                      | None \<Rightarrow> (None, vb))"
  obtain a b where ab: "v1 = (a, b)" by (cases v1)
  from r obtain status n v2 itm2 vb2 mke where
    p: "processSet env b a itm (it_cas itm) True False (item_queue_ctx itm cookie) st mke =
          Inr (status, n, v2, itm2, vb2)"
    and s: "set_switch env cookie (it_cas itm \<noteq> 0) status n v2 itm2 vb2 = Inr (c, itm', vb')"
    unfolding set_apply_def Let_def v1_def [symmetric] ab
    by (auto split: sum.splits prod.splits)
  have st: "status = IsLocked"
    using set_switch_locked [OF s c] .
  have cl: "c = ENGINE_LOCKED"
    using s by (simp add: st set_switch_def)
  from processSet_IsLocked_cas [OF p [unfolded st]] obtain sv where
    sv: "a = Some sv" "sv_isLocked sv (env_current_time env)" "it_cas itm \<noteq> sv_cas sv"
      "\<not> (sv_isExpired sv (env_real_time env) \<and> \<not> it_deleted itm)"
    by auto
  from ab sv(1) obtain v where
    f: "findForWrite vb (it_key itm) = Some v" and u: "fst (unlock_if_not_active env vb v) = sv"
    by (auto simp: v1_def split: option.splits prod.splits)
  have "sv = v \<and> \<not> unlocks_on_write vb"
    using u sv(2)
    by (auto simp: unlock_if_not_active_def unlocks_on_write_def sv_isLocked_def sv_unlock_def
        split: if_splits)
  with f sv cl show ?thesis by blast
qed

lemma set_item_locked_only:
  assumes r: "returned_code (set_item env vb itm cookie predicate) = Some c"
    and c: "c = ENGINE_LOCKED \<or> c = ENGINE_LOCKED_TMPFAIL"
  shows "c = ENGINE_LOCKED \<and>
         (\<exists>v. findForWrite vb (it_key itm) = Some v \<and> sv_isLocked v (env_current_time env) \<and>
              \<not> unlocks_on_write vb \<and> it_cas itm \<noteq> sv_cas v \<and>
              \<not> (sv_isExpired v (env_real_time env) \<and> \<not> it_deleted itm))"
proof -
  from r obtain itm' vb' where
    "set_item env vb itm cookie predicate = Inr (c, itm', vb')"
    by (auto simp: returned_code_def split: sum.splits)
  from set_item_cases [OF this] c obtain st where
    "set_apply env vb itm cookie st = Inr (c, itm', vb')"
    by auto
  from set_apply_locked_only [OF this c] show ?thesis .
qed

lemma processExpiredItem_not_IsLocked:
  "processExpiredItem env vb v = Inr (s, v2, n, vb2) \<Longrightarrow> s \<noteq> IsLocked"
  by (auto simp: processExpiredItem_def Let_def
      split: if_splits sum.splits prod.splits DeletionStatus.splits)

lemma processSoftDelete_IsLocked:
  "processSoftDelete env vb v cas m ctx um bs = Inr (IsLocked, v2, n, vb2) \<Longrightarrow>
   sv_isLocked v (env_current_time env) \<and> cas \<noteq> sv_cas v"
  by (auto simp: processSoftDelete_def Let_def
      split: if_splits sum.splits prod.splits DeletionStatus.splits)

lemma delete_switch_locked:
  assumes "delete_switch durable cas delrv v n vb = Inr (c, cas', vb')"
    and "c = ENGINE_LOCKED \<or> c = ENGINE_LOCKED_TMPFAIL"
  shows "delrv = IsLocked"
  using assms
  by (cases delrv) (auto simp: delete_switch_def Let_def split: option.splits if_splits)

lemma delete_apply_locked_only:
  assumes r: "delete_apply env vb v cas cookie d = Inr (c, cas', vb')"
    and c: "c = ENGINE_LOCKED \<or> c = ENGINE_LOCKED_TMPFAIL"
  shows "c = ENGINE_LOCKED_TMPFAIL \<and> sv_isLocked v (env_current_time env) \<and>
         \<not> unlocks_on_write vb \<and> cas \<noteq> sv_cas v \<and> \<not> sv_isExpired v (env_real_time env)"
proof -
  obtain v1 vb1 where un: "unlock_if_not_active env vb v = (v1, vb1)"
    by (cases "unlock_if_not_active env vb v")
  from r obtain delrv v2 n vb2 where
    p: "(if sv_isExpired v1 (env_real_time env)
                 then processExpiredItem env vb1 v1
                 else
                   processSoftDelete env vb1 v1 cas
                     \<lparr>meta_cas = 0, meta_revSeqno = sv_revSeqno v1 + 1,
                      meta_flags = 0, meta_exptime = 0\<rparr>
                     (case d of
                        Some d \<Rightarrow>
                          default_VBQueueItemCtx
                            \<lparr>ctx_durability :=
                               Some \<lparr>dur_requirements = d, dur_cookie = cookie\<rparr>\<rparr>
                      | None \<Rightarrow> default_VBQueueItemCtx)
                     False (sv_bySeqno v1)) = Inr (delrv, v2, n, vb2)"
    and s: "delete_switch (d \<noteq> None) cas delrv v2 n vb2 = Inr (c, cas', vb')"
    unfolding delete_apply_def un
    by (auto split: sum.splits prod.splits)
  have st: "delrv = IsLocked"
    using delete_switch_locked [OF s c] .
  have cl: "c = ENGINE_LOCKED_TMPFAIL"
    using s by (simp add: st delete_switch_def)
  have e: "\<not> sv_isExpired v1 (env_real_time env)"
    using p st by (auto dest: processExpiredItem_not_IsLocked)
  with p st have l: "sv_isLocked v1 (env_current_time env) \<and> cas \<noteq> sv_cas v1"
    by (auto dest: processSoftDelete_IsLocked)
  have "v1 = v \<and> \<not> unlocks_on_write vb"
    using un l
    by (auto simp: unlock_if_not_active_def unlocks_on_write_def sv_isLocked_def sv_unlock_def
        split: if_splits)
  with e l cl show ?thesis by simp
qed

lemma deleteItem_cases:
  assumes "deleteItem env vb k cas cookie d = Inr (c, cas', vb')"
  shows "c = ENGINE_DURABILITY_IMPOSSIBLE \<or> c = ENGINE_KEY_ENOENT \<or> c = ENGINE_EWOULDBLOCK \<or>
         c = ENGINE_ENOMEM \<or>
         (\<exists>v. findForWrite vb k = Some v \<and> delete_finds_live_value env v \<and>
              delete_apply env vb v cas cookie d = Inr (c, cas', vb'))"
proof (cases "case d of
              Some d \<Rightarrow> (if req_isValid d then activeDM_isDurabilityPossible vb else Inr True)
            | None \<Rightarrow> Inr True")
  case (Inl e)
  then show ?thesis using assms by (simp add: deleteItem_def)
next
  case (Inr b)
  show ?thesis
  proof (cases b)
    case False
    then show ?thesis using assms Inr by (simp add: deleteItem_def)
  next
    case True
    show ?thesis
    proof (cases "findForWrite vb k")
      case None
      then show ?thesis
        using assms Inr True addTempItemAndBGFetch_codes [of env vb k cookie]
        by (auto simp: deleteItem_def split: if_splits prod.splits)
    next
      case (Some v0)
      show ?thesis
      proof (cases "sv_deleted v0 \<or> sv_isTempItem v0 \<or>
                   env_isLogicallyDeleted env (sv_bySeqno v0)")
        case True
        then show ?thesis
          using assms Inr \<open>b\<close> Some
          by (simp add: deleteItem_def split: if_splits)
      next
        case False
        then have "delete_apply env vb v0 cas cookie d = Inr (c, cas', vb')"
          using assms Inr \<open>b\<close> Some by (auto simp: deleteItem_def)
        then show ?thesis
          using Some False by (simp add: delete_finds_live_value_def)
      qed
    qed
  qed
qed

lemma deleteItem_locked_only:
  assumes r: "returned_code (deleteItem env vb k cas cookie d) = Some c"
    and c: "c = ENGINE_LOCKED \<or> c = ENGINE_LOCKED_TMPFAIL"
  shows "c = ENGINE_LOCKED_TMPFAIL \<and>
         (\<exists>v. findForWrite vb k = Some v \<and> delete_finds_live_value env v \<and>
              sv_isLocked v (env_current_time env) \<and> \<not> unlocks_on_write vb \<and>
              cas \<noteq> sv_cas v \<and> \<not> sv_isExpired v (env_real_time env))"
proof -
  from r obtain cas' vb' where
    "deleteItem env vb k cas cookie d = Inr (c, cas', vb')"
    by (auto simp: returned_code_def split: sum.splits)
  from deleteItem_cases [OF this] c obtain v where
    v: "findForWrite vb k = Some v" "delete_finds_live_value env v"
      "delete_apply env vb v cas cookie d = Inr (c, cas', vb')"
    by auto
  from delete_apply_locked_only [OF v(3) c] v(1,2) show ?thesis
    by blast
qed

lemma guard_ht_put [simp]:
  "activeDM_isDurabilityPossible (ht_put x vb) = activeDM_isDurabilityPossible vb"
  by (simp add: activeDM_isDurabilityPossible_def getActiveDM_def ht_put_def)

lemma guard_not_active:
  "unlocks_on_write vb \<Longrightarrow> activeDM_isDurabilityPossible vb = Inl Expects_failed"
  by (auto simp: activeDM_isDurabilityPossible_def getActiveDM_def unlocks_on_write_def)

lemma unlocks_on_write_ht_put [simp]:
  "unlocks_on_write (ht_put x vb) = unlocks_on_write vb"
  by (simp add: unlocks_on_write_def ht_put_def)

lemma unlock_if_not_active_locked:
  assumes "unlocks_on_write vb" and "sv_isLocked v (env_current_time env)"
  shows "unlock_if_not_active env vb v = (sv_unlock v, ht_put (sv_unlock v) vb)"
  using assms by (auto simp: unlock_if_not_active_def unlocks_on_write_def)

lemma findForWrite_ht_put:
  "findForWrite (ht_put x vb) (sv_key x) = Some x"
  by (simp add: findForWrite_def ht_put_def)

lemma ht_put_fields [simp]:
  "vb_eviction (ht_put x vb) = vb_eviction vb" "vb_state (ht_put x vb) = vb_state vb"
  by (simp_all add: ht_put_def)

lemma set_apply_clears_lock:
  assumes u: "unlocks_on_write vb"
    and f: "findForWrite vb (it_key itm) = Some v"
    and k: "sv_key v = it_key itm"
    and l: "sv_isLocked v (env_current_time env)"
  shows "set_apply env vb itm cookie st = set_apply env (ht_put (sv_unlock v) vb) itm cookie st"
proof -
  have f': "findForWrite (ht_put (sv_unlock v) vb) (it_key itm) = Some (sv_unlock v)"
    using findForWrite_ht_put [of "sv_unlock v" vb] k by simp
  show ?thesis
    by (simp add: set_apply_def f f' unlock_if_not_active_locked [OF u l]
        unlock_if_not_active_unlocked)
qed

lemma set_item_clears_lock:
  assumes u: "unlocks_on_write vb"
    and f: "findForWrite vb (it_key itm) = Some v"
    and k: "sv_key v = it_key itm"
    and l: "sv_isLocked v (env_current_time env)"
  shows "set_item env vb itm cookie None = set_item env (ht_put (sv_unlock v) vb) itm cookie None"
  using set_apply_clears_lock [OF u f k l]
  by (simp add: set_item_def store_if_def guard_not_active [OF u])

lemma sv_unlock_more [simp]:
  "sv_isTempItem (sv_unlock v) = sv_isTempItem v"
  "sv_bySeqno (sv_unlock v) = sv_bySeqno v"
  by (simp_all add: sv_unlock_def sv_isTempItem_def sv_isTempNonExistentItem_def
      sv_isTempDeletedItem_def sv_isTempInitialItem_def)

lemma delete_apply_clears_lock:
  assumes u: "unlocks_on_write vb"
    and l: "sv_isLocked v (env_current_time env)"
  shows "delete_apply env vb v cas cookie d =
         delete_apply env (ht_put (sv_unlock v) vb) (sv_unlock v) cas cookie d"
  unfolding delete_apply_def unlock_if_not_active_locked [OF u l]
    unlock_if_not_active_unlocked [OF sv_unlock_not_locked]
  by simp

lemma deleteItem_clears_lock:
  assumes u: "unlocks_on_write vb"
    and f: "findForWrite vb k = Some v"
    and k: "sv_key v = k"
    and l: "sv_isLocked v (env_current_time env)"
    and lv: "delete_finds_live_value env v"
  shows "deleteItem env vb k cas cookie d = deleteItem env (ht_put (sv_unlock v) vb) k cas cookie d"
proof -
  have f': "findForWrite (ht_put (sv_unlock v) vb) k = Some (sv_unlock v)"
    using findForWrite_ht_put [of "sv_unlock v" vb] k by simp
  have lv': "\<not> (sv_deleted v \<or> sv_isTempItem v \<or> env_isLogicallyDeleted env (sv_bySeqno v))"
    using lv by (simp add: delete_finds_live_value_def)
  show ?thesis
    unfolding deleteItem_def f f' guard_ht_put guard_not_active [OF u]
    using lv' delete_apply_clears_lock [OF u l]
    by (simp split: option.splits)
qed

lemma set_item_to_apply:
  assumes g: "set_passes_guards vb itm predicate"
  shows "\<exists>st. store_if vb predicate (findForWrite vb (it_key itm)) = Inr st \<and>
              set_item env vb itm cookie predicate = set_apply env vb itm cookie st"
proof -
  from g obtain st where
    s: "store_if vb predicate (findForWrite vb (it_key itm)) = Inr st"
    and f: "predicate = None \<or> st \<noteq> StoreIf_Fail"
    by (auto simp: set_passes_guards_def store_if_def split: option.splits sum.splits)
  have d: "(if it_isPending itm then activeDM_isDurabilityPossible vb else Inr True) = Inr True"
    using g by (auto simp: set_passes_guards_def)
  have "set_item env vb itm cookie predicate = set_apply env vb itm cookie st"
    using f by (auto simp: set_item_def d s)
  with s show ?thesis by blast
qed

lemma set_item_clears_lock_after_guards:
  assumes u: "unlocks_on_write vb"
    and f: "findForWrite vb (it_key itm) = Some v"
    and k: "sv_key v = it_key itm"
    and l: "sv_isLocked v (env_current_time env)"
    and g: "set_passes_guards vb itm predicate"
  shows "\<exists>st. store_if vb predicate (Some v) = Inr st \<and>
              set_item env vb itm cookie predicate =
                set_apply env (ht_put (sv_unlock v) vb) itm cookie st"
  using set_item_to_apply [OF g, of env cookie] set_apply_clears_lock [OF u f k l]
  by (auto simp: f)

lemma set_item_lock_enforced:
  assumes nu: "\<not> unlocks_on_write vb"
    and f: "findForWrite vb (it_key itm) = Some v"
    and l: "sv_isLocked v (env_current_time env)"
    and c: "it_cas itm \<noteq> sv_cas v"
    and g: "set_passes_guards vb itm predicate"
    and m: "hasMemoryForStoredValue env vb itm UseActiveVBMemThreshold_No"
    and t: "\<not> sv_isTempInitialItem v"
    and e: "\<not> (sv_isExpired v (env_real_time env) \<and> \<not> it_deleted itm)"
  shows "set_item env vb itm cookie predicate = Inr (ENGINE_LOCKED, itm, vb)"
proof -
  from set_item_to_apply [OF g, of env cookie] obtain st where
    a: "set_item env vb itm cookie predicate = set_apply env vb itm cookie st"
    by blast
  have un: "unlock_if_not_active env vb v = (v, vb)"
    using nu by (auto simp: unlock_if_not_active_def unlocks_on_write_def)
  have ps: "processSet env vb (Some v) itm (it_cas itm) True False ctx st mke =
              Inr (IsLocked, None, Some v, itm, vb)" for ctx st mke
    using m t e l c by (auto simp: processSet_def processSet_existing_def)
  show ?thesis
    unfolding a by (simp add: set_apply_def f un ps set_switch_def)
qed

lemma deleteItem_lock_enforced:
  assumes nu: "\<not> unlocks_on_write vb"
    and f: "findForWrite vb k = Some v"
    and l: "sv_isLocked v (env_current_time env)"
    and c: "cas \<noteq> sv_cas v"
    and g: "delete_passes_guard vb d"
    and lv: "delete_finds_live_value env v"
    and e: "\<not> sv_isExpired v (env_real_time env)"
  shows "deleteItem env vb k cas cookie d = Inr (ENGINE_LOCKED_TMPFAIL, cas, vb)"
proof -
  have d: "(case d of
              Some d \<Rightarrow> (if req_isValid d then activeDM_isDurabilityPossible vb else Inr True)
            | None \<Rightarrow> Inr True) = Inr True"
    using g by (auto simp: delete_passes_guard_def split: option.splits)
  have un: "unlock_if_not_active env vb v = (v, vb)"
    using nu by (auto simp: unlock_if_not_active_def unlocks_on_write_def)
  have lv': "\<not> (sv_deleted v \<or> sv_isTempItem v \<or> env_isLogicallyDeleted env (sv_bySeqno v))"
    using lv by (simp add: delete_finds_live_value_def)
  have t: "\<not> sv_isTempInitialItem v"
    using lv' by (auto simp: sv_isTempItem_def sv_isTempInitialItem_def)
  have ps: "processSoftDelete env vb v cas m ctx False bs = Inr (IsLocked, v, None, vb)"
    for m ctx bs
    using t l c by (simp add: processSoftDelete_def)
  show ?thesis
    using lv' e
    by (simp add: deleteItem_def d f delete_apply_def un ps delete_switch_def)
qed


lemma test_locked_sv_facts:
  "sv_isLocked test_locked_sv (env_current_time test_env)"
  "sv_key test_locked_sv = ''key7''" "sv_cas test_locked_sv = 5"
  "\<not> sv_isTempInitialItem test_locked_sv" "\<not> sv_isExpired test_locked_sv t"
  "delete_finds_live_value test_env test_locked_sv"
  by (simp_all add: test_locked_sv_def test_committed_sv_def sv_of_item_def
      makeCommittedItem_def sv_isLocked_def it_isPending_def sv_isExpired_def
      sv_isTempInitialItem_def sv_isTempItem_def sv_isTempDeletedItem_def
      sv_isTempNonExistentItem_def temp_of_bySeqno_def state_temp_init_def test_env_def
      delete_finds_live_value_def)

lemma test_vbucket_locked_facts:
  "findForWrite (test_vbucket_locked s) ''key7'' = Some test_locked_sv"
  "vb_state (test_vbucket_locked s) = s"
  by (simp_all add: test_vbucket_locked_def findForWrite_def new_vbucket_def)

lemma test_cas_item_facts:
  "it_key test_cas_item = ''key7''" "it_cas test_cas_item = 99"
  "\<not> it_isPending test_cas_item"
  by (simp_all add: test_cas_item_def makeCommittedItem_def it_isPending_def)

lemma test_vbucket_locked_expired_facts:
  "findForWrite test_vbucket_locked_expired ''key7'' = Some (test_locked_sv\<lparr>sv_exptime := 500\<rparr>)"
  "vb_state test_vbucket_locked_expired = vbucket_state_active"
  "sv_isLocked (test_locked_sv\<lparr>sv_exptime := 500\<rparr>) (env_current_time test_env)"
  "sv_isExpired (test_locked_sv\<lparr>sv_exptime := 500\<rparr>) (env_real_time test_env)"
  by (simp_all add: test_vbucket_locked_expired_def test_vbucket_locked_def findForWrite_def
      new_vbucket_def sv_isLocked_def sv_isExpired_def test_locked_sv_def test_env_def)



end
